(* ===== verification/Prelude.thy ===== *)
theory Prelude
  imports Main "HOL-Library.Word" "HOL-Library.Char_ord" "HOL-Library.List_Lexorder"
begin

text \<open>
  Shared vocabulary of the development: the failures a C++ call can end in
  (\<open>fallo\<close>), results that carry them (\<open>'a res\<close>) with their sequencing operator
  \<open>bnd\<close>, the functions of the C library on characters and NUL-terminated
  strings the server uses, and the generic list lemmas of the component theories.
  A C++ \<open>std::string\<close> is a HOL \<open>string\<close>, one \<open>char\<close> per byte.
\<close>

named_theorems res_simps \<open>computation rules of the result type\<close>
named_theorems cadena_simps \<open>facts on strings and their characters\<close>

section \<open>Failures and results\<close>

text \<open>
  How a call can end without returning: an exception nobody catches (the JSON
  library's assertions and its stack limit, \<open>vector::at\<close>), or behaviour the
  language leaves undefined.
\<close>

datatype fallo =
    LogicError string
  | RuntimeError string
  | OutOfRange
  | Indefinido string

type_synonym 'a res = "fallo + 'a"

definition bnd :: "'a res \<Rightarrow> ('a \<Rightarrow> 'b res) \<Rightarrow> 'b res" where
  "bnd m f = (case m of Inl e \<Rightarrow> Inl e | Inr x \<Rightarrow> f x)"

lemma bnd_Inr [simp, res_simps]: "bnd (Inr x) f = f x"
  by (simp add: bnd_def)

lemma bnd_Inl [simp, res_simps]: "bnd (Inl e) f = Inl e"
  by (simp add: bnd_def)

lemma bnd_eq_Inr_iff: "bnd m f = Inr y \<longleftrightarrow> (\<exists>x. m = Inr x \<and> f x = Inr y)"
  by (cases m) simp_all

lemma bnd_InrE [elim]:
  assumes "bnd m f = Inr y"
  obtains x where "m = Inr x" and "f x = Inr y"
  using assms by (cases m) simp_all

lemma bnd_cong [fundef_cong]:
  "m = m' \<Longrightarrow> (\<And>x. m' = Inr x \<Longrightarrow> f x = f' x) \<Longrightarrow> bnd m f = bnd m' f'"
  by (cases m') simp_all

lemma bnd_assoc: "bnd (bnd m f) g = bnd m (\<lambda>x. bnd (f x) g)"
  by (cases m) simp_all

text \<open>Running a fallible operation over the elements of a vector, left to right.\<close>

fun mapM :: "('a \<Rightarrow> 'b res) \<Rightarrow> 'a list \<Rightarrow> 'b list res" where
  "mapM f [] = Inr []"
| "mapM f (x # xs) = bnd (f x) (\<lambda>y. bnd (mapM f xs) (\<lambda>ys. Inr (y # ys)))"

lemma mapM_pure [simp]: "mapM (\<lambda>x. Inr (f x)) xs = Inr (map f xs)"
  by (induction xs) simp_all

lemma mapM_cong [fundef_cong]:
  "xs = ys \<Longrightarrow> (\<And>x. x \<in> set ys \<Longrightarrow> f x = g x) \<Longrightarrow> mapM f xs = mapM g ys"
  by (induction xs arbitrary: ys) auto

lemma length_mapM: "mapM f xs = Inr ys \<Longrightarrow> length ys = length xs"
  by (induction xs arbitrary: ys) (auto simp: bnd_eq_Inr_iff)

section \<open>Characters of the C library\<close>

abbreviation ord :: "char \<Rightarrow> nat" where
  "ord c \<equiv> of_char c"

abbreviation NUL :: char where
  "NUL \<equiv> CHR 0x00"

definition isdigit :: "char \<Rightarrow> bool" where
  "isdigit c \<longleftrightarrow> 48 \<le> ord c \<and> ord c \<le> 57"

definition isspace :: "char \<Rightarrow> bool" where
  "isspace c \<longleftrightarrow> ord c = 32 \<or> 9 \<le> ord c \<and> ord c \<le> 13"

definition isupper :: "char \<Rightarrow> bool" where
  "isupper c \<longleftrightarrow> 65 \<le> ord c \<and> ord c \<le> 90"

definition islower :: "char \<Rightarrow> bool" where
  "islower c \<longleftrightarrow> 97 \<le> ord c \<and> ord c \<le> 122"

definition isxdigit :: "char \<Rightarrow> bool" where
  "isxdigit c \<longleftrightarrow> isdigit c \<or> 65 \<le> ord c \<and> ord c \<le> 70 \<or> 97 \<le> ord c \<and> ord c \<le> 102"

definition tolower :: "char \<Rightarrow> char" where
  "tolower c = (if isupper c then char_of (ord c + 32) else c)"

definition toupper :: "char \<Rightarrow> char" where
  "toupper c = (if islower c then char_of (ord c - 32) else c)"

lemmas ctype_defs =
  isdigit_def isspace_def isupper_def islower_def isxdigit_def

section \<open>NUL-terminated strings\<close>

text \<open>What a C function sees of a \<open>std::string\<close> through \<open>c_str()\<close>.\<close>

definition c_str :: "string \<Rightarrow> string" where
  "c_str s = takeWhile (\<lambda>c. c \<noteq> NUL) s"

lemma c_str_id [simp]: "NUL \<notin> set s \<Longrightarrow> c_str s = s"
  unfolding c_str_def by (rule takeWhile_eq_all_conv [THEN iffD2]) auto

lemma NUL_notin_c_str [simp]: "NUL \<notin> set (c_str s)"
  unfolding c_str_def by (auto dest: set_takeWhileD)

section \<open>Generic lemmas on lists\<close>

lemma takeWhile_append_stop [simp]:
  "d \<notin> set x \<Longrightarrow> takeWhile (\<lambda>c. c \<noteq> d) (x @ d # y) = x"
  by (induction x) auto

lemma dropWhile_append_stop [simp]:
  "d \<notin> set x \<Longrightarrow> dropWhile (\<lambda>c. c \<noteq> d) (x @ d # y) = d # y"
  by (induction x) auto

lemma takeWhile_not_in [simp]: "d \<notin> set x \<Longrightarrow> takeWhile (\<lambda>c. c \<noteq> d) x = x"
  by (induction x) auto

lemma dropWhile_not_in [simp]: "d \<notin> set x \<Longrightarrow> dropWhile (\<lambda>c. c \<noteq> d) x = []"
  by (induction x) auto

lemma length_dropWhile_less: "s \<noteq> [] \<Longrightarrow> length (dropWhile P s) - Suc 0 < length s"
  using length_dropWhile_le [of P s] by (cases s) auto

section \<open>Comparing bytes\<close>

fun memcmp :: "string \<Rightarrow> string \<Rightarrow> nat \<Rightarrow> int" where
  "memcmp (x # xs) (y # ys) n =
     (if n = 0 then 0
      else if ord x < ord y then - 1 else if ord y < ord x then 1 else memcmp xs ys (n - 1))"
| "memcmp _ _ _ = 0"

lemma memcmp_eq_0: "length a = length b \<Longrightarrow> memcmp a b (length a) = 0 \<longleftrightarrow> a = b"
  by (induction a b rule: list_induct2) (auto simp: of_char_eq_iff dest: le_antisym)

section \<open>Operations on a state\<close>

text \<open>
  A C++ member function that reads and changes state is a function from the state to its
  result and the state afterwards; \<open>luego\<close> runs one after the other.
\<close>

type_synonym ('s, 'a) oper = "'s \<Rightarrow> ('a \<times> 's) res"

definition ret :: "'a \<Rightarrow> ('s, 'a) oper" where
  "ret x s = Inr (x, s)"

definition luego :: "('s, 'a) oper \<Rightarrow> ('a \<Rightarrow> ('s, 'b) oper) \<Rightarrow> ('s, 'b) oper" where
  "luego m f s = bnd (m s) (\<lambda>(x, s'). f x s')"

definition eleva :: "'a res \<Rightarrow> ('s, 'a) oper" where
  "eleva r s = bnd r (\<lambda>x. Inr (x, s))"

definition consulta :: "('s \<Rightarrow> 'a) \<Rightarrow> ('s, 'a) oper" where
  "consulta f s = Inr (f s, s)"

definition modifica :: "('s \<Rightarrow> 's) \<Rightarrow> ('s, unit) oper" where
  "modifica f s = Inr ((), f s)"

text \<open>The loops over the elements of a vector.\<close>

fun para_cada :: "('a \<Rightarrow> ('s, 'b) oper) \<Rightarrow> 'a list \<Rightarrow> ('s, 'b list) oper" where
  "para_cada f [] = ret []"
| "para_cada f (x # xs) = luego (f x) (\<lambda>y. luego (para_cada f xs) (\<lambda>ys. ret (y # ys)))"

named_theorems oper_simps \<open>running operations\<close>

lemma luego_run [oper_simps]: "luego m f s = bnd (m s) (\<lambda>(x, s'). f x s')"
  by (simp add: luego_def)

lemma ret_run [simp, oper_simps]: "ret x s = Inr (x, s)"
  by (simp add: ret_def)

lemma eleva_Inr [simp, oper_simps]: "eleva (Inr x) s = Inr (x, s)"
  by (simp add: eleva_def)

lemma eleva_Inl [simp, oper_simps]: "eleva (Inl e) s = Inl e"
  by (simp add: eleva_def)

lemma consulta_run [simp, oper_simps]: "consulta f s = Inr (f s, s)"
  by (simp add: consulta_def)

lemma modifica_run [simp, oper_simps]: "modifica f s = Inr ((), f s)"
  by (simp add: modifica_def)

lemma luego_eleva [simp]: "luego (eleva (Inr x)) f = f x"
  by (simp add: luego_def fun_eq_iff)

lemma luego_ret [simp]: "luego (ret x) f = f x"
  by (simp add: luego_def fun_eq_iff)

lemma luego_Inr: "m s = Inr (x, s') \<Longrightarrow> luego m f s = f x s'"
  by (simp add: luego_def)

lemma luego_InrE [elim]:
  assumes "luego m f s = Inr (y, t)"
  obtains x s' where "m s = Inr (x, s')" and "f x s' = Inr (y, t)"
  using assms unfolding luego_def by (cases "m s") auto

lemma para_cada_Cons:
  "f x s = Inr (y, s1) \<Longrightarrow> para_cada f xs s1 = Inr (ys, s2) \<Longrightarrow> para_cada f (x # xs) s = Inr (y # ys, s2)"
  by (simp add: luego_def)

text \<open>
  \<open>respeta R m\<close>: whenever \<open>m\<close> returns, the state before and the state after are related by
  \<open>R\<close>. For a preorder this composes, and the rules below discharge it for a whole handler
  from the facts on the operations it calls.
\<close>

definition respeta :: "('s \<Rightarrow> 's \<Rightarrow> bool) \<Rightarrow> ('s, 'a) oper \<Rightarrow> bool" where
  "respeta R m \<longleftrightarrow> (\<forall>s x s'. m s = Inr (x, s') \<longrightarrow> R s s')"

lemma respetaI: "(\<And>s x s'. m s = Inr (x, s') \<Longrightarrow> R s s') \<Longrightarrow> respeta R m"
  by (auto simp: respeta_def)

lemma respetaD: "respeta R m \<Longrightarrow> m s = Inr (x, s') \<Longrightarrow> R s s'"
  by (auto simp: respeta_def)

locale preorden =
  fixes R :: "'s \<Rightarrow> 's \<Rightarrow> bool"
  assumes refl: "R s s"
    and trans: "R s t \<Longrightarrow> R t u \<Longrightarrow> R s u"
begin

lemma respeta_ret: "respeta R (ret x)"
  by (auto simp: respeta_def ret_def refl)

lemma respeta_luego: "respeta R m \<Longrightarrow> (\<And>x. respeta R (f x)) \<Longrightarrow> respeta R (luego m f)"
  unfolding respeta_def by (blast intro: trans)

lemma respeta_eleva: "respeta R (eleva r)"
  by (cases r) (auto simp: respeta_def refl)

lemma respeta_consulta: "respeta R (consulta f)"
  by (auto simp: respeta_def refl)

lemma respeta_para_cada: "(\<And>x. respeta R (f x)) \<Longrightarrow> respeta R (para_cada f xs)"
  by (induction xs) (auto intro!: respeta_ret respeta_luego)

lemmas respeta_reglas = respeta_ret respeta_luego respeta_eleva respeta_consulta respeta_para_cada

end

end
