(* ===== verification/RocksDB.thy ===== *)
theory RocksDB
  imports Prelude
begin

text \<open>
  The path of \<open>Put\<close>, \<open>Get\<close> and \<open>Delete\<close> through the vendored RocksDB
  (\<open>lib/rocksdb-master\<close>): write batches, sequence numbers, the write-ahead log as an append
  that may fail, the memtable with its internal keys in the comparator's order, and the
  lookup that stops at the newest entry of a user key. Internal keys and entries are kept
  decoded. Table files are the contents \<open>archivos\<close> that a read falls back to.
\<close>

section \<open>Keys and their order\<close>

datatype Status =
    OK | NotFound | Corruption | NotSupported | InvalidArgument | IOError | MergeInProgress
  | Incomplete | ShutdownInProgress | TimedOut | Aborted | Busy

datatype ValueType = kTypeDeletion | kTypeValue | kTypeMerge

fun ValueType_code :: "ValueType \<Rightarrow> nat" where
  "ValueType_code kTypeDeletion = 0"
| "ValueType_code kTypeValue = 1"
| "ValueType_code kTypeMerge = 2"

definition kValueTypeForSeek :: ValueType where
  "kValueTypeForSeek = kTypeMerge"

record ParsedInternalKey =
  user_key :: string
  sequence :: nat
  vtype :: ValueType

definition Slice_compare :: "string \<Rightarrow> string \<Rightarrow> int" where
  "Slice_compare a b =
     (let r = memcmp a b (min (length a) (length b))
      in if r = 0 then (if length a < length b then - 1 else if length b < length a then 1 else 0)
         else r)"

definition PackSequenceAndType :: "nat \<Rightarrow> ValueType \<Rightarrow> nat" where
  "PackSequenceAndType seq t = seq * 256 + ValueType_code t"

definition InternalKey_compare :: "ParsedInternalKey \<Rightarrow> ParsedInternalKey \<Rightarrow> int" where
  "InternalKey_compare a b =
     (let r = Slice_compare (user_key a) (user_key b)
      in if r = 0
         then (let anum = PackSequenceAndType (sequence a) (vtype a);
                   bnum = PackSequenceAndType (sequence b) (vtype b)
               in if bnum < anum then - 1 else if anum < bnum then 1 else 0)
         else r)"

section \<open>The memtable\<close>

type_synonym entrada = "ParsedInternalKey \<times> string"

record MemTable =
  tabla :: "entrada list"
  num_entries :: nat
  num_deletes :: nat
  first_seqno :: nat

definition MemTable_vacia :: MemTable where
  "MemTable_vacia = \<lparr>tabla = [], num_entries = 0, num_deletes = 0, first_seqno = 0\<rparr>"

text \<open>The bottom level of the skip list, which links all its nodes in order.\<close>

fun SkipList_Insert :: "entrada \<Rightarrow> entrada list \<Rightarrow> entrada list" where
  "SkipList_Insert e [] = [e]"
| "SkipList_Insert e (x # xs) =
     (if InternalKey_compare (fst x) (fst e) < 0 then x # SkipList_Insert e xs else e # x # xs)"

definition FindGreaterOrEqual :: "ParsedInternalKey \<Rightarrow> entrada list \<Rightarrow> entrada list" where
  "FindGreaterOrEqual k xs = dropWhile (\<lambda>x. InternalKey_compare (fst x) k < 0) xs"

definition MemTable_Add :: "nat \<Rightarrow> ValueType \<Rightarrow> string \<Rightarrow> string \<Rightarrow> MemTable \<Rightarrow> MemTable" where
  "MemTable_Add s t key val m =
     m\<lparr>tabla := SkipList_Insert (\<lparr>user_key = key, sequence = s, vtype = t\<rparr>, val) (tabla m),
       num_entries := num_entries m + 1,
       num_deletes := (if t = kTypeDeletion then num_deletes m + 1 else num_deletes m),
       first_seqno := (if first_seqno m = 0 then s else first_seqno m)\<rparr>"

record Saver =
  saver_status :: Status
  saver_value :: string
  found_final_value :: bool

text \<open>
  The callback of a lookup, without a merge operator: it returns whether the scan goes on.
\<close>

definition SaveValue :: "string \<Rightarrow> entrada \<Rightarrow> Saver \<Rightarrow> bool \<times> Saver" where
  "SaveValue key e s =
     (if Slice_compare (user_key (fst e)) key = 0
      then (case vtype (fst e) of
              kTypeValue \<Rightarrow> (False, s\<lparr>saver_status := OK, saver_value := snd e, found_final_value := True\<rparr>)
            | kTypeDeletion \<Rightarrow> (False, s\<lparr>saver_status := NotFound, found_final_value := True\<rparr>)
            | kTypeMerge \<Rightarrow> (False, s\<lparr>saver_status := InvalidArgument, found_final_value := True\<rparr>))
      else (False, s))"

fun SkipListRep_Get :: "string \<Rightarrow> entrada list \<Rightarrow> Saver \<Rightarrow> Saver" where
  "SkipListRep_Get key [] s = s"
| "SkipListRep_Get key (e # es) s =
     (case SaveValue key e s of (sigue, s') \<Rightarrow> if sigue then SkipListRep_Get key es s' else s')"

definition MemTable_Get :: "string \<Rightarrow> nat \<Rightarrow> string \<Rightarrow> MemTable \<Rightarrow> bool \<times> string \<times> Status" where
  "MemTable_Get key snapshot val m =
     (if num_entries m = 0 then (False, val, OK)
      else
        let lkey = \<lparr>user_key = key, sequence = snapshot, vtype = kValueTypeForSeek\<rparr>;
            s = SkipListRep_Get key (FindGreaterOrEqual lkey (tabla m))
                  \<lparr>saver_status = OK, saver_value = val, found_final_value = False\<rparr>
        in (found_final_value s, saver_value s, saver_status s))"

section \<open>The database object\<close>

text \<open>
  \<open>env_ok\<close> is the environment: whether the \<open>n\<close>-th access to the disk succeeds; \<open>env_n\<close>
  counts them. \<open>bg_error\<close> is the error after which no write is accepted any more.
\<close>

record DBImpl =
  mem :: MemTable
  LastSequence :: nat
  archivos :: "string \<Rightarrow> string option"
  bg_error :: Status
  env_ok :: "nat \<Rightarrow> bool"
  env_n :: nat

datatype registro = RPut string string | RDelete string

type_synonym WriteBatch = "registro list"

definition WriteBatch_Put :: "string \<Rightarrow> string \<Rightarrow> WriteBatch \<Rightarrow> WriteBatch" where
  "WriteBatch_Put key val b = b @ [RPut key val]"

definition WriteBatch_Delete :: "string \<Rightarrow> WriteBatch \<Rightarrow> WriteBatch" where
  "WriteBatch_Delete key b = b @ [RDelete key]"

text \<open>
  \<open>WriteBatch::Iterate\<close> with the handlers of \<open>MemTableInserter\<close>, whose state is its next
  sequence number and the memtable.
\<close>

definition PutCF :: "string \<Rightarrow> string \<Rightarrow> nat \<times> MemTable \<Rightarrow> nat \<times> MemTable" where
  "PutCF key val i = (case i of (sq, m) \<Rightarrow> (sq + 1, MemTable_Add sq kTypeValue key val m))"

definition DeleteCF :: "string \<Rightarrow> nat \<times> MemTable \<Rightarrow> nat \<times> MemTable" where
  "DeleteCF key i = (case i of (sq, m) \<Rightarrow> (sq + 1, MemTable_Add sq kTypeDeletion key [] m))"

fun Iterate :: "WriteBatch \<Rightarrow> nat \<times> MemTable \<Rightarrow> nat \<times> MemTable" where
  "Iterate [] i = i"
| "Iterate (RPut key val # b) i = Iterate b (PutCF key val i)"
| "Iterate (RDelete key # b) i = Iterate b (DeleteCF key i)"

definition InsertInto :: "WriteBatch \<Rightarrow> nat \<Rightarrow> MemTable \<Rightarrow> MemTable" where
  "InsertInto b sq m = snd (Iterate b (sq, m))"

definition DBImpl_Write :: "WriteBatch \<Rightarrow> DBImpl \<Rightarrow> Status \<times> DBImpl" where
  "DBImpl_Write b db =
     (if bg_error db \<noteq> OK then (bg_error db, db)
      else
        let ok = env_ok db (env_n db); db1 = db\<lparr>env_n := env_n db + 1\<rparr>
        in if ok
           then (OK, db1\<lparr>mem := InsertInto b (LastSequence db + 1) (mem db),
                         LastSequence := LastSequence db + length b\<rparr>)
           else (IOError, db1\<lparr>bg_error := IOError\<rparr>))"

definition DB_Put :: "string \<Rightarrow> string \<Rightarrow> DBImpl \<Rightarrow> Status \<times> DBImpl" where
  "DB_Put key val db = DBImpl_Write (WriteBatch_Put key val []) db"

definition DB_Delete :: "string \<Rightarrow> DBImpl \<Rightarrow> Status \<times> DBImpl" where
  "DB_Delete key db = DBImpl_Write (WriteBatch_Delete key []) db"

text \<open>\<open>GetImpl\<close>: the status, the text left in the output argument, the database.\<close>

definition DB_Get :: "string \<Rightarrow> string \<Rightarrow> DBImpl \<Rightarrow> Status \<times> string \<times> DBImpl" where
  "DB_Get key val db =
     (case MemTable_Get key (LastSequence db) val (mem db) of
        (True, v, st) \<Rightarrow> (st, v, db)
      | (False, v, st) \<Rightarrow>
          let ok = env_ok db (env_n db); db1 = db\<lparr>env_n := env_n db + 1\<rparr>
          in if ok
             then (case archivos db key of None \<Rightarrow> (NotFound, v, db1) | Some d \<Rightarrow> (OK, d, db1))
             else (IOError, v, db1))"

section \<open>The order of internal keys\<close>

lemma Slice_compare_cons:
  "Slice_compare (x # a) (y # b) =
     (if ord x < ord y then - 1 else if ord y < ord x then 1 else Slice_compare a b)"
  by (simp add: Slice_compare_def Let_def)

lemma Slice_compare_order:
  "Slice_compare a b < 0 \<longleftrightarrow> a < b" "Slice_compare a b = 0 \<longleftrightarrow> a = b"
proof (induction a arbitrary: b)
  case Nil
  case 1 show ?case by (cases b) (simp_all add: Slice_compare_def)
  case 2 show ?case by (cases b) (simp_all add: Slice_compare_def)
next
  case (Cons x a)
  case 1 show ?case
    by (cases b) (auto simp: Slice_compare_cons less_char_def Cons.IH Slice_compare_def [of _ "[]"]
        of_char_eq_iff dest: le_antisym)
  case 2 show ?case
    by (cases b) (auto simp: Slice_compare_cons Cons.IH Slice_compare_def [of _ "[]"]
        of_char_eq_iff dest: le_antisym)
qed

text \<open>\<open>a\<close> sorts before \<open>b\<close>: smaller user key, or the same user key and a newer entry.\<close>

lemma InternalKey_compare_less:
  "InternalKey_compare a b < 0 \<longleftrightarrow> user_key a < user_key b \<or>
     user_key a = user_key b \<and>
     PackSequenceAndType (sequence b) (vtype b) < PackSequenceAndType (sequence a) (vtype a)"
  using Slice_compare_order [of "user_key a" "user_key b"]
  by (auto simp: InternalKey_compare_def Let_def)

lemma ValueType_code_le: "ValueType_code t \<le> 2"
  by (cases t) simp_all

lemma Pack_less_iff:
  "s < s' \<Longrightarrow> PackSequenceAndType s t < PackSequenceAndType s' t'"
  using ValueType_code_le [of t] by (simp add: PackSequenceAndType_def)

lemma Pack_seek: "s \<le> snap \<Longrightarrow> PackSequenceAndType s t \<le> PackSequenceAndType snap kValueTypeForSeek"
  using ValueType_code_le [of t] by (simp add: PackSequenceAndType_def kValueTypeForSeek_def)

section \<open>What the memtable holds\<close>

definition ordenada :: "entrada list \<Rightarrow> bool" where
  "ordenada xs \<longleftrightarrow> sorted_wrt (\<lambda>x y. InternalKey_compare (fst x) (fst y) < 0) xs"

definition mem_ok :: "nat \<Rightarrow> MemTable \<Rightarrow> bool" where
  "mem_ok n m \<longleftrightarrow> ordenada (tabla m) \<and> num_entries m = length (tabla m) \<and>
     (\<forall>e \<in> set (tabla m). sequence (fst e) \<le> n \<and> vtype (fst e) \<noteq> kTypeMerge)"

definition nueva :: "string \<Rightarrow> entrada list \<Rightarrow> entrada option" where
  "nueva k xs = find (\<lambda>e. user_key (fst e) = k) xs"

definition valor_de :: "entrada \<Rightarrow> string option" where
  "valor_de e = (if vtype (fst e) = kTypeValue then Some (snd e) else None)"

lemma set_SkipList_Insert: "set (SkipList_Insert e xs) = insert e (set xs)"
  by (induction xs) auto

lemma length_SkipList_Insert: "length (SkipList_Insert e xs) = Suc (length xs)"
  by (induction xs) auto

lemma ordenada_Insert:
  assumes "ordenada xs" and "\<forall>x \<in> set xs. sequence (fst x) < sequence (fst e)"
  shows "ordenada (SkipList_Insert e xs)"
  using assms
proof (induction xs)
  case (Cons x xs)
  show ?case
  proof (cases "InternalKey_compare (fst x) (fst e) < 0")
    case True
    then show ?thesis using Cons by (auto simp: ordenada_def set_SkipList_Insert)
  next
    case False
    have "PackSequenceAndType (sequence (fst x)) (vtype (fst x))
        < PackSequenceAndType (sequence (fst e)) (vtype (fst e))"
      using Cons.prems(2) by (intro Pack_less_iff) simp
    with False have ex: "InternalKey_compare (fst e) (fst x) < 0"
      by (auto simp: InternalKey_compare_less)
    have "InternalKey_compare (fst e) (fst y) < 0" if "y \<in> set xs" for y
      using ex that Cons.prems(1)
      by (auto simp: ordenada_def InternalKey_compare_less intro: order.strict_trans less_trans)
    then show ?thesis using False Cons.prems(1) ex by (simp add: ordenada_def)
  qed
qed (simp add: ordenada_def)

lemma nueva_Insert:
  assumes "ordenada xs" and "\<forall>x \<in> set xs. sequence (fst x) < sequence (fst e)"
  shows "nueva k (SkipList_Insert e xs) = (if k = user_key (fst e) then Some e else nueva k xs)"
  using assms
proof (induction xs)
  case (Cons x xs)
  have "PackSequenceAndType (sequence (fst x)) (vtype (fst x))
      < PackSequenceAndType (sequence (fst e)) (vtype (fst e))"
    using Cons.prems(2) by (intro Pack_less_iff) simp
  then have ne: "InternalKey_compare (fst x) (fst e) < 0 \<Longrightarrow> user_key (fst x) \<noteq> user_key (fst e)"
    by (auto simp: InternalKey_compare_less)
  show ?case
    using Cons ne by (auto simp: nueva_def ordenada_def)
qed (simp add: nueva_def)

lemma MemTable_Add_ok: "mem_ok n m \<Longrightarrow> n < s \<Longrightarrow> t \<noteq> kTypeMerge \<Longrightarrow> mem_ok s (MemTable_Add s t k v m)"
  by (fastforce simp: mem_ok_def MemTable_Add_def set_SkipList_Insert length_SkipList_Insert
      intro!: ordenada_Insert)

lemma nueva_Add:
  "mem_ok n m \<Longrightarrow> n < s \<Longrightarrow> nueva k' (tabla (MemTable_Add s t k v m))
     = (if k' = k then Some (\<lparr>user_key = k, sequence = s, vtype = t\<rparr>, v) else nueva k' (tabla m))"
  using nueva_Insert [of "tabla m" "(\<lparr>user_key = k, sequence = s, vtype = t\<rparr>, v)" k']
  by (fastforce simp: mem_ok_def MemTable_Add_def)

lemma nueva_mayor:
  assumes "ordenada (x # xs)" and "k < user_key (fst x)"
  shows "nueva k (x # xs) = None"
proof -
  have "k < user_key (fst y)" if "y \<in> set (x # xs)" for y
    using that assms by (auto simp: ordenada_def InternalKey_compare_less intro: order.strict_trans)
  then show ?thesis unfolding nueva_def find_None_iff by force
qed

text \<open>A lookup at a snapshot that covers the whole memtable finds the newest entry.\<close>

lemma MemTable_Get_nueva:
  assumes "mem_ok n m"
  shows "MemTable_Get k n val m =
    (case nueva k (tabla m) of
       None \<Rightarrow> (False, val, OK)
     | Some e \<Rightarrow> (case valor_de e of None \<Rightarrow> (True, val, NotFound) | Some v \<Rightarrow> (True, v, OK)))"
proof (cases "tabla m = []")
  case True
  then show ?thesis using assms by (simp add: MemTable_Get_def mem_ok_def nueva_def)
next
  case False
  let ?lk = "\<lparr>user_key = k, sequence = n, vtype = kValueTypeForSeek\<rparr>"
  let ?s = "\<lparr>saver_status = OK, saver_value = val, found_final_value = False\<rparr>"
  have *: "SkipListRep_Get k (FindGreaterOrEqual ?lk xs) ?s =
      (case nueva k xs of None \<Rightarrow> ?s
       | Some e \<Rightarrow> (case valor_de e of
            None \<Rightarrow> ?s\<lparr>saver_status := NotFound, found_final_value := True\<rparr>
          | Some v \<Rightarrow> ?s\<lparr>saver_value := v, found_final_value := True\<rparr>))"
    if "ordenada xs" "\<forall>e \<in> set xs. sequence (fst e) \<le> n \<and> vtype (fst e) \<noteq> kTypeMerge" for xs
    using that
  proof (induction xs)
    case (Cons x xs)
    have "\<not> PackSequenceAndType (sequence ?lk) (vtype ?lk)
        < PackSequenceAndType (sequence (fst x)) (vtype (fst x))"
      using Pack_seek [of "sequence (fst x)" n "vtype (fst x)"] Cons.prems(2) by simp
    then have cmp: "InternalKey_compare (fst x) ?lk < 0 \<longleftrightarrow> user_key (fst x) < k"
      by (auto simp: InternalKey_compare_less)
    consider "user_key (fst x) < k" | "user_key (fst x) = k" | "k < user_key (fst x)"
      by (meson linorder_cases)
    then show ?case
    proof cases
      case 1
      then show ?thesis
        using Cons cmp by (auto simp: FindGreaterOrEqual_def nueva_def ordenada_def)
    next
      case 2
      then show ?thesis
        using cmp Cons.prems(2)
        by (auto simp: FindGreaterOrEqual_def nueva_def SaveValue_def valor_de_def
            Slice_compare_order split: ValueType.splits)
    next
      case 3
      have "Slice_compare (user_key (fst x)) k \<noteq> 0" using 3 by (simp add: Slice_compare_order)
      then show ?thesis
        using 3 cmp nueva_mayor [OF Cons.prems(1) 3]
        by (simp add: FindGreaterOrEqual_def SaveValue_def)
    qed
  qed (simp add: FindGreaterOrEqual_def nueva_def)
  show ?thesis
    using assms False * [of "tabla m"]
    by (auto simp: MemTable_Get_def mem_ok_def Let_def split: option.splits)
qed

section \<open>The contract of a key-value store\<close>

text \<open>
  What the server relies on: a write either is applied or leaves the contents alone and
  says so; a read that says \<open>OK\<close> or \<open>NotFound\<close> tells the contents, and changes nothing.
\<close>

locale almacen =
  fixes escribir :: "'k \<Rightarrow> 'v \<Rightarrow> 's \<Rightarrow> Status \<times> 's"
    and borrar :: "'k \<Rightarrow> 's \<Rightarrow> Status \<times> 's"
    and leer :: "'k \<Rightarrow> 'v \<Rightarrow> 's \<Rightarrow> Status \<times> 'v \<times> 's"
    and contenido :: "'s \<Rightarrow> 'k \<Rightarrow> 'v option"
    and inv :: "'s \<Rightarrow> bool"
  assumes escribir_inv: "inv s \<Longrightarrow> inv (snd (escribir k v s))"
    and borrar_inv: "inv s \<Longrightarrow> inv (snd (borrar k s))"
    and leer_inv: "inv s \<Longrightarrow> inv (snd (snd (leer k v s)))"
    and escribir_contenido: "inv s \<Longrightarrow> contenido (snd (escribir k v s))
      = (if fst (escribir k v s) = OK then (contenido s)(k \<mapsto> v) else contenido s)"
    and borrar_contenido: "inv s \<Longrightarrow> contenido (snd (borrar k s))
      = (if fst (borrar k s) = OK then (contenido s)(k := None) else contenido s)"
    and leer_contenido: "inv s \<Longrightarrow> contenido (snd (snd (leer k v s))) = contenido s"
    and leer_OK: "inv s \<Longrightarrow> leer k v0 s = (OK, v, s') \<Longrightarrow> contenido s k = Some v"
    and leer_NotFound: "inv s \<Longrightarrow> leer k v0 s = (NotFound, v, s') \<Longrightarrow> contenido s k = None"
begin

text \<open>A read after a successful write of the same key, whatever was read in between.\<close>

lemma leer_escribir:
  assumes "inv s" and "escribir k v s = (OK, s1)" and "leer k' v1 s1 = (st1, v1', s2)"
    and "leer k v0 s2 = (OK, v', s3)"
  shows "v' = v"
proof -
  have i1: "inv s1" using escribir_inv [OF assms(1), of k v] assms(2) by simp
  have i2: "inv s2" using leer_inv [OF i1, of k' v1] assms(3) by simp
  have "contenido s2 = contenido s1" using leer_contenido [OF i1, of k' v1] assms(3) by simp
  moreover have "contenido s1 k = Some v" using escribir_contenido [OF assms(1), of k v] assms(2) by simp
  ultimately show ?thesis using leer_OK [OF i2 assms(4)] by simp
qed

lemma leer_borrado:
  assumes "inv s" and "borrar k s = (OK, s1)" and "leer k v0 s1 = (st, v, s2)"
  shows "st \<noteq> OK"
proof
  assume "st = OK"
  have i1: "inv s1" using borrar_inv [OF assms(1), of k] assms(2) by simp
  have "contenido s1 k = None" using borrar_contenido [OF assms(1), of k] assms(2) by simp
  then show False using leer_OK [OF i1] assms(3) \<open>st = OK\<close> by fastforce
qed

end

section \<open>The database implements the contract\<close>

definition contenido :: "DBImpl \<Rightarrow> string \<Rightarrow> string option" where
  "contenido db k = (case nueva k (tabla (mem db)) of None \<Rightarrow> archivos db k | Some e \<Rightarrow> valor_de e)"

definition rocksdb_ok :: "DBImpl \<Rightarrow> bool" where
  "rocksdb_ok db \<longleftrightarrow> mem_ok (LastSequence db) (mem db)"

fun aplicar :: "registro \<Rightarrow> (string \<Rightarrow> string option) \<Rightarrow> string \<Rightarrow> string option" where
  "aplicar (RPut k v) m = m(k \<mapsto> v)"
| "aplicar (RDelete k) m = m(k := None)"

lemma InsertInto_spec:
  assumes "mem_ok n m"
  shows "mem_ok (n + length b) (InsertInto b (n + 1) m) \<and>
    (\<lambda>k. case nueva k (tabla (InsertInto b (n + 1) m)) of None \<Rightarrow> f k | Some e \<Rightarrow> valor_de e)
      = fold aplicar b (\<lambda>k. case nueva k (tabla m) of None \<Rightarrow> f k | Some e \<Rightarrow> valor_de e)"
  using assms
proof (induction b arbitrary: n m)
  case (Cons r b)
  define t where "t = (case r of RPut _ _ \<Rightarrow> kTypeValue | RDelete _ \<Rightarrow> kTypeDeletion)"
  define k where "k = (case r of RPut k _ \<Rightarrow> k | RDelete k \<Rightarrow> k)"
  define v where "v = (case r of RPut _ v \<Rightarrow> v | RDelete _ \<Rightarrow> [])"
  let ?m = "MemTable_Add (n + 1) t k v m"
  have step: "InsertInto (r # b) (n + 1) m = InsertInto b (n + 1 + 1) ?m"
    by (cases r) (simp_all add: t_def k_def v_def InsertInto_def PutCF_def DeleteCF_def)
  have ok: "mem_ok (n + 1) ?m"
    by (rule MemTable_Add_ok [OF Cons.prems]) (auto simp: t_def split: registro.splits)
  have "(\<lambda>k'. case nueva k' (tabla ?m) of None \<Rightarrow> f k' | Some e \<Rightarrow> valor_de e)
      = aplicar r (\<lambda>k'. case nueva k' (tabla m) of None \<Rightarrow> f k' | Some e \<Rightarrow> valor_de e)"
    using nueva_Add [OF Cons.prems, of "n + 1"]
    by (cases r) (auto simp: fun_eq_iff valor_de_def t_def k_def v_def)
  then show ?case using Cons.IH [OF ok] by (simp add: step [simplified])
qed (simp add: InsertInto_def)

lemma DBImpl_Write_spec:
  assumes "rocksdb_ok db" and "DBImpl_Write b db = (st, db')"
  shows "rocksdb_ok db' \<and> contenido db' = (if st = OK then fold aplicar b (contenido db) else contenido db)"
  using assms InsertInto_spec [of "LastSequence db" "mem db" b "archivos db"]
  by (auto simp: DBImpl_Write_def rocksdb_ok_def contenido_def [abs_def] Let_def
      split: if_splits cong: option.case_cong)

lemma DB_Get_spec:
  assumes "rocksdb_ok db" and "DB_Get k v0 db = (st, v, db')"
  shows "rocksdb_ok db' \<and> contenido db' = contenido db \<and>
    (st = OK \<longrightarrow> contenido db k = Some v) \<and> (st = NotFound \<longrightarrow> contenido db k = None) \<and>
    (st \<noteq> OK \<longrightarrow> v = v0)"
  using assms MemTable_Get_nueva [of "LastSequence db" "mem db" k v0]
  by (auto simp: DB_Get_def rocksdb_ok_def contenido_def [abs_def] Let_def
      split: option.splits if_splits cong: option.case_cong)

interpretation rocks: almacen DB_Put DB_Delete DB_Get contenido rocksdb_ok
proof unfold_locales
  fix s k and v :: string
  assume s: "rocksdb_ok s"
  show "rocksdb_ok (snd (DB_Put k v s))"
    using DBImpl_Write_spec [OF s] by (metis DB_Put_def prod.collapse)
  show "rocksdb_ok (snd (DB_Delete k s))"
    using DBImpl_Write_spec [OF s] by (metis DB_Delete_def prod.collapse)
  show "rocksdb_ok (snd (snd (DB_Get k v s)))"
    using DB_Get_spec [OF s] by (metis prod.collapse)
  show "contenido (snd (DB_Put k v s)) = (if fst (DB_Put k v s) = OK then (contenido s)(k \<mapsto> v) else contenido s)"
    using DBImpl_Write_spec [OF s, of "[RPut k v]" "fst (DB_Put k v s)" "snd (DB_Put k v s)"]
    by (simp add: DB_Put_def WriteBatch_Put_def)
  show "contenido (snd (DB_Delete k s)) = (if fst (DB_Delete k s) = OK then (contenido s)(k := None) else contenido s)"
    using DBImpl_Write_spec [OF s, of "[RDelete k]" "fst (DB_Delete k s)" "snd (DB_Delete k s)"]
    by (simp add: DB_Delete_def WriteBatch_Delete_def)
  show "contenido (snd (snd (DB_Get k v s))) = contenido s"
    using DB_Get_spec [OF s] by (metis prod.collapse)
qed (use DB_Get_spec in blast)+

text \<open>A database that has just been created.\<close>

definition DBImpl_nueva :: DBImpl where
  "DBImpl_nueva = \<lparr>mem = MemTable_vacia, LastSequence = 0, archivos = (\<lambda>k. None), bg_error = OK,
     env_ok = (\<lambda>n. True), env_n = 0\<rparr>"

section \<open>A database whose disk never fails\<close>

definition sano :: "DBImpl \<Rightarrow> bool" where
  "sano db \<longleftrightarrow> rocksdb_ok db \<and> bg_error db = OK \<and> (\<forall>n. env_ok db n)"

lemma DB_Put_sano:
  assumes "sano db"
  obtains db' where "DB_Put k v db = (OK, db')" and "sano db'"
    and "contenido db' = (contenido db)(k \<mapsto> v)"
proof
  have st: "DB_Put k v db = (OK, snd (DB_Put k v db))"
    using assms by (simp add: DB_Put_def DBImpl_Write_def sano_def)
  then show "DB_Put k v db = (OK, snd (DB_Put k v db))" .
  show "sano (snd (DB_Put k v db))"
    using assms rocks.escribir_inv [of db k v]
    by (simp add: sano_def DB_Put_def DBImpl_Write_def)
  show "contenido (snd (DB_Put k v db)) = (contenido db)(k \<mapsto> v)"
    using rocks.escribir_contenido [of db k v] assms st by (metis fst_conv sano_def)
qed

lemma DB_Get_sano:
  assumes "sano db"
  obtains db' where "sano db'" and "contenido db' = contenido db"
    and "DB_Get k v0 db = (case contenido db k of None \<Rightarrow> (NotFound, v0, db') | Some v \<Rightarrow> (OK, v, db'))"
proof
  let ?r = "DB_Get k v0 db"
  have ok: "rocksdb_ok db" using assms by (simp add: sano_def)
  obtain st v db' where r: "?r = (st, v, db')" by (metis prod_cases3)
  note sp = DB_Get_spec [OF ok r]
  have "st = OK \<or> st = NotFound"
    using assms r MemTable_Get_nueva [of "LastSequence db" "mem db" k v0]
    by (auto simp: sano_def rocksdb_ok_def DB_Get_def Let_def split: option.splits)
  then show "?r = (case contenido db k of None \<Rightarrow> (NotFound, v0, snd (snd ?r)) | Some v \<Rightarrow> (OK, v, snd (snd ?r)))"
    using sp r by auto
  show "contenido (snd (snd ?r)) = contenido db" using sp r by simp
  have "bg_error (snd (snd ?r)) = bg_error db" and "env_ok (snd (snd ?r)) = env_ok db"
    by (auto simp: DB_Get_def Let_def split: prod.splits bool.splits option.splits)
  then show "sano (snd (snd ?r))" using sp r assms by (simp add: sano_def)
qed

lemma sano_nueva [simp]: "sano DBImpl_nueva"
  by (simp add: sano_def rocksdb_ok_def mem_ok_def ordenada_def DBImpl_nueva_def MemTable_vacia_def)

lemma contenido_nueva [simp]: "contenido DBImpl_nueva = Map.empty"
  by (simp add: contenido_def fun_eq_iff nueva_def DBImpl_nueva_def MemTable_vacia_def)

section \<open>Properties\<close>

fun hacer_todos :: "registro list \<Rightarrow> DBImpl \<Rightarrow> Status list \<times> DBImpl" where
  "hacer_todos [] db = ([], db)"
| "hacer_todos (r # rs) db =
     (case (case r of RPut k v \<Rightarrow> DB_Put k v db | RDelete k \<Rightarrow> DB_Delete k db) of (st, db1) \<Rightarrow>
        (case hacer_todos rs db1 of (sts, db2) \<Rightarrow> (st # sts, db2)))"

lemma hacer_todos_contenido:
  assumes "rocksdb_ok db" and "hacer_todos rs db = (sts, db')"
  shows "rocksdb_ok db' \<and> contenido db' =
    fold aplicar (map fst (filter (\<lambda>x. snd x = OK) (zip rs sts))) (contenido db)"
  using assms
proof (induction rs arbitrary: db sts)
  case (Cons r rs)
  obtain st db1 where r: "(case r of RPut k v \<Rightarrow> DB_Put k v db | RDelete k \<Rightarrow> DB_Delete k db) = (st, db1)"
    by (metis prod.exhaust)
  have "DBImpl_Write [r] db = (st, db1)"
    using r by (cases r) (simp_all add: DB_Put_def DB_Delete_def WriteBatch_Put_def WriteBatch_Delete_def)
  from DBImpl_Write_spec [OF Cons.prems(1) this] show ?case
    using Cons.IH [of db1] Cons.prems(2) r by (auto split: prod.splits)
qed simp



end
