(* ===== verification/StringUtil.thy ===== *)
theory StringUtil
  imports Prelude
begin

text \<open>
  The string helpers of \<open>Utilidades/StringUtil.cpp\<close>: case folding, splitting at a
  delimiter by repeated \<open>getline\<close>, booleans as text, membership in a vector, and
  the copy into a fresh C string. Joining with a separator is the loop the entities
  write before storing a list (\<open>Entidades/Conversacion.cpp\<close>); \<open>split\<close> is its inverse
  on the lists that can be stored.
\<close>

section \<open>Case folding\<close>

text \<open>The loops stop at the first NUL and the result is read back as a C string.\<close>

definition toLower :: "string \<Rightarrow> string" where
  "toLower str = map tolower (takeWhile (\<lambda>c. c \<noteq> NUL) str)"

definition toUpper :: "string \<Rightarrow> string" where
  "toUpper str = map toupper (takeWhile (\<lambda>c. c \<noteq> NUL) str)"

section \<open>Splitting\<close>

text \<open>
  \<open>std::getline(ss, item, delim)\<close> on a string stream: it fails when nothing is left,
  otherwise it extracts up to the delimiter and discards the delimiter.
\<close>

definition getline :: "string \<Rightarrow> char \<Rightarrow> (string \<times> string) option" where
  "getline ss delim =
     (if ss = [] then None
      else Some (takeWhile (\<lambda>c. c \<noteq> delim) ss, drop 1 (dropWhile (\<lambda>c. c \<noteq> delim) ss)))"

lemma getline_less: "getline ss delim = Some (item, ss') \<Longrightarrow> length ss' < length ss"
  by (auto simp: getline_def length_dropWhile_less split: if_splits)

function split_elems :: "string \<Rightarrow> char \<Rightarrow> string list \<Rightarrow> string list" where
  "split_elems ss delim elems =
     (case getline ss delim of
        None \<Rightarrow> elems
      | Some (item, ss') \<Rightarrow> split_elems ss' delim (elems @ [item]))"
  by pat_completeness auto
termination
  by (relation "measure (\<lambda>(ss, _, _). length ss)") (auto dest: getline_less)

declare split_elems.simps [simp del]

definition split :: "string \<Rightarrow> char \<Rightarrow> string list" where
  "split s delim = split_elems s delim []"

section \<open>Booleans, vectors, C strings\<close>

definition toBoolean :: "string \<Rightarrow> bool" where
  "toBoolean v \<longleftrightarrow> v = ''true''"

definition toString :: "bool \<Rightarrow> string" where
  "toString v = (if v then ''true'' else ''false'')"

definition vectorContiene :: "string list \<Rightarrow> string \<Rightarrow> bool" where
  "vectorContiene v valor \<longleftrightarrow> List.member v valor"

definition str2Char :: "string \<Rightarrow> string" where
  "str2Char s = c_str s"

section \<open>Reading an integer from a stream\<close>

text \<open>
  \<open>istringstream >> int\<close>: white space is skipped; when nothing is left the variable
  keeps its indeterminate value (\<open>None\<close>); without a digit the result is 0; a value
  outside the range of \<open>int\<close> is clamped to its end.
\<close>

fun digitos_a_nat :: "nat \<Rightarrow> string \<Rightarrow> nat" where
  "digitos_a_nat n [] = n"
| "digitos_a_nat n (c # cs) = (if isdigit c then digitos_a_nat (10 * n + (ord c - 48)) cs else n)"

definition str2int :: "string \<Rightarrow> int option" where
  "str2int s =
     (case dropWhile isspace (c_str s) of
        [] \<Rightarrow> None
      | c # cs \<Rightarrow>
          (let neg = (c = CHR ''-'');
               ds = (if c = CHR ''-'' \<or> c = CHR ''+'' then cs else c # cs);
               n = int (digitos_a_nat 0 ds)
           in Some (if neg then max (- 2147483648) (- n) else min 2147483647 n)))"

section \<open>Lemmas\<close>

lemma split_elems_append:
  "split_elems ss d (xs @ ys) = xs @ split_elems ss d ys"
proof (induction ss d ys rule: split_elems.induct)
  case (1 ss d ys)
  show ?case
  proof (cases "getline ss d")
    case None
    then show ?thesis by (simp add: split_elems.simps)
  next
    case (Some p)
    with "1.IH" show ?thesis
      by (cases p) (simp add: split_elems.simps [of ss])
  qed
qed

lemma split_Nil [simp]: "split [] d = []"
  by (simp add: split_def split_elems.simps getline_def)

lemma split_unfold:
  "ss \<noteq> [] \<Longrightarrow> split ss d =
     takeWhile (\<lambda>c. c \<noteq> d) ss # split (drop 1 (dropWhile (\<lambda>c. c \<noteq> d) ss)) d"
  using split_elems_append [of _ d "[takeWhile (\<lambda>c. c \<noteq> d) ss]" "[]"]
  by (simp add: split_def split_elems.simps [of ss] getline_def)

lemma split_append_delim:
  "d \<notin> set x \<Longrightarrow> split (x @ d # y) d = x # split y d"
  by (subst split_unfold) auto

lemma split_single: "d \<notin> set x \<Longrightarrow> x \<noteq> [] \<Longrightarrow> split x d = [x]"
  by (subst split_unfold) auto

lemma set_split_no_delim: "x \<in> set (split s d) \<Longrightarrow> d \<notin> set x"
proof (induction "length s" arbitrary: s rule: less_induct)
  case less
  show ?case
  proof (cases "s = []")
    case False
    let ?r = "drop 1 (dropWhile (\<lambda>c. c \<noteq> d) s)"
    have "x = takeWhile (\<lambda>c. c \<noteq> d) s \<or> x \<in> set (split ?r d)"
      using less.prems split_unfold [OF False, of d] by simp
    moreover have "length ?r < length s"
      using False by (simp add: length_dropWhile_less)
    ultimately show ?thesis
      using less.hyps [of ?r] by (auto dest: set_takeWhileD)
  qed (use less.prems in simp)
qed

lemma split_append: "split (x @ d # y) d = split (x @ [d]) d @ split y d"
proof (induction "length x" arbitrary: x rule: less_induct)
  case less
  show ?case
  proof (cases "d \<in> set x")
    case True
    then obtain a b where x: "x = a @ d # b" "d \<notin> set a" by (meson split_list_first)
    then show ?thesis using less [of b] by (simp add: split_append_delim)
  qed (simp add: split_append_delim)
qed

lemma split_snoc: "x \<noteq> [] \<Longrightarrow> last x \<noteq> d \<Longrightarrow> split (x @ [d]) d = split x d"
proof (induction "length x" arbitrary: x rule: less_induct)
  case less
  show ?case
  proof (cases "d \<in> set x")
    case True
    then obtain a b where x: "x = a @ d # b" "d \<notin> set a" by (meson split_list_first)
    then show ?thesis using less by (cases "b = []") (simp_all add: split_append_delim)
  next
    case False
    then show ?thesis using less.prems by (simp add: split_append_delim split_single)
  qed
qed

text \<open>Appending an element to a list that is kept as a text.\<close>

lemma split_agrega:
  "x \<noteq> [] \<Longrightarrow> last x \<noteq> d \<Longrightarrow> y \<noteq> [] \<Longrightarrow> d \<notin> set y \<Longrightarrow> split (x @ d # y) d = split x d @ [y]"
  by (subst split_append) (simp add: split_snoc split_single)

lemma toBoolean_toString [simp]: "toBoolean (toString b) = b"
  by (simp add: toBoolean_def toString_def)

lemma vectorContiene_iff [simp]: "vectorContiene v x \<longleftrightarrow> x \<in> set v"
  by (simp add: vectorContiene_def)

section \<open>Joining with a separator\<close>

text \<open>
  The loop the entities use to store a vector in one string: the separator is put
  before an element only when the text so far is not empty.
\<close>

fun unir_desde :: "string \<Rightarrow> char \<Rightarrow> string list \<Rightarrow> string" where
  "unir_desde acc d [] = acc"
| "unir_desde acc d (x # xs) = unir_desde ((if acc \<noteq> [] then acc @ [d] else acc) @ x) d xs"

abbreviation unir :: "char \<Rightarrow> string list \<Rightarrow> string" where
  "unir d xs \<equiv> unir_desde [] d xs"

lemma unir_desde_eq:
  "acc \<noteq> [] \<Longrightarrow> unir_desde acc d xs = acc @ concat (map (\<lambda>x. d # x) xs)"
  by (induction acc d xs rule: unir_desde.induct) auto

lemma split_concat_delim:
  assumes "\<And>x. x \<in> set (y # xs) \<Longrightarrow> d \<notin> set x \<and> x \<noteq> []"
  shows "split (y @ concat (map (\<lambda>x. d # x) xs)) d = y # xs"
  using assms
proof (induction xs arbitrary: y)
  case Nil
  then show ?case by (simp add: split_single)
next
  case (Cons x xs)
  have "split (y @ d # (x @ concat (map (\<lambda>x. d # x) xs))) d
          = y # split (x @ concat (map (\<lambda>x. d # x) xs)) d"
    using Cons.prems by (intro split_append_delim) simp
  then show ?case using Cons.IH [of x] Cons.prems by simp
qed

lemma split_unir:
  assumes "\<And>x. x \<in> set xs \<Longrightarrow> d \<notin> set x \<and> x \<noteq> []"
  shows "split (unir d xs) d = xs"
proof (cases xs)
  case (Cons y ys)
  then have "unir d xs = y @ concat (map (\<lambda>x. d # x) ys)"
    using assms [of y] by (simp add: unir_desde_eq)
  then show ?thesis
    using Cons assms split_concat_delim [of y ys d] by simp
qed simp

section \<open>Properties\<close>

text \<open>
  C19: \<open>StringUtil::split\<close> undoes the join with which conversations are stored, as long as no
  part is empty or contains the separator.
\<close>
theorem split_undoes_join:
  assumes "\<forall>x \<in> set xs. d \<notin> set x \<and> x \<noteq> []"
  shows "split (unir d xs) d = xs"
  using assms by (intro split_unir) blast

theorem split_undoes_join_witness:
  "split (unir CHR ''#'' [''ana'', ''beto'', ''caro'']) CHR ''#'' = [''ana'', ''beto'', ''caro'']"
  using split_undoes_join [of "[''ana'', ''beto'', ''caro'']" "CHR ''#''"] by simp

end
