(* ===== verification/Doble.thy ===== *)
theory Doble
  imports Prelude
begin

text \<open>
  IEEE-754 binary64 values as the JSON library uses them: the representation, rounding of
  an exact ratio to the nearest value (ties to even), \<open>sscanf("%lf")\<close> on a decimal
  literal and \<open>printf("%.17g")\<close>. These are operations of the C library, modelled by exact
  integer arithmetic followed by one rounding.
\<close>

section \<open>Representation\<close>

text \<open>
  \<open>Fin neg m e\<close> is \<open>(-1) ^ neg * m * 2 ^ e\<close>; rounding only builds values with
  \<open>m < 2 ^ 53\<close>, \<open>- 1074 \<le> e \<le> 971\<close>, and \<open>2 ^ 52 \<le> m\<close> unless \<open>e = - 1074\<close>.
\<close>

datatype doble = NaN | Infinito bool | Fin bool nat int

definition doble_ok :: "doble \<Rightarrow> bool" where
  "doble_ok d = (case d of
      Fin neg m e \<Rightarrow> m < 2 ^ 53 \<and> - 1074 \<le> e \<and> e \<le> 971 \<and> (2 ^ 52 \<le> m \<or> e = - 1074)
    | _ \<Rightarrow> True)"

section \<open>Rounding\<close>

definition redondear_par :: "nat \<Rightarrow> nat \<Rightarrow> nat" where
  "redondear_par num den =
     (let q = num div den; r = num mod den in
      if 2 * r < den then q
      else if den < 2 * r then q + 1
      else if even q then q else q + 1)"

fun bits_de :: "nat \<Rightarrow> nat" where
  "bits_de n = (if n = 0 then 0 else 1 + bits_de (n div 2))"

declare bits_de.simps [simp del]

text \<open>The exponent \<open>k\<close> with \<open>2 ^ k \<le> num / den < 2 ^ (k + 1)\<close>.\<close>

definition exponente2 :: "nat \<Rightarrow> nat \<Rightarrow> int" where
  "exponente2 num den =
     (let k = int (bits_de num) - int (bits_de den) in
      if (if 0 \<le> k then den * 2 ^ nat k \<le> num else den \<le> num * 2 ^ nat (- k)) then k else k - 1)"

definition redondear :: "bool \<Rightarrow> nat \<Rightarrow> nat \<Rightarrow> doble" where
  "redondear neg num den =
     (if num = 0 then Fin neg 0 (- 1074)
      else
        let e = max (exponente2 num den - 52) (- 1074);
            m = (if 0 \<le> e then redondear_par num (den * 2 ^ nat e)
                 else redondear_par (num * 2 ^ nat (- e)) den);
            m' = (if m = 2 ^ 53 then 2 ^ 52 else m);
            e' = (if m = 2 ^ 53 then e + 1 else e)
        in if 971 < e' then Infinito neg else Fin neg m' e')"

definition decimal_a_doble :: "bool \<Rightarrow> nat \<Rightarrow> int \<Rightarrow> doble" where
  "decimal_a_doble neg d e10 =
     (if 0 \<le> e10 then redondear neg (d * 10 ^ nat e10) 1
      else redondear neg d (10 ^ nat (- e10)))"

section \<open>Reading a decimal literal\<close>

definition valor_digitos :: "string \<Rightarrow> nat" where
  "valor_digitos ds = foldl (\<lambda>n c. 10 * n + (ord c - 48)) 0 ds"

definition leer_signo :: "string \<Rightarrow> bool \<times> string" where
  "leer_signo s = (case s of
      [] \<Rightarrow> (False, [])
    | c # cs \<Rightarrow> if c = CHR ''-'' then (True, cs) else if c = CHR ''+'' then (False, cs) else (False, s))"

text \<open>
  \<open>sscanf(s, "%lf", &v)\<close> for an \<open>s\<close> that starts with a sign or a digit and holds no
  hexadecimal prefix. An exponent marker without digits is a matching failure, as the
  standard has it.
\<close>

definition sscanf_lf :: "string \<Rightarrow> doble option" where
  "sscanf_lf s =
     (let (neg, s1) = leer_signo s;
          ip = takeWhile isdigit s1;
          s2 = dropWhile isdigit s1;
          con_punto = (s2 \<noteq> [] \<and> hd s2 = CHR ''.'');
          fp = (if con_punto then takeWhile isdigit (tl s2) else []);
          s3 = (if con_punto then dropWhile isdigit (tl s2) else s2)
      in if ip @ fp = [] then None
         else if s3 \<noteq> [] \<and> (hd s3 = CHR ''e'' \<or> hd s3 = CHR ''E'')
         then
           (let (eneg, s4) = leer_signo (tl s3);
                ed = takeWhile isdigit s4
            in if ed = [] then None
               else Some (decimal_a_doble neg (valor_digitos (ip @ fp))
                 ((if eneg then - int (valor_digitos ed) else int (valor_digitos ed)) - int (length fp))))
         else Some (decimal_a_doble neg (valor_digitos (ip @ fp)) (- int (length fp))))"

section \<open>Decimal digits of a natural number\<close>

fun digitos :: "nat \<Rightarrow> string" where
  "digitos n = (if n < 10 then [char_of (48 + n)] else digitos (n div 10) @ [char_of (48 + n mod 10)])"

declare digitos.simps [simp del]

section \<open>Printing with seventeen significant digits\<close>

text \<open>The decimal exponent of \<open>num / den\<close>, searched upwards and downwards.\<close>

function exponente10_arriba :: "nat \<Rightarrow> nat \<Rightarrow> nat" where
  "exponente10_arriba num den =
     (if den = 0 \<or> num < 10 * den then 0 else 1 + exponente10_arriba num (10 * den))"
  by pat_completeness auto
termination
  by (relation "measure (\<lambda>(num, den). num - den)") auto

function exponente10_abajo :: "nat \<Rightarrow> nat \<Rightarrow> nat" where
  "exponente10_abajo num den =
     (if num = 0 \<or> den \<le> num then 0 else 1 + exponente10_abajo (10 * num) den)"
  by pat_completeness auto
termination
  by (relation "measure (\<lambda>(num, den). den - num)") auto

declare exponente10_arriba.simps [simp del] exponente10_abajo.simps [simp del]

definition exponente10 :: "nat \<Rightarrow> nat \<Rightarrow> int" where
  "exponente10 num den =
     (if den \<le> num then int (exponente10_arriba num den) else - int (exponente10_abajo num den))"

definition quitar_ceros :: "string \<Rightarrow> string" where
  "quitar_ceros s = rev (dropWhile (\<lambda>c. c = CHR ''0'') (rev s))"

definition con_fraccion :: "string \<Rightarrow> string \<Rightarrow> string" where
  "con_fraccion ip fp = (if fp = [] then ip else ip @ ''.'' @ fp)"

definition printf_17g :: "doble \<Rightarrow> string" where
  "printf_17g d = (case d of
      NaN \<Rightarrow> ''nan''
    | Infinito neg \<Rightarrow> (if neg then ''-inf'' else ''inf'')
    | Fin neg m e \<Rightarrow>
        (let sgn = (if neg then ''-'' else []);
             num = (if 0 \<le> e then m * 2 ^ nat e else m);
             den = (if 0 \<le> e then 1 else 2 ^ nat (- e))
         in if m = 0 then sgn @ ''0''
            else
              let x0 = exponente10 num den;
                  k = 16 - x0;
                  q = (if 0 \<le> k then redondear_par (num * 10 ^ nat k) den
                       else redondear_par num (den * 10 ^ nat (- k)));
                  x = (if q = 10 ^ 17 then x0 + 1 else x0);
                  ds = digitos (if q = 10 ^ 17 then 10 ^ 16 else q)
              in if x < - 4 \<or> 17 \<le> x
                 then
                   (let xe = digitos (nat \<bar>x\<bar>);
                        xs = (if length xe < 2 then ''0'' @ xe else xe)
                    in sgn @ con_fraccion (take 1 ds) (quitar_ceros (drop 1 ds)) @ ''e'' @
                       (if x < 0 then ''-'' else ''+'') @ xs)
                 else if x < 0
                 then sgn @ con_fraccion ''0'' (replicate (nat (- x) - 1) CHR ''0'' @ quitar_ceros ds)
                 else sgn @ con_fraccion (take (nat x + 1) ds) (quitar_ceros (drop (nat x + 1) ds))))"

end
