(* ===== verification/Json_Value.thy ===== *)
theory Json_Value
  imports StringUtil Doble
begin

text \<open>
  \<open>Json::Value\<close> of \<open>json/json.cpp\<close> as far as the server uses it: the tagged union, member
  and index access with the insertions of the non-const \<open>operator[]\<close>, and the conversions
  to text. The members of an object are the entries of a \<open>std::map\<close> ordered by
  \<open>CZString::operator<\<close>, kept as an association list in that order. An array is the dense
  list of its elements; the entries a sparse \<open>std::map\<close> would lack read as null, which is
  the padding used here. Comments and source offsets of a value are not modelled: no value
  that was read from text is ever written back.
\<close>

section \<open>Values\<close>

datatype json =
    JNull
  | JInt int
  | JUInt nat
  | JReal doble
  | JString string
  | JBool bool
  | JArray "json list"
  | JObject "(string \<times> json) list"

text \<open>The ranges of \<open>LargestInt\<close> and \<open>LargestUInt\<close>.\<close>

definition minLargestInt :: int where "minLargestInt = - (2 ^ 63)"
definition maxLargestInt :: int where "maxLargestInt = 2 ^ 63 - 1"
definition maxLargestUInt :: nat where "maxLargestUInt = 2 ^ 64 - 1"
definition maxInt :: nat where "maxInt = 2 ^ 31 - 1"

section \<open>Member names\<close>

definition CZString_less :: "string \<Rightarrow> string \<Rightarrow> bool" where
  "CZString_less a b =
     (let this_len = length a; other_len = length b;
          min_len = min this_len other_len;
          comp = memcmp a b min_len
      in if comp < 0 then True else if comp > 0 then False else this_len < other_len)"

definition CZString_eq :: "string \<Rightarrow> string \<Rightarrow> bool" where
  "CZString_eq a b = (if length a \<noteq> length b then False else memcmp a b (length a) = 0)"

text \<open>The map of an object: \<open>find\<close>, and \<open>lower_bound\<close> with insertion or overwriting.\<close>

fun obj_find :: "string \<Rightarrow> (string \<times> json) list \<Rightarrow> json option" where
  "obj_find k [] = None"
| "obj_find k ((k', v) # ms) =
     (if CZString_less k' k then obj_find k ms
      else if CZString_eq k' k then Some v else None)"

fun obj_ins :: "string \<Rightarrow> json \<Rightarrow> (string \<times> json) list \<Rightarrow> (string \<times> json) list" where
  "obj_ins k v [] = [(k, v)]"
| "obj_ins k v ((k', v') # ms) =
     (if CZString_less k' k then (k', v') # obj_ins k v ms
      else if CZString_eq k' k then (k', v) # ms
      else (k, v) # (k', v') # ms)"

section \<open>Access\<close>

definition json_size :: "json \<Rightarrow> nat" where
  "json_size j = (case j of JArray vs \<Rightarrow> length vs | JObject ms \<Rightarrow> length ms | _ \<Rightarrow> 0)"

definition json_find :: "json \<Rightarrow> string \<Rightarrow> json option res" where
  "json_find j key = (case j of
      JNull \<Rightarrow> Inr None
    | JObject ms \<Rightarrow> Inr (obj_find key ms)
    | _ \<Rightarrow> Inl (LogicError ''in Json::Value::find(key, end, found): requires objectValue or nullValue''))"

definition json_get :: "json \<Rightarrow> string \<Rightarrow> json \<Rightarrow> json res" where
  "json_get j key defaultValue =
     bnd (json_find j key) (\<lambda>found. Inr (case found of None \<Rightarrow> defaultValue | Some v \<Rightarrow> v))"

text \<open>The constant \<open>operator[]\<close>: a missing member or element reads as null.\<close>

definition json_at_key :: "json \<Rightarrow> string \<Rightarrow> json res" where
  "json_at_key j key = json_get j key JNull"

definition json_at :: "json \<Rightarrow> nat \<Rightarrow> json res" where
  "json_at j index = (case j of
      JNull \<Rightarrow> Inr JNull
    | JArray vs \<Rightarrow> Inr (if index < length vs then vs ! index else JNull)
    | _ \<Rightarrow> Inl (LogicError ''in Json::Value::operator[](ArrayIndex)const: requires arrayValue''))"

definition json_get_index :: "json \<Rightarrow> nat \<Rightarrow> json \<Rightarrow> json res" where
  "json_get_index j index defaultValue = (case j of
      JNull \<Rightarrow> Inr defaultValue
    | JArray vs \<Rightarrow> Inr (if index < length vs then vs ! index else defaultValue)
    | _ \<Rightarrow> Inl (LogicError ''in Json::Value::operator[](ArrayIndex)const: requires arrayValue''))"

text \<open>
  The non-const \<open>operator[]\<close> returns a reference into the value: null becomes an empty
  object or array, a missing entry is created as null, and what is then done through the
  reference is the argument \<open>f\<close>.
\<close>

definition resolveReference :: "string \<Rightarrow> (json \<Rightarrow> json res) \<Rightarrow> json \<Rightarrow> json res" where
  "resolveReference key f j = (case j of
      JNull \<Rightarrow> bnd (f JNull) (\<lambda>v. Inr (JObject [(key, v)]))
    | JObject ms \<Rightarrow>
        bnd (f (case obj_find key ms of None \<Rightarrow> JNull | Some v \<Rightarrow> v)) (\<lambda>v. Inr (JObject (obj_ins key v ms)))
    | _ \<Rightarrow> Inl (LogicError ''in Json::Value::resolveReference(key, end): requires objectValue''))"

definition resolveIndex :: "nat \<Rightarrow> (json \<Rightarrow> json res) \<Rightarrow> json \<Rightarrow> json res" where
  "resolveIndex index f j =
     (let en = (\<lambda>vs. let vs' = vs @ replicate (Suc index - length vs) JNull in
                bnd (f (vs' ! index)) (\<lambda>v. Inr (JArray (vs'[index := v]))))
      in case j of
           JNull \<Rightarrow> en []
         | JArray vs \<Rightarrow> en vs
         | _ \<Rightarrow> Inl (LogicError ''in Json::Value::operator[](ArrayIndex): requires arrayValue''))"

text \<open>\<open>j[key] = v\<close>\<close>

definition json_set :: "string \<Rightarrow> json \<Rightarrow> json \<Rightarrow> json res" where
  "json_set key v j = resolveReference key (\<lambda>_. Inr v) j"

text \<open>A sequence of assignments \<open>j[key] = v\<close>, in the order they are written.\<close>

fun json_sets :: "(string \<times> json) list \<Rightarrow> json \<Rightarrow> json res" where
  "json_sets [] j = Inr j"
| "json_sets ((k, v) # kvs) j = bnd (json_set k v j) (json_sets kvs)"

section \<open>Conversions to text\<close>

definition valueToString_int :: "int \<Rightarrow> string" where
  "valueToString_int v = (if v < 0 then ''-'' @ digitos (nat (- v)) else digitos (nat v))"

definition valueToString_uint :: "nat \<Rightarrow> string" where
  "valueToString_uint v = digitos v"

definition valueToString_double :: "doble \<Rightarrow> string" where
  "valueToString_double v = (case v of
      Fin _ _ _ \<Rightarrow> printf_17g v
    | NaN \<Rightarrow> ''null''
    | Infinito neg \<Rightarrow> (if neg then ''-1e+9999'' else ''1e+9999''))"

definition valueToString_bool :: "bool \<Rightarrow> string" where
  "valueToString_bool v = (if v then ''true'' else ''false'')"

definition asString :: "json \<Rightarrow> string res" where
  "asString j = (case j of
      JNull \<Rightarrow> Inr []
    | JString s \<Rightarrow> Inr s
    | JBool b \<Rightarrow> Inr (if b then ''true'' else ''false'')
    | JInt n \<Rightarrow> Inr (valueToString_int n)
    | JUInt n \<Rightarrow> Inr (valueToString_uint n)
    | JReal d \<Rightarrow> Inr (valueToString_double d)
    | _ \<Rightarrow> Inl (LogicError ''Type is not convertible to string''))"

text \<open>\<open>j.get(key, keyDefault).asString()\<close>, the access the entities are read back with.\<close>

definition getString :: "json \<Rightarrow> string \<Rightarrow> string res" where
  "getString j key = bnd (json_get j key (JString [])) asString"

text \<open>\<open>StringUtil::jsonValueToVector\<close>: every element as text.\<close>

definition jsonValueToVector :: "json \<Rightarrow> string list res" where
  "jsonValueToVector v =
     mapM (\<lambda>i. bnd (json_get_index v i (JString [])) asString) [0..<json_size v]"

section \<open>Order of member names\<close>

lemma CZString_eq_iff [simp]: "CZString_eq a b \<longleftrightarrow> a = b"
  unfolding CZString_eq_def by (metis memcmp_eq_0)

lemma CZString_less_iff [simp]: "CZString_less a b \<longleftrightarrow> a < b"
proof (induction a arbitrary: b)
  case Nil
  then show ?case by (cases b) (simp_all add: CZString_less_def)
next
  case (Cons x xs)
  show ?case
  proof (cases b)
    case (Cons y ys)
    have "CZString_less (x # xs) (y # ys) \<longleftrightarrow>
        ord x < ord y \<or> x = y \<and> CZString_less xs ys"
      by (auto simp: CZString_less_def Let_def)
    then show ?thesis
      using Cons.IH [of ys] Cons by (simp add: less_char_def)
  qed (simp add: CZString_less_def)
qed


section \<open>Objects as maps\<close>

definition obj_ok :: "(string \<times> json) list \<Rightarrow> bool" where
  "obj_ok ms \<longleftrightarrow> sorted_wrt (<) (map fst ms)"

lemma obj_ok_Nil [simp]: "obj_ok []"
  by (simp add: obj_ok_def)

lemma obj_ok_Cons: "obj_ok ((k, v) # ms) \<longleftrightarrow> (\<forall>k' \<in> fst ` set ms. k < k') \<and> obj_ok ms"
  by (auto simp: obj_ok_def)

lemma set_obj_ins: "fst ` set (obj_ins k v ms) = insert k (fst ` set ms)"
  by (induction k v ms rule: obj_ins.induct) auto

lemma obj_ok_ins: "obj_ok ms \<Longrightarrow> obj_ok (obj_ins k v ms)"
  by (induction k v ms rule: obj_ins.induct) (auto simp: obj_ok_Cons set_obj_ins not_less)

lemma obj_find_map_of: "obj_ok ms \<Longrightarrow> obj_find k ms = map_of ms k"
proof (induction k ms rule: obj_find.induct)
  case (2 k k' v ms)
  have "map_of ms k = None" if "k < k'"
    using 2(2) that by (auto simp: obj_ok_Cons map_of_eq_None_iff)
  then show ?case using 2 by (auto simp: obj_ok_Cons)
qed simp

lemma map_of_obj_ins: "obj_ok ms \<Longrightarrow> map_of (obj_ins k v ms) = (map_of ms)(k \<mapsto> v)"
  by (induction k v ms rule: obj_ins.induct) (auto simp: obj_ok_Cons fun_eq_iff)

text \<open>
  The contract of a string-keyed map: what a lookup returns after an update, and that
  updates keep the representation invariant. It is what the code relies on when it fills
  an object member by member and reads the members back by name.
\<close>

locale mapa =
  fixes vacio :: "'m"
    and poner :: "'k \<Rightarrow> 'v \<Rightarrow> 'm \<Rightarrow> 'm"
    and buscar :: "'k \<Rightarrow> 'm \<Rightarrow> 'v option"
    and inv :: "'m \<Rightarrow> bool"
  assumes inv_vacio: "inv vacio"
    and inv_poner: "inv m \<Longrightarrow> inv (poner k v m)"
    and buscar_vacio: "buscar k vacio = None"
    and buscar_poner: "inv m \<Longrightarrow> buscar k' (poner k v m) = (if k' = k then Some v else buscar k' m)"
begin

definition poner_todos :: "('k \<times> 'v) list \<Rightarrow> 'm \<Rightarrow> 'm" where
  "poner_todos kvs m = fold (\<lambda>(k, v). poner k v) kvs m"

lemma poner_todos_simps [simp]:
  "poner_todos [] m = m"
  "poner_todos ((k, v) # kvs) m = poner_todos kvs (poner k v m)"
  by (simp_all add: poner_todos_def)

lemma inv_poner_todos: "inv m \<Longrightarrow> inv (poner_todos kvs m)"
  by (induction kvs arbitrary: m) (auto simp: inv_poner)

lemma buscar_poner_todos:
  "inv m \<Longrightarrow> buscar k (poner_todos kvs m) =
     (case map_of (rev kvs) k of None \<Rightarrow> buscar k m | Some v \<Rightarrow> Some v)"
proof (induction kvs arbitrary: m)
  case (Cons kv kvs)
  then show ?case
    by (cases kv) (auto simp: inv_poner buscar_poner map_add_def split: option.splits)
qed simp

lemma buscar_poner_distinct:
  assumes "inv m" and "distinct (map fst kvs)" and "(k, v) \<in> set kvs"
  shows "buscar k (poner_todos kvs m) = Some v"
proof -
  have "map_of (rev kvs) k = Some v"
    using assms(2,3) by (intro map_of_is_SomeI) (auto simp: rev_map [symmetric])
  then show ?thesis using assms(1) by (simp add: buscar_poner_todos)
qed

end

interpretation objeto: mapa "[]" obj_ins obj_find obj_ok
proof unfold_locales
  fix m :: "(string \<times> json) list" and k k' :: string and v :: json
  assume "obj_ok m"
  then show "obj_find k' (obj_ins k v m) = (if k' = k then Some v else obj_find k' m)"
    by (simp add: obj_find_map_of obj_ok_ins map_of_obj_ins)
qed (simp_all add: obj_ok_ins)

text \<open>Filling a fresh value member by member never fails and gives the object of all members.\<close>

lemma json_sets_JObject:
  "json_sets kvs (JObject ms) = Inr (JObject (objeto.poner_todos kvs ms))"
  by (induction kvs arbitrary: ms) (auto simp: json_set_def resolveReference_def)

lemma json_sets_JNull:
  "kvs \<noteq> [] \<Longrightarrow> json_sets kvs JNull = Inr (JObject (objeto.poner_todos kvs []))"
  by (cases kvs) (auto simp: json_set_def resolveReference_def json_sets_JObject)

lemma getString_poner_todos:
  assumes "distinct (map fst kvs)" and "(k, v) \<in> set kvs"
  shows "getString (JObject (objeto.poner_todos kvs [])) k = asString v"
  using objeto.buscar_poner_distinct [OF _ assms, of "[]"]
  by (simp add: getString_def json_get_def json_find_def)

end
