(* ===== verification/Mundo.thy ===== *)
theory Mundo
  imports RocksDB Json_Value
begin

text \<open>
  The state the server's operations work on: the database, the singletons of \<open>BaseDeDatos\<close>
  and \<open>Loger\<close> with the log file, the clock, the places of \<open>Localizacion\<close>, what has been
  written to the connection that is being served, and the standard output. The clock is the sequence of local times
  the calls of \<open>time\<close> and \<open>localtime\<close> read, which \<open>ctime\<close> and \<open>strftime\<close> print.
\<close>

section \<open>Local time and its texts\<close>

record tm =
  tm_sec :: nat
  tm_min :: nat
  tm_hour :: nat
  tm_mday :: nat
  tm_mon :: nat
  tm_year :: nat
  tm_wday :: nat

definition nombre_en :: "string list \<Rightarrow> nat \<Rightarrow> string" where
  "nombre_en ns i = (if i < length ns then ns ! i else ''???'')"

definition dos_cifras :: "nat \<Rightarrow> string" where
  "dos_cifras n = (if n < 10 then CHR ''0'' # digitos n else digitos n)"

definition ancho3 :: "nat \<Rightarrow> string" where
  "ancho3 n = replicate (3 - length (digitos n)) CHR '' '' @ digitos n"

definition asctime :: "tm \<Rightarrow> string" where
  "asctime t =
     nombre_en [''Sun'', ''Mon'', ''Tue'', ''Wed'', ''Thu'', ''Fri'', ''Sat''] (tm_wday t) @ '' '' @
     nombre_en [''Jan'', ''Feb'', ''Mar'', ''Apr'', ''May'', ''Jun'', ''Jul'', ''Aug'', ''Sep'',
       ''Oct'', ''Nov'', ''Dec''] (tm_mon t) @
     ancho3 (tm_mday t) @ '' '' @ dos_cifras (tm_hour t) @ '':'' @ dos_cifras (tm_min t) @ '':'' @
     dos_cifras (tm_sec t) @ '' '' @ digitos (tm_year t + 1900) @ [CHR 0x0A]"

text \<open>\<open>strftime(buf, 30, "%d/%m/%y, %Rhs", t)\<close>.\<close>

definition strftime_dmyR :: "tm \<Rightarrow> string" where
  "strftime_dmyR t =
     dos_cifras (tm_mday t) @ ''/'' @ dos_cifras (tm_mon t + 1) @ ''/'' @
     dos_cifras (tm_year t mod 100) @ '', '' @ dos_cifras (tm_hour t) @ '':'' @
     dos_cifras (tm_min t) @ ''hs''"

section \<open>The world\<close>

text \<open>
  What the server keeps of the connection it is answering: the bytes to send, whether the
  headers are out (\<open>MG_HEADERS_SENT\<close>), whether the chunked interface is in use
  (\<open>MG_USING_CHUNKED_API\<close>), and the status code, 0 until one is sent.
\<close>

record envio =
  send_iobuf :: string
  headers_sent :: bool
  using_chunked_api :: bool
  status_code :: int

definition envio_nuevo :: envio where
  "envio_nuevo = \<lparr>send_iobuf = [], headers_sent = False, using_chunked_api = False, status_code = 0\<rparr>"

record mundo =
  bd :: DBImpl
  bd_abre :: bool
  bd_instancia :: bool
  bd_path :: string
  log_nivel :: "string option"
  log_archivo :: string
  reloj :: "nat \<Rightarrow> tm"
  lecturas :: nat
  lugares :: json
  salida :: envio
  consola :: string

type_synonym 'a accion = "(mundo, 'a) oper"

definition leer_reloj :: "tm accion" where
  "leer_reloj w = Inr (reloj w (lecturas w), w\<lparr>lecturas := lecturas w + 1\<rparr>)"

definition ctime_actual :: "string accion" where
  "ctime_actual = luego leer_reloj (\<lambda>t. ret (asctime t))"

definition proximo_ctime :: "mundo \<Rightarrow> string" where
  "proximo_ctime w = asctime (reloj w (lecturas w))"

lemma ctime_actual_run [simp]:
  "ctime_actual w = Inr (proximo_ctime w, w\<lparr>lecturas := lecturas w + 1\<rparr>)"
  by (simp add: ctime_actual_def proximo_ctime_def leer_reloj_def luego_def)

text \<open>
  The state when \<open>main\<close> starts, with what is on the disk and whether it can be opened: no
  singleton exists yet, and no place has been loaded.
\<close>

definition mundo_inicial :: "DBImpl \<Rightarrow> bool \<Rightarrow> (nat \<Rightarrow> tm) \<Rightarrow> mundo" where
  "mundo_inicial d abre r =
     \<lparr>bd = d, bd_abre = abre, bd_instancia = False, bd_path = ''Base de Datos'', log_nivel = None,
      log_archivo = [], reloj = r, lecturas = 0, lugares = JArray [], salida = envio_nuevo,
      consola = []\<rparr>"

definition mundo_ejemplo :: mundo where
  "mundo_ejemplo = mundo_inicial DBImpl_nueva True
     (\<lambda>n. \<lparr>tm_sec = n mod 60, tm_min = 30, tm_hour = 10, tm_mday = 25, tm_mon = 5, tm_year = 115,
       tm_wday = 4\<rparr>)"

end
