(* ===== verification/Loger.thy ===== *)
theory Loger
  imports Mundo StringUtil
begin

text \<open>
  \<open>Loger\<close>: the singleton and its lazy construction, the levels, and the file, which
  construction truncates and every message extends by a line.
\<close>

section \<open>Definitions\<close>

definition escribir :: "string \<Rightarrow> unit accion" where
  "escribir texto = modifica (\<lambda>w. w\<lparr>log_archivo := log_archivo w @ c_str texto @ [CHR 0x0A]\<rparr>)"

definition guion :: string where
  "guion = replicate 65 CHR ''-''"

definition ponerFecha :: "unit accion" where
  "ponerFecha = luego ctime_actual (\<lambda>sfecha.
     luego (escribir guion) (\<lambda>_. escribir (sfecha @ guion)))"

definition Loger_new :: "unit accion" where
  "Loger_new = luego (modifica (\<lambda>w. w\<lparr>log_archivo := [], log_nivel := Some ''Info''\<rparr>)) (\<lambda>_. ponerFecha)"

definition getLoger :: "unit accion" where
  "getLoger w = (if log_nivel w = None then Loger_new w else ret () w)"

definition getNivel :: "string accion" where
  "getNivel = luego getLoger (\<lambda>_. consulta (\<lambda>w. case log_nivel w of None \<Rightarrow> [] | Some n \<Rightarrow> n))"

definition modificarNivel :: "string \<Rightarrow> unit accion" where
  "modificarNivel nivel = luego getLoger (\<lambda>_. modifica (\<lambda>w. w\<lparr>log_nivel := Some nivel\<rparr>))"

definition guardarEstado :: "unit accion" where
  "guardarEstado = getLoger"

definition Loger_error :: "string \<Rightarrow> unit accion" where
  "Loger_error texto = luego getLoger (\<lambda>_. escribir (''ERROR: '' @ texto))"

definition Loger_warn :: "string \<Rightarrow> unit accion" where
  "Loger_warn texto = luego getNivel (\<lambda>n.
     if toLower n = ''warn'' \<or> toLower n = ''info'' \<or> toLower n = ''debug''
     then escribir (''WARNING: '' @ texto) else ret ())"

definition Loger_info :: "string \<Rightarrow> unit accion" where
  "Loger_info texto = luego getNivel (\<lambda>n.
     if toLower n = ''info'' \<or> toLower n = ''debug'' then escribir (''INFO: '' @ texto) else ret ())"

definition Loger_debug :: "string \<Rightarrow> unit accion" where
  "Loger_debug texto = luego getNivel (\<lambda>n.
     if toLower n = ''debug'' then escribir (''DEBUG: '' @ texto) else ret ())"

definition destruirLoger :: "unit accion" where
  "destruirLoger = luego getLoger (\<lambda>_. modifica (\<lambda>w. w\<lparr>log_nivel := None\<rparr>))"

section \<open>Logging returns, and changes only the log\<close>

text \<open>The state after an operation that returns.\<close>

definition tras :: "'a accion \<Rightarrow> mundo \<Rightarrow> mundo" where
  "tras m w = (case m w of Inl e \<Rightarrow> w | Inr (x, w') \<Rightarrow> w')"

text \<open>\<open>w'\<close> is \<open>w\<close> with another log and a later reading of the clock.\<close>

definition solo_log :: "mundo \<Rightarrow> mundo \<Rightarrow> bool" where
  "solo_log w w' \<longleftrightarrow> bd w' = bd w \<and> bd_abre w' = bd_abre w \<and> bd_instancia w' = bd_instancia w \<and>
     bd_path w' = bd_path w \<and> reloj w' = reloj w \<and> lugares w' = lugares w \<and> salida w' = salida w \<and>
     consola w' = consola w \<and> lecturas w \<le> lecturas w'"

lemma solo_log_refl: "solo_log w w"
  by (simp add: solo_log_def)

lemma solo_log_campos:
  assumes "solo_log w w'"
  shows "bd w' = bd w" "bd_abre w' = bd_abre w" "bd_instancia w' = bd_instancia w"
    "bd_path w' = bd_path w" "reloj w' = reloj w" "lugares w' = lugares w" "salida w' = salida w"
    "consola w' = consola w"
  using assms unfolding solo_log_def by simp_all

interpretation anotar: preorden solo_log
  by unfold_locales (auto simp: solo_log_def)

definition anota :: "unit accion \<Rightarrow> bool" where
  "anota m \<longleftrightarrow> (\<forall>w. \<exists>w'. m w = Inr ((), w') \<and> solo_log w w')"

lemma anota_tras: "anota m \<Longrightarrow> m w = Inr ((), tras m w)"
  by (auto simp: anota_def tras_def dest!: spec [of _ w])

lemma anota_solo_log: "anota m \<Longrightarrow> solo_log w (tras m w)"
  by (auto simp: anota_def tras_def dest!: spec [of _ w])

lemma getLoger_run:
  "getLoger w = Inr ((), if log_nivel w = None
     then w\<lparr>log_nivel := Some ''Info'', lecturas := lecturas w + 1,
            log_archivo := c_str guion @ [CHR 0x0A] @ c_str (proximo_ctime w @ guion) @ [CHR 0x0A]\<rparr>
     else w)"
  by (simp add: getLoger_def Loger_new_def ponerFecha_def escribir_def luego_def proximo_ctime_def)

lemma anota_loger [simp, intro]:
  "anota getLoger" "anota guardarEstado" "anota (Loger_error t)" "anota (Loger_warn t)"
  "anota (Loger_info t)" "anota (Loger_debug t)"
  by (auto simp: anota_def getLoger_run guardarEstado_def Loger_error_def Loger_warn_def
      Loger_info_def Loger_debug_def getNivel_def escribir_def luego_def solo_log_def)

text \<open>The simplifier's view: a logging call returns, and the other fields are untouched.\<close>

lemmas loger_run [simp] = anota_loger [THEN anota_tras]
lemmas loger_campos [simp] = anota_loger [THEN anota_solo_log, THEN solo_log_campos(1)]
  anota_loger [THEN anota_solo_log, THEN solo_log_campos(2)]
  anota_loger [THEN anota_solo_log, THEN solo_log_campos(3)]
  anota_loger [THEN anota_solo_log, THEN solo_log_campos(4)]
  anota_loger [THEN anota_solo_log, THEN solo_log_campos(5)]
  anota_loger [THEN anota_solo_log, THEN solo_log_campos(6)]
  anota_loger [THEN anota_solo_log, THEN solo_log_campos(7)]

section \<open>Properties\<close>

text \<open>The lines a call writes when the logger exists with level \<open>n\<close>.\<close>

definition activo :: "string list \<Rightarrow> string \<Rightarrow> bool" where
  "activo niveles n \<longleftrightarrow> toLower n \<in> set niveles"

text \<open>
  With the logger at level \<open>n\<close>, an error is always written, a warning at the levels warn,
  info and debug, an information at info and debug, a debug message at debug only; what is
  written is one line at the end of the file, and nothing else of the state changes.
\<close>
theorem loger_levels:
  assumes "log_nivel w = Some n"
  shows "Loger_error t w = escribir (''ERROR: '' @ t) w
    \<and> Loger_warn t w = (if activo [''warn'', ''info'', ''debug''] n then escribir (''WARNING: '' @ t) w else Inr ((), w))
    \<and> Loger_info t w = (if activo [''info'', ''debug''] n then escribir (''INFO: '' @ t) w else Inr ((), w))
    \<and> Loger_debug t w = (if activo [''debug''] n then escribir (''DEBUG: '' @ t) w else Inr ((), w))
    \<and> escribir t w = Inr ((), w\<lparr>log_archivo := log_archivo w @ c_str t @ [CHR 0x0A]\<rparr>)"
  using assms
  by (auto simp: Loger_error_def Loger_warn_def Loger_info_def Loger_debug_def getNivel_def
      getLoger_run luego_def escribir_def activo_def simp del: loger_run)

theorem loger_levels_witness:
  "Loger_warn ''x'' (mundo_ejemplo\<lparr>log_nivel := Some ''Warn''\<rparr>)
     = Inr ((), mundo_ejemplo\<lparr>log_nivel := Some ''Warn'', log_archivo := ''WARNING: x'' @ [CHR 0x0A]\<rparr>)"
proof -
  have "toLower ''Warn'' = ''warn''" by code_simp
  then show ?thesis
    using loger_levels [of "mundo_ejemplo\<lparr>log_nivel := Some ''Warn''\<rparr>" "''Warn''" "''x''"]
    by (simp add: activo_def escribir_def mundo_ejemplo_def mundo_inicial_def c_str_def del: loger_run)
qed

end
