(* ===== verification/Constantes.thy ===== *)
theory Constantes
  imports Main
begin

text \<open>The constants of \<open>constantes.h\<close> that the server's code uses.\<close>

abbreviation keyNombre :: string where "keyNombre \<equiv> ''Nombre''"
abbreviation keyId :: string where "keyId \<equiv> ''Id''"
abbreviation keyFotoDePerfil :: string where "keyFotoDePerfil \<equiv> ''FotoDePerfil''"
abbreviation keyEstadoDeConexion :: string where "keyEstadoDeConexion \<equiv> ''EstadoDeConexion''"
abbreviation keyUltimaConexion :: string where "keyUltimaConexion \<equiv> ''Ultima Conexion''"
abbreviation keyTelefono :: string where "keyTelefono \<equiv> ''Telefono''"
abbreviation keyLocalizacion :: string where "keyLocalizacion \<equiv> ''Localizacion''"
abbreviation keyTokenSesion :: string where "keyTokenSesion \<equiv> ''Token''"
abbreviation keyPassword :: string where "keyPassword \<equiv> ''Password''"
abbreviation keyRenovarToken :: string where "keyRenovarToken \<equiv> ''RenovarToken''"
abbreviation keyIdConversacion :: string where "keyIdConversacion \<equiv> ''Id''"
abbreviation keyIdsUsuarios :: string where "keyIdsUsuarios \<equiv> ''IdsUsuarios''"
abbreviation keyMensajes :: string where "keyMensajes \<equiv> ''Mensajes''"
abbreviation keyCuerpo :: string where "keyCuerpo \<equiv> ''Cuerpo''"
abbreviation keyIdUsuarioEmisor :: string where "keyIdUsuarioEmisor \<equiv> ''IdUsuarioEmisor''"
abbreviation keyFecha :: string where "keyFecha \<equiv> ''Fecha''"
abbreviation keyIdUsuarioReceptor :: string where "keyIdUsuarioReceptor \<equiv> ''IdUsuarioReceptor''"
abbreviation urlPrueba :: string where "urlPrueba \<equiv> ''/prueba''"
abbreviation urlCheckinUsuario :: string where "urlCheckinUsuario \<equiv> ''/usuario/checkIn''"
abbreviation urlBaseUsuario :: string where "urlBaseUsuario \<equiv> ''/usuario/''"
abbreviation urlBaseConversacion :: string where "urlBaseConversacion \<equiv> ''/conversacion/''"
abbreviation urlBaseConversacionId :: string where "urlBaseConversacionId \<equiv> ''/conversacion/id/''"
abbreviation urlBaseUsuarioConversaciones :: string where "urlBaseUsuarioConversaciones \<equiv> ''/usuarioConversacion/''"
abbreviation urlBaseContactos :: string where "urlBaseContactos \<equiv> ''/contactos/''"
abbreviation urlBaseListaDifusion :: string where "urlBaseListaDifusion \<equiv> ''/difusion/''"
abbreviation keyIdUltimoMensaje :: string where "keyIdUltimoMensaje \<equiv> ''idUltimoMensaje''"
abbreviation keyIdConversaciones :: string where "keyIdConversaciones \<equiv> ''idsConversaciones''"
abbreviation keyPayload :: string where "keyPayload \<equiv> ''payload''"
abbreviation keySuccess :: string where "keySuccess \<equiv> ''success''"
abbreviation keyTelefonoEmisor :: string where "keyTelefonoEmisor \<equiv> ''TelefonoEmisor''"
abbreviation keyTelefonoReceptor :: string where "keyTelefonoReceptor \<equiv> ''TelefonoReceptor''"
abbreviation keyContantosTelefono :: string where "keyContantosTelefono \<equiv> ''ContactosTelefono''"
abbreviation keyLatitud :: string where "keyLatitud \<equiv> ''latitud''"
abbreviation keyLongitud :: string where "keyLongitud \<equiv> ''longitud''"
abbreviation keyDatoNoEncontrado :: string where "keyDatoNoEncontrado \<equiv> ''NotFound''"
abbreviation keyIdUsuarioNoEncontrado :: string where "keyIdUsuarioNoEncontrado \<equiv> ''UsarioInvalido''"
abbreviation keyIdConversacionNoEncontrada :: string where "keyIdConversacionNoEncontrada \<equiv> ''ConversacionInvalida''"
abbreviation path_BaseDeDatos :: string where "path_BaseDeDatos \<equiv> ''Base de Datos''"
abbreviation fotoDePerfilDefault :: string where "fotoDePerfilDefault \<equiv> ''default''"
abbreviation (input) keyDefault :: string where "keyDefault \<equiv> []"
abbreviation SeparadorListaBD :: char where "SeparadorListaBD \<equiv> CHR ''#''"

end
