(* ===== verification/Json_Writer.thy ===== *)
theory Json_Writer
  imports Json_Value
begin

text \<open>
  \<open>StyledWriter\<close> of \<open>json/json.cpp\<close>, behind \<open>Value::toStyledString\<close>: quoting of strings,
  and the writer object with its document, its indentation and the buffer of child texts it
  uses to decide whether an array fits on one line. Values carry no comments, so the comment
  hooks of the writer leave the document alone. Sizes are natural numbers (the library's
  \<open>int\<close> arithmetic on them overflows only beyond \<open>2 ^ 29\<close> elements).
\<close>

section \<open>Quoting\<close>

abbreviation DQ :: char where "DQ \<equiv> CHR 0x22"
abbreviation BSL :: char where "BSL \<equiv> CHR 0x5C"

definition isControlCharacter :: "char \<Rightarrow> bool" where
  "isControlCharacter c \<longleftrightarrow> 0 < ord c \<and> ord c \<le> 0x1F"

definition HEX_digit :: "nat \<Rightarrow> char" where
  "HEX_digit n = ''0123456789ABCDEF'' ! n"

text \<open>Four upper-case hexadecimal digits, zero filled.\<close>

definition hex4 :: "nat \<Rightarrow> string" where
  "hex4 n = [HEX_digit (n div 4096 mod 16), HEX_digit (n div 256 mod 16),
             HEX_digit (n div 16 mod 16), HEX_digit (n mod 16)]"

definition escapar :: "char \<Rightarrow> string" where
  "escapar c =
     (if c = DQ then [BSL, DQ]
      else if c = BSL then [BSL, BSL]
      else if c = CHR 0x08 then [BSL, CHR ''b'']
      else if c = CHR 0x0C then [BSL, CHR ''f'']
      else if c = CHR 0x0A then [BSL, CHR ''n'']
      else if c = CHR 0x0D then [BSL, CHR ''r'']
      else if c = CHR 0x09 then [BSL, CHR ''t'']
      else if isControlCharacter c \<or> c = NUL then [BSL, CHR ''u''] @ hex4 (ord c)
      else [c])"

definition necesita_escape :: "char \<Rightarrow> bool" where
  "necesita_escape c \<longleftrightarrow>
     c \<in> set [DQ, BSL, CHR 0x08, CHR 0x0C, CHR 0x0A, CHR 0x0D, CHR 0x09] \<or> isControlCharacter c"

text \<open>For a string with its length: the fast path copies the value up to its first NUL.\<close>

definition valueToQuotedStringN :: "string \<Rightarrow> string" where
  "valueToQuotedStringN v =
     (if list_all (\<lambda>c. \<not> necesita_escape c \<and> c \<noteq> NUL) v
      then [DQ] @ c_str v @ [DQ]
      else [DQ] @ concat (map escapar v) @ [DQ])"

text \<open>For a NUL-terminated string.\<close>

definition valueToQuotedString :: "string \<Rightarrow> string" where
  "valueToQuotedString v0 =
     (let v = c_str v0 in
      if list_all (\<lambda>c. \<not> necesita_escape c) v then [DQ] @ v @ [DQ]
      else [DQ] @ concat (map escapar v) @ [DQ])"

section \<open>The writer\<close>

record StyledWriter =
  document :: string
  indentString :: string
  childValues :: "string list"
  addChildValues :: bool

definition rightMargin :: nat where "rightMargin = 74"
definition indentSize :: nat where "indentSize = 3"

definition emitir :: "string \<Rightarrow> StyledWriter \<Rightarrow> StyledWriter" where
  "emitir s w = w\<lparr>document := document w @ s\<rparr>"

definition pushValue :: "string \<Rightarrow> StyledWriter \<Rightarrow> StyledWriter" where
  "pushValue v w =
     (if addChildValues w then w\<lparr>childValues := childValues w @ [v]\<rparr> else emitir v w)"

definition writeIndent :: "StyledWriter \<Rightarrow> StyledWriter" where
  "writeIndent w =
     (if document w \<noteq> [] \<and> last (document w) = CHR '' '' then w
      else if document w \<noteq> [] \<and> last (document w) \<noteq> CHR 0x0A
      then emitir (indentString w) (emitir [CHR 0x0A] w)
      else emitir (indentString w) w)"

definition writeWithIndent :: "string \<Rightarrow> StyledWriter \<Rightarrow> StyledWriter" where
  "writeWithIndent v w = emitir v (writeIndent w)"

definition indent :: "StyledWriter \<Rightarrow> StyledWriter" where
  "indent w = w\<lparr>indentString := indentString w @ replicate indentSize CHR '' ''\<rparr>"

definition unindent :: "StyledWriter \<Rightarrow> StyledWriter" where
  "unindent w =
     w\<lparr>indentString := take (length (indentString w) - indentSize) (indentString w)\<rparr>"

definition es_contenedor_no_vacio :: "json \<Rightarrow> bool" where
  "es_contenedor_no_vacio v = (case v of JArray vs \<Rightarrow> vs \<noteq> [] | JObject ms \<Rightarrow> ms \<noteq> [] | _ \<Rightarrow> False)"

text \<open>The one-line layout of the elements collected in \<open>childValues\<close>.\<close>

fun en_una_linea :: "string list \<Rightarrow> string" where
  "en_una_linea [] = []"
| "en_una_linea [x] = x"
| "en_una_linea (x # xs) = x @ '', '' @ en_una_linea xs"

text \<open>
  \<open>pushElems\<close> is the loop of \<open>isMultineArray\<close> that writes every child into
  \<open>childValues\<close>, \<open>writeElems\<close> the loop of \<open>writeArrayValue\<close> over several lines without
  such texts, \<open>writeChildren\<close> the same loop with them, \<open>writeMembers\<close> the loop over the
  members of an object.
\<close>

fun writeChildren :: "string list \<Rightarrow> StyledWriter \<Rightarrow> StyledWriter" where
  "writeChildren [] w = w"
| "writeChildren (t # ts) w =
     (let w1 = writeWithIndent t w in if ts = [] then w1 else writeChildren ts (emitir '','' w1))"

fun writeValue :: "json \<Rightarrow> StyledWriter \<Rightarrow> StyledWriter"
  and pushElems :: "json list \<Rightarrow> StyledWriter \<Rightarrow> StyledWriter"
  and writeElems :: "json list \<Rightarrow> StyledWriter \<Rightarrow> StyledWriter"
  and writeMembers :: "(string \<times> json) list \<Rightarrow> StyledWriter \<Rightarrow> StyledWriter" where
  "writeValue JNull w = pushValue ''null'' w"
| "writeValue (JInt n) w = pushValue (valueToString_int n) w"
| "writeValue (JUInt n) w = pushValue (valueToString_uint n) w"
| "writeValue (JReal d) w = pushValue (valueToString_double d) w"
| "writeValue (JString s) w = pushValue (valueToQuotedStringN s) w"
| "writeValue (JBool b) w = pushValue (valueToString_bool b) w"
| "writeValue (JArray vs) w =
     (if vs = [] then pushValue ''[]'' w
      else
        let w0 = w\<lparr>childValues := []\<rparr>;
            largo = (rightMargin \<le> length vs * 3 \<or> list_ex es_contenedor_no_vacio vs);
            w1 = (if largo then w0
                  else (pushElems vs (w0\<lparr>addChildValues := True\<rparr>))\<lparr>addChildValues := False\<rparr>);
            lineLength = 4 + (length vs - 1) * 2 + sum_list (map length (childValues w1))
        in if largo \<or> rightMargin \<le> lineLength
           then
             (let w2 = indent (writeWithIndent ''['' w1);
                  w3 = (if childValues w2 \<noteq> [] then writeChildren (childValues w2) w2
                        else writeElems vs w2)
              in writeWithIndent '']'' (unindent w3))
           else emitir ('' ]'') (emitir (en_una_linea (childValues w1)) (emitir ''[ '' w1)))"
| "writeValue (JObject ms) w =
     (if ms = [] then pushValue ''{}'' w
      else writeWithIndent ''}'' (unindent (writeMembers ms (indent (writeWithIndent ''{'' w)))))"
| "pushElems [] w = w"
| "pushElems (v # vs) w = pushElems vs (writeValue v w)"
| "writeElems [] w = w"
| "writeElems (v # vs) w =
     (let w1 = writeValue v (writeIndent w) in if vs = [] then w1 else writeElems vs (emitir '','' w1))"
| "writeMembers [] w = w"
| "writeMembers ((name, v) # ms) w =
     (let w1 = writeValue v (emitir '' : '' (writeWithIndent (valueToQuotedString name) w))
      in if ms = [] then w1 else writeMembers ms (emitir '','' w1))"

definition StyledWriter_write :: "json \<Rightarrow> string" where
  "StyledWriter_write root =
     document (emitir [CHR 0x0A] (writeValue root
       \<lparr>document = [], indentString = [], childValues = [], addChildValues = False\<rparr>))"

definition toStyledString :: "json \<Rightarrow> string" where
  "toStyledString v = StyledWriter_write v"

end
