(* ===== verification/Json_Reader.thy ===== *)
theory Json_Reader
  imports Json_Writer
begin

text \<open>
  \<open>Json::Reader\<close> of \<open>json/json.cpp\<close> with the features of its default constructor: the
  tokenizer, the decoding of strings, escapes and numbers, and the recursive readers of
  values, objects and arrays with their error recovery. The unread part of the document is
  the state (\<open>current_\<close> to \<open>end_\<close>); a token keeps its text. A reader returns whether it
  succeeded, the value built so far (callers use it even after a failure) and the unread
  rest; nesting deeper than \<open>stackLimit_g\<close> is an exception. The list of error messages and
  the comments attached to values are not modelled: the server never looks at them.
\<close>

section \<open>Tokens\<close>

datatype tokenType =
    tokenEndOfStream | tokenObjectBegin | tokenObjectEnd | tokenArrayBegin | tokenArrayEnd
  | tokenString | tokenNumber | tokenTrue | tokenFalse | tokenNull
  | tokenArraySeparator | tokenMemberSeparator | tokenComment | tokenError

definition es_blanco :: "char \<Rightarrow> bool" where
  "es_blanco c \<longleftrightarrow> c = CHR '' '' \<or> c = CHR 0x09 \<or> c = CHR 0x0D \<or> c = CHR 0x0A"

definition skipSpaces :: "string \<Rightarrow> string" where
  "skipSpaces s = dropWhile es_blanco s"

text \<open>\<open>match\<close>: the pattern must be next, nothing is consumed otherwise.\<close>

definition match :: "string \<Rightarrow> string \<Rightarrow> bool \<times> string" where
  "match pat s = (if take (length pat) s = pat then (True, drop (length pat) s) else (False, s))"

fun readCStyleComment :: "string \<Rightarrow> bool \<times> string" where
  "readCStyleComment [] = (False, [])"
| "readCStyleComment (c # cs) =
     (if c = CHR ''*'' \<and> cs \<noteq> [] \<and> hd cs = CHR ''/'' then (True, tl cs) else readCStyleComment cs)"

fun readCppStyleComment :: "string \<Rightarrow> bool \<times> string" where
  "readCppStyleComment [] = (True, [])"
| "readCppStyleComment (c # cs) =
     (if c = CHR 0x0A then (True, cs)
      else if c = CHR 0x0D
      then (True, if cs \<noteq> [] \<and> hd cs = CHR 0x0A then tl cs else cs)
      else readCppStyleComment cs)"

definition readComment :: "string \<Rightarrow> bool \<times> string" where
  "readComment s = (case s of
      [] \<Rightarrow> (False, [])
    | c # cs \<Rightarrow>
        if c = CHR ''*'' then readCStyleComment cs
        else if c = CHR ''/'' then readCppStyleComment cs
        else (False, cs))"

definition readNumber :: "string \<Rightarrow> string" where
  "readNumber s =
     (let s1 = dropWhile isdigit s;
          s2 = (if s1 \<noteq> [] \<and> hd s1 = CHR ''.'' then dropWhile isdigit (tl s1) else s1)
      in if s2 \<noteq> [] \<and> (hd s2 = CHR ''e'' \<or> hd s2 = CHR ''E'')
         then
           (let t = tl s2;
                t' = (if t \<noteq> [] \<and> (hd t = CHR ''+'' \<or> hd t = CHR ''-'') then tl t else t)
            in dropWhile isdigit t')
         else s2)"

fun readString :: "string \<Rightarrow> bool \<times> string" where
  "readString [] = (False, [])"
| "readString (c # cs) =
     (if c = BSL then (case cs of [] \<Rightarrow> (False, []) | _ # cs' \<Rightarrow> readString cs')
      else if c = DQ then (True, cs)
      else readString cs)"

text \<open>The kind of the next token and the text after it, from its first character on.\<close>

definition si_ok :: "tokenType \<Rightarrow> bool \<times> string \<Rightarrow> tokenType \<times> string" where
  "si_ok t r = (if fst r then t else tokenError, snd r)"

definition clasificar :: "char \<Rightarrow> string \<Rightarrow> tokenType \<times> string" where
  "clasificar c cs =
     (if c = CHR ''{'' then (tokenObjectBegin, cs)
      else if c = CHR ''}'' then (tokenObjectEnd, cs)
      else if c = CHR ''['' then (tokenArrayBegin, cs)
      else if c = CHR '']'' then (tokenArrayEnd, cs)
      else if c = DQ then si_ok tokenString (readString cs)
      else if c = CHR ''/'' then si_ok tokenComment (readComment cs)
      else if isdigit c \<or> c = CHR ''-'' then (tokenNumber, readNumber cs)
      else if c = CHR ''t'' then si_ok tokenTrue (match ''rue'' cs)
      else if c = CHR ''f'' then si_ok tokenFalse (match ''alse'' cs)
      else if c = CHR ''n'' then si_ok tokenNull (match ''ull'' cs)
      else if c = CHR '','' then (tokenArraySeparator, cs)
      else if c = CHR '':'' then (tokenMemberSeparator, cs)
      else if c = NUL then (tokenEndOfStream, cs)
      else (tokenError, cs))"

definition readToken :: "string \<Rightarrow> tokenType \<times> string \<times> string" where
  "readToken s =
     (case skipSpaces s of
        [] \<Rightarrow> (tokenEndOfStream, [], [])
      | c # cs \<Rightarrow>
          (let (t, rest) = clasificar c cs
           in (t, take (Suc (length cs) - length rest) (c # cs), rest)))"

section \<open>Progress of the tokenizer\<close>

lemma length_readCStyleComment: "length (snd (readCStyleComment s)) \<le> length s"
  by (induction s rule: readCStyleComment.induct) auto

lemma length_readCppStyleComment: "length (snd (readCppStyleComment s)) \<le> length s"
  by (induction s rule: readCppStyleComment.induct) auto

lemma length_readString: "length (snd (readString s)) \<le> length s"
proof (induction s rule: readString.induct)
  case (2 c cs)
  show ?case
  proof (cases cs)
    case (Cons d ds)
    show ?thesis
    proof (cases "c = BSL")
      case True
      then show ?thesis using 2(1) [OF True Cons] Cons by simp
    next
      case False
      then show ?thesis using 2(2) [OF False] by auto
    qed
  qed simp
qed simp

lemma length_dropWhile_tl: "length (dropWhile P (tl t)) \<le> length t"
  using length_dropWhile_le [of P "tl t"] by simp

lemma length_dropWhile_tl_tl: "length (dropWhile P (tl (tl t))) \<le> length t"
  using length_dropWhile_le [of P "tl (tl t)"] by simp

lemma length_readNumber: "length (readNumber s) \<le> length s"
proof -
  define s1 where "s1 = dropWhile isdigit s"
  define s2 where "s2 = (if s1 \<noteq> [] \<and> hd s1 = CHR ''.'' then dropWhile isdigit (tl s1) else s1)"
  have 1: "length s1 \<le> length s" unfolding s1_def by (rule length_dropWhile_le)
  have 2: "length s2 \<le> length s1" unfolding s2_def using length_dropWhile_tl [of isdigit s1] by simp
  have "length (readNumber s) \<le> length s2"
    unfolding readNumber_def Let_def s1_def [symmetric] s2_def [symmetric]
    using length_dropWhile_tl [of isdigit s2] length_dropWhile_tl_tl [of isdigit s2] by simp
  with 1 2 show ?thesis by linarith
qed

lemma length_readComment: "length (snd (readComment s)) \<le> length s"
proof (cases s)
  case (Cons c cs)
  then show ?thesis
    using length_readCStyleComment [of cs] length_readCppStyleComment [of cs]
    by (simp add: readComment_def)
qed (simp add: readComment_def)

lemma length_match: "length (snd (match pat s)) \<le> length s"
  by (simp add: match_def)

lemma length_clasificar: "length (snd (clasificar c cs)) \<le> length cs"
  by (simp add: clasificar_def si_ok_def length_readString length_readNumber length_readComment
      length_match)

lemma readToken_le:
  assumes "readToken s = (t, txt, rest)"
  shows "length rest \<le> length s"
proof (cases "skipSpaces s")
  case (Cons c cs)
  then have "length cs < length s"
    using length_dropWhile_le [of es_blanco s] by (simp add: skipSpaces_def)
  then show ?thesis
    using assms Cons length_clasificar [of c cs]
    by (auto simp: readToken_def split: prod.splits)
qed (use assms in \<open>simp add: readToken_def\<close>)

lemma readToken_less:
  assumes "readToken s = (t, txt, rest)" and "t \<noteq> tokenEndOfStream"
  shows "length rest < length s"
proof (cases "skipSpaces s")
  case (Cons c cs)
  then have "length cs < length s"
    using length_dropWhile_le [of es_blanco s] by (simp add: skipSpaces_def)
  then show ?thesis
    using assms Cons length_clasificar [of c cs]
    by (auto simp: readToken_def split: prod.splits)
qed (use assms in \<open>simp add: readToken_def\<close>)

section \<open>Skipping comments and recovering from errors\<close>

function skipCommentTokens :: "string \<Rightarrow> tokenType \<times> string \<times> string" where
  "skipCommentTokens s =
     (case readToken s of (t, txt, rest) \<Rightarrow>
        if t = tokenComment then skipCommentTokens rest else (t, txt, rest))"
  by pat_completeness auto
termination
  by (relation "measure length") (auto dest: readToken_less [OF sym])

function recoverFromError :: "tokenType \<Rightarrow> string \<Rightarrow> string" where
  "recoverFromError skipUntilToken s =
     (case readToken s of (t, txt, rest) \<Rightarrow>
        if t = skipUntilToken \<or> t = tokenEndOfStream then rest
        else recoverFromError skipUntilToken rest)"
  by pat_completeness auto
termination
  by (relation "measure (\<lambda>(_, s). length s)") (auto dest: readToken_less [OF sym])

declare skipCommentTokens.simps [simp del] recoverFromError.simps [simp del]

lemma skipCommentTokens_le:
  "skipCommentTokens s = (t, txt, rest) \<Longrightarrow> length rest \<le> length s"
proof (induction s rule: skipCommentTokens.induct)
  case (1 s)
  obtain t' txt' rest' where r: "readToken s = (t', txt', rest')" by (metis prod_cases3)
  then have "length rest' \<le> length s" by (rule readToken_le)
  then show ?case
    using 1 r by (fastforce simp: skipCommentTokens.simps [of s] split: if_splits)
qed

lemma skipCommentTokens_less:
  assumes "skipCommentTokens s = (t, txt, rest)" and "t \<noteq> tokenEndOfStream"
  shows "length rest < length s"
  using assms
proof (induction s rule: skipCommentTokens.induct)
  case (1 s)
  obtain t' txt' rest' where r: "readToken s = (t', txt', rest')" by (metis prod_cases3)
  then have "length rest' \<le> length s" by (rule readToken_le)
  then show ?case
    using 1 r readToken_less [OF r]
    by (fastforce simp: skipCommentTokens.simps [of s] split: if_splits)
qed

lemma recoverFromError_le: "length (recoverFromError k s) \<le> length s"
proof (induction k s rule: recoverFromError.induct)
  case (1 k s)
  obtain t tx rest where r: "readToken s = (t, tx, rest)" by (metis prod_cases3)
  then have "length rest \<le> length s" by (rule readToken_le)
  then show ?case
    using 1 r by (fastforce simp: recoverFromError.simps [of k s])
qed

section \<open>Strings\<close>

definition codePointToUTF8 :: "nat \<Rightarrow> string" where
  "codePointToUTF8 cp =
     (if cp \<le> 0x7f then [char_of cp]
      else if cp \<le> 0x7FF then [char_of (0xC0 + cp div 64 mod 32), char_of (0x80 + cp mod 64)]
      else if cp \<le> 0xFFFF
      then [char_of (0xE0 + cp div 4096 mod 16), char_of (0x80 + cp div 64 mod 64),
            char_of (0x80 + cp mod 64)]
      else if cp \<le> 0x10FFFF
      then [char_of (0xF0 + cp div 262144 mod 8), char_of (0x80 + cp div 4096 mod 64),
            char_of (0x80 + cp div 64 mod 64), char_of (0x80 + cp mod 64)]
      else [])"

definition hex_valor :: "char \<Rightarrow> nat option" where
  "hex_valor c =
     (if isdigit c then Some (ord c - 48)
      else if 97 \<le> ord c \<and> ord c \<le> 102 then Some (ord c - 97 + 10)
      else if 65 \<le> ord c \<and> ord c \<le> 70 then Some (ord c - 65 + 10)
      else None)"

text \<open>Four hexadecimal digits at the start of the text; the rest is returned with the value.\<close>

definition decodeUnicodeEscapeSequence :: "string \<Rightarrow> (nat \<times> string) option" where
  "decodeUnicodeEscapeSequence s =
     (case s of
        a # b # c # d # rest \<Rightarrow>
          (case (hex_valor a, hex_valor b, hex_valor c, hex_valor d) of
             (Some a, Some b, Some c, Some d) \<Rightarrow> Some (((a * 16 + b) * 16 + c) * 16 + d, rest)
           | _ \<Rightarrow> None)
      | _ \<Rightarrow> None)"

definition decodeUnicodeCodePoint :: "string \<Rightarrow> (nat \<times> string) option" where
  "decodeUnicodeCodePoint s =
     (case decodeUnicodeEscapeSequence s of
        None \<Rightarrow> None
      | Some (unicode, rest) \<Rightarrow>
          if 0xD800 \<le> unicode \<and> unicode \<le> 0xDBFF
          then
            (if length rest < 6 then None
             else if hd rest = BSL \<and> hd (tl rest) = CHR ''u''
             then
               (case decodeUnicodeEscapeSequence (drop 2 rest) of
                  None \<Rightarrow> None
                | Some (surrogatePair, rest') \<Rightarrow>
                    Some (0x10000 + (unicode mod 1024) * 1024 + surrogatePair mod 1024, rest'))
             else None)
          else Some (unicode, rest))"

lemma decodeUnicodeEscapeSequence_less:
  "decodeUnicodeEscapeSequence s = Some (u, rest) \<Longrightarrow> length rest < length s"
  by (auto simp: decodeUnicodeEscapeSequence_def split: list.splits option.splits)

lemma decodeUnicodeCodePoint_less:
  "decodeUnicodeCodePoint s = Some (u, rest) \<Longrightarrow> length rest < length s"
  by (auto simp: decodeUnicodeCodePoint_def split: option.splits if_splits
      dest!: decodeUnicodeEscapeSequence_less)

text \<open>The text between the quotes of a string token.\<close>

function decodeString_loop :: "string \<Rightarrow> string \<Rightarrow> string option" where
  "decodeString_loop s decoded =
     (case s of
        [] \<Rightarrow> Some decoded
      | c # cs \<Rightarrow>
          if c = DQ then Some decoded
          else if c = BSL
          then
            (case cs of
               [] \<Rightarrow> None
             | e # es \<Rightarrow>
                 if e = DQ then decodeString_loop es (decoded @ [DQ])
                 else if e = CHR ''/'' then decodeString_loop es (decoded @ ''/'')
                 else if e = BSL then decodeString_loop es (decoded @ [BSL])
                 else if e = CHR ''b'' then decodeString_loop es (decoded @ [CHR 0x08])
                 else if e = CHR ''f'' then decodeString_loop es (decoded @ [CHR 0x0C])
                 else if e = CHR ''n'' then decodeString_loop es (decoded @ [CHR 0x0A])
                 else if e = CHR ''r'' then decodeString_loop es (decoded @ [CHR 0x0D])
                 else if e = CHR ''t'' then decodeString_loop es (decoded @ [CHR 0x09])
                 else if e = CHR ''u''
                 then
                   (case decodeUnicodeCodePoint es of
                      None \<Rightarrow> None
                    | Some (unicode, rest) \<Rightarrow>
                        decodeString_loop rest (decoded @ codePointToUTF8 unicode))
                 else None)
          else decodeString_loop cs (decoded @ [c]))"
  by pat_completeness auto
termination
  by (relation "measure (\<lambda>(s, _). length s)") (auto dest: decodeUnicodeCodePoint_less)

declare decodeString_loop.simps [simp del]

definition decodeString :: "string \<Rightarrow> string option" where
  "decodeString txt = decodeString_loop (butlast (tl txt)) []"

section \<open>Numbers\<close>

definition decodeDouble :: "string \<Rightarrow> json option" where
  "decodeDouble txt = map_option JReal (sscanf_lf txt)"

text \<open>The digit loop: \<open>None\<close> when the number has to be read as a double.\<close>

fun decodeNumber_loop :: "nat \<Rightarrow> nat \<Rightarrow> nat \<Rightarrow> string \<Rightarrow> nat option" where
  "decodeNumber_loop maxIntegerValue threshold v [] = Some v"
| "decodeNumber_loop maxIntegerValue threshold v (c # cs) =
     (if \<not> isdigit c then None
      else
        let digit = ord c - 48 in
        if threshold \<le> v \<and> (threshold < v \<or> cs \<noteq> [] \<or> maxIntegerValue mod 10 < digit) then None
        else decodeNumber_loop maxIntegerValue threshold (v * 10 + digit) cs)"

definition decodeNumber :: "string \<Rightarrow> json option" where
  "decodeNumber txt =
     (let isNegative = (txt \<noteq> [] \<and> hd txt = CHR ''-'');
          maxIntegerValue = (if isNegative then nat (- minLargestInt) else maxLargestUInt)
      in case decodeNumber_loop maxIntegerValue (maxIntegerValue div 10) 0
                (if isNegative then tl txt else txt) of
           None \<Rightarrow> decodeDouble txt
         | Some v \<Rightarrow>
             Some (if isNegative then JInt (- int v)
                   else if v \<le> maxInt then JInt (int v) else JUInt v))"

section \<open>Values, objects, arrays\<close>

text \<open>
  \<open>depth\<close> is \<open>stackDepth_g\<close> on entry, \<open>cur\<close> the value the reader would overwrite.
  \<open>readObject\<close> is the member loop with the last name read and the members so far,
  \<open>readArray\<close> the element loop with the elements so far.
\<close>

type_synonym leido = "(bool \<times> json \<times> string) res"

function (sequential)
      readValue :: "nat \<Rightarrow> json \<Rightarrow> string \<Rightarrow> leido"
  and readObject :: "nat \<Rightarrow> string \<Rightarrow> (string \<times> json) list \<Rightarrow> string \<Rightarrow> leido"
  and readArray :: "nat \<Rightarrow> json list \<Rightarrow> string \<Rightarrow> leido" where
  "readValue depth cur s =
     (if 1000 \<le> depth then Inl (RuntimeError ''Exceeded stackLimit in readValue().'')
      else case skipCommentTokens s of (t, txt, rest) \<Rightarrow>
        (case t of
           tokenObjectBegin \<Rightarrow> readObject (Suc depth) [] [] rest
         | tokenArrayBegin \<Rightarrow>
             (case skipSpaces rest of
                [] \<Rightarrow> readArray (Suc depth) [] []
              | c # cs \<Rightarrow>
                  if c = CHR '']'' then Inr (True, JArray [], cs)
                  else readArray (Suc depth) [] (c # cs))
         | tokenNumber \<Rightarrow>
             (case decodeNumber txt of
                None \<Rightarrow> Inr (False, cur, rest)
              | Some v \<Rightarrow> Inr (True, v, rest))
         | tokenString \<Rightarrow>
             (case decodeString txt of
                None \<Rightarrow> Inr (False, cur, rest)
              | Some v \<Rightarrow> Inr (True, JString v, rest))
         | tokenTrue \<Rightarrow> Inr (True, JBool True, rest)
         | tokenFalse \<Rightarrow> Inr (True, JBool False, rest)
         | tokenNull \<Rightarrow> Inr (True, JNull, rest)
         | _ \<Rightarrow> Inr (False, cur, rest)))"
| "readObject depth name ms s =
     (case skipCommentTokens s of (t, txt, s1) \<Rightarrow>
      if t = tokenObjectEnd \<and> name = [] then Inr (True, JObject ms, s1)
      else if t \<noteq> tokenString then Inr (False, JObject ms, recoverFromError tokenObjectEnd s1)
      else case decodeString txt of
        None \<Rightarrow> Inr (False, JObject ms, recoverFromError tokenObjectEnd s1)
      | Some name' \<Rightarrow>
          (case readToken s1 of (t2, _, s2) \<Rightarrow>
           if t2 \<noteq> tokenMemberSeparator
           then Inr (False, JObject ms, recoverFromError tokenObjectEnd s2)
           else
             bnd (readValue depth (case obj_find name' ms of None \<Rightarrow> JNull | Some v \<Rightarrow> v) s2)
               (\<lambda>(ok, v, s3).
                  if \<not> ok
                  then Inr (False, JObject (obj_ins name' v ms), recoverFromError tokenObjectEnd s3)
                  else case readToken s3 of (t4, _, s4) \<Rightarrow>
                    if t4 \<noteq> tokenObjectEnd \<and> t4 \<noteq> tokenArraySeparator \<and> t4 \<noteq> tokenComment
                    then Inr (False, JObject (obj_ins name' v ms), recoverFromError tokenObjectEnd s4)
                    else case (if t4 = tokenComment then skipCommentTokens s4 else (t4, [], s4)) of (t5, _, s5) \<Rightarrow>
                      if t5 = tokenObjectEnd then Inr (True, JObject (obj_ins name' v ms), s5)
                      else readObject depth name' (obj_ins name' v ms) s5)))"
| "readArray depth vs s =
     bnd (readValue depth JNull s)
       (\<lambda>(ok, v, s1).
          if \<not> ok then Inr (False, JArray (vs @ [v]), recoverFromError tokenArrayEnd s1)
          else case skipCommentTokens s1 of (t, _, s2) \<Rightarrow>
            if t \<noteq> tokenArraySeparator \<and> t \<noteq> tokenArrayEnd
            then Inr (False, JArray (vs @ [v]), recoverFromError tokenArrayEnd s2)
            else if t = tokenArrayEnd then Inr (True, JArray (vs @ [v]), s2)
            else readArray depth (vs @ [v]) s2)"
  by pat_completeness auto

text \<open>No reader returns more text than it was given, so the loops make progress.\<close>

lemma skipSpaces_le: "length (skipSpaces s) \<le> length s"
  unfolding skipSpaces_def by (rule length_dropWhile_le)

lemma read_le:
  "readValue_readObject_readArray_dom (Inl (d, c, s)) \<Longrightarrow>
     (\<forall>ok v r. readValue d c s = Inr (ok, v, r) \<longrightarrow> length r \<le> length s)"
  "readValue_readObject_readArray_dom (Inr (Inl (d, n, ms, s))) \<Longrightarrow>
     (\<forall>ok v r. readObject d n ms s = Inr (ok, v, r) \<longrightarrow> length r \<le> length s)"
  "readValue_readObject_readArray_dom (Inr (Inr (d, vs, s))) \<Longrightarrow>
     (\<forall>ok v r. readArray d vs s = Inr (ok, v, r) \<longrightarrow> length r \<le> length s)"
proof (induction d c s and d n ms s and d vs s rule: readValue_readObject_readArray.pinduct)
  case (1 depth cur s)
  obtain t tx rest where sk: "skipCommentTokens s = (t, tx, rest)" by (metis prod_cases3)
  then have le: "length rest \<le> length s" by (rule skipCommentTokens_le)
  note simp = readValue.psimps [OF 1(1)] sk prod.case
  show ?case
  proof (cases "1000 \<le> depth")
    case True
    then show ?thesis by (simp add: simp)
  next
    case False
    show ?thesis
    proof (cases t)
      case tokenObjectBegin
      show ?thesis
        using 1(2) [OF False sk [symmetric] refl tokenObjectBegin] le False tokenObjectBegin
        by (fastforce simp add: simp)
    next
      case tokenArrayBegin
      show ?thesis
      proof (cases "skipSpaces rest")
        case Nil
        show ?thesis
          using 1(3) [OF False sk [symmetric] refl tokenArrayBegin Nil] False tokenArrayBegin Nil
          by (fastforce simp add: simp)
      next
        case (Cons ch cs)
        then have "length (ch # cs) \<le> length s"
          using skipSpaces_le [of rest] le by simp
        then show ?thesis
          using 1(4) [OF False sk [symmetric] refl tokenArrayBegin Cons] False tokenArrayBegin Cons
          by (cases "ch = CHR '']''") (auto simp: simp intro: order.trans)
      qed
    qed (use le False in \<open>simp_all add: simp split: option.splits\<close>)
  qed
next
  case (2 depth name ms s)
  obtain t tx s1 where sk: "skipCommentTokens s = (t, tx, s1)" by (metis prod_cases3)
  obtain t2 tx2 s2 where rt: "readToken s1 = (t2, tx2, s2)" by (metis prod_cases3)
  have le: "length s2 \<le> length s" "length s1 \<le> length s"
    using skipCommentTokens_le [OF sk] readToken_le [OF rt] by simp_all
  have rec: "length (recoverFromError k r) \<le> length s" if "length r \<le> length s" for k r
    using recoverFromError_le [of k r] that by simp
  note simp = readObject.psimps [OF 2(1)] sk rt prod.case
  show ?case
  proof (cases "t \<noteq> tokenString \<or> decodeString tx = None \<or> t2 \<noteq> tokenMemberSeparator")
    case True
    then show ?thesis using le rec by (auto simp: simp split: option.splits)
  next
    case False
    then obtain name' where t: "t = tokenString" "decodeString tx = Some name'" "t2 = tokenMemberSeparator"
      by auto
    let ?cur = "case obj_find name' ms of None \<Rightarrow> JNull | Some v \<Rightarrow> v"
    have IH1: "length r \<le> length s2" if "readValue depth ?cur s2 = Inr (ok, v, r)" for ok v r
      using 2(2) [OF sk [symmetric] refl _ _ t(2) rt [symmetric] refl] t that by simp
    show ?thesis
    proof (cases "readValue depth ?cur s2")
      case (Inr p)
      obtain ok v s3 where p: "p = (ok, v, s3)" by (metis prod_cases3)
      obtain t4 tx4 s4 where rt4: "readToken s3 = (t4, tx4, s4)" by (metis prod_cases3)
      obtain t5 tx5 s5 where sk5: "(if t4 = tokenComment then skipCommentTokens s4 else (t4, [], s4)) = (t5, tx5, s5)"
        by (metis prod_cases3)
      have le3: "length s3 \<le> length s" using IH1 Inr p le by fastforce
      have le4: "length s4 \<le> length s" using readToken_le [OF rt4] le3 by simp
      have le5: "length s5 \<le> length s"
        using sk5 skipCommentTokens_le [of s4] le4 by (fastforce split: if_splits)
      have IH2: "length r \<le> length s5"
        if "ok" "\<not> (t4 \<noteq> tokenObjectEnd \<and> t4 \<noteq> tokenArraySeparator \<and> t4 \<noteq> tokenComment)"
          "t5 \<noteq> tokenObjectEnd" "readObject depth name' (obj_ins name' v ms) s5 = Inr (ok', v', r)" for ok' v' r
        using 2(3) [OF sk [symmetric] refl _ _ t(2) rt [symmetric] refl _ Inr p [symmetric] refl _ rt4 [symmetric] refl
            that(2) sk5 [symmetric] refl that(3)] t that by simp
      show ?thesis
        using t Inr p rt4 sk5 le3 le4 le5 IH2 rec
        by (fastforce simp add: simp split: if_splits)
    qed (use t in \<open>simp add: simp\<close>)
  qed
next
  case (3 depth vs s)
  note simp = readArray.psimps [OF 3(1)]
  have rec: "length (recoverFromError k r) \<le> length s" if "length r \<le> length s" for k r
    using recoverFromError_le [of k r] that by simp
  show ?case
  proof (cases "readValue depth JNull s")
    case (Inr p)
    obtain ok v s1 where p: "p = (ok, v, s1)" by (metis prod_cases3)
    obtain t tx s2 where sk: "skipCommentTokens s1 = (t, tx, s2)" by (metis prod_cases3)
    have le1: "length s1 \<le> length s" using 3(2) Inr p by fastforce
    have le2: "length s2 \<le> length s" using skipCommentTokens_le [OF sk] le1 by simp
    have IH: "length r \<le> length s2"
      if "ok" "\<not> (t \<noteq> tokenArraySeparator \<and> t \<noteq> tokenArrayEnd)" "t \<noteq> tokenArrayEnd"
        "readArray depth (vs @ [v]) s2 = Inr (ok', v', r)" for ok' v' r
      using 3(3) [OF Inr p [symmetric] refl _ sk [symmetric] refl that(2,3)] that by simp
    show ?thesis
      using Inr p sk le1 le2 IH rec by (fastforce simp add: simp split: if_splits)
  qed (simp add: simp)
qed

termination readValue
proof (relation "measure (\<lambda>x. case x of Inl (_, _, s) \<Rightarrow> 2 * length s
    | Inr (Inl (_, _, _, s)) \<Rightarrow> 2 * length s + 1 | Inr (Inr (_, _, s)) \<Rightarrow> 2 * length s + 1)", goal_cases)
  case 1 then show ?case by simp
next
  case (2 depth cur s t y tx rest)
  then show ?case using skipCommentTokens_less [of s t tx rest] by simp
next
  case (3 depth cur s t y tx rest)
  then show ?case using skipCommentTokens_less [of s t tx rest] by simp
next
  case (4 depth cur s t y tx rest c cs)
  then show ?case using skipCommentTokens_less [of s t tx rest] skipSpaces_le [of rest] by simp
next
  case (5 depth name ms s t y tx s1 name' t2 y2 tx2 s2)
  then show ?case
    using skipCommentTokens_le [of s t tx s1] readToken_le [of s1 t2 tx2 s2] by simp
next
  case (6 depth name ms s t y tx s1 name' t2 y2 tx2 s2 p ok q v s3 t4 y4 tx4 s4 t5 y5 tx5 s5)
  have "length s1 < length s" using 6 skipCommentTokens_less [of s t tx s1] by simp
  moreover have "length s2 \<le> length s1" using 6 readToken_le [of s1 t2 tx2 s2] by simp
  moreover have "length s3 \<le> length s2" using 6 read_le(1) by fastforce
  moreover have "length s4 \<le> length s3" using 6 readToken_le [of s3 t4 tx4 s4] by simp
  moreover have "length s5 \<le> length s4"
    using 6 skipCommentTokens_le [of s4 t5 tx5 s5] by (auto split: if_splits)
  ultimately show ?case by simp
next
  case (7 depth vs s)
  then show ?case by simp
next
  case (8 depth vs s p ok q v s1 t y tx s2)
  have "length s1 \<le> length s" using 8 read_le(1) by fastforce
  moreover have "length s2 < length s1" using 8 skipCommentTokens_less [of s1 t tx s2] by auto
  ultimately show ?case by simp
qed

declare readValue.simps [simp del] readObject.simps [simp del] readArray.simps [simp del]

text \<open>
  \<open>Reader::parse\<close> on a document: whether it was well formed, and the root afterwards. What
  follows the first value is not looked at.
\<close>

definition parse :: "string \<Rightarrow> json \<Rightarrow> (bool \<times> json) res" where
  "parse doc root = bnd (readValue 0 root doc) (\<lambda>(ok, v, rest). Inr (ok, v))"

end
