(* ===== verification/Json_Lexico.thy ===== *)
theory Json_Lexico
  imports Json_Reader
begin

text \<open>
  The lexical layer of the writer and the reader fit: what \<open>valueToQuotedString\<close> and
  \<open>valueToString\<close> print, \<open>readToken\<close> cuts out whole and \<open>decodeString\<close> and
  \<open>decodeNumber\<close> turn back into the same value.
\<close>

section \<open>Strings\<close>

lemma valueToQuotedStringN_eq:
  "valueToQuotedStringN s = DQ # concat (map escapar s) @ [DQ]"
proof (cases "list_all (\<lambda>c. \<not> necesita_escape c \<and> c \<noteq> NUL) s")
  case True
  then have "concat (map escapar s) = s" and "NUL \<notin> set s"
    by (induction s) (auto simp: escapar_def necesita_escape_def)
  then show ?thesis using True by (simp add: valueToQuotedStringN_def)
qed (simp add: valueToQuotedStringN_def)

lemma valueToQuotedString_eq:
  assumes "NUL \<notin> set s"
  shows "valueToQuotedString s = DQ # concat (map escapar s) @ [DQ]"
proof (cases "list_all (\<lambda>c. \<not> necesita_escape c) s")
  case True
  then have "concat (map escapar s) = s"
    using assms by (induction s) (auto simp: escapar_def necesita_escape_def)
  then show ?thesis using True assms by (simp add: valueToQuotedString_def)
qed (use assms in \<open>simp add: valueToQuotedString_def\<close>)

lemma HEX_digit_ok: "n < 16 \<Longrightarrow> hex_valor (HEX_digit n) = Some n \<and> HEX_digit n \<noteq> BSL \<and> HEX_digit n \<noteq> DQ"
proof -
  assume "n < 16"
  then have "n \<in> set [0..<16]" by simp
  moreover have "\<forall>n \<in> set [0..<16]. hex_valor (HEX_digit n) = Some n \<and> HEX_digit n \<noteq> BSL \<and> HEX_digit n \<noteq> DQ"
    by (simp add: upt_rec HEX_digit_def hex_valor_def isdigit_def)
  ultimately show ?thesis by blast
qed

lemma decode_hex4:
  assumes "n < 0xD800"
  shows "decodeUnicodeCodePoint (hex4 n @ t) = Some (n, t)"
proof -
  have "((n div 4096 mod 16 * 16 + n div 256 mod 16) * 16 + n div 16 mod 16) * 16 + n mod 16 = n"
  proof -
    have "n div 4096 mod 16 = n div 4096" using assms by simp
    moreover have "n div 4096 * 16 + n div 256 mod 16 = n div 256"
      using div_mult_mod_eq [of "n div 256" 16] by (simp add: div_mult2_eq [symmetric])
    moreover have "n div 256 * 16 + n div 16 mod 16 = n div 16"
      using div_mult_mod_eq [of "n div 16" 16] by (simp add: div_mult2_eq [symmetric])
    ultimately show ?thesis by simp
  qed
  then show ?thesis
    using assms
    by (simp add: decodeUnicodeCodePoint_def decodeUnicodeEscapeSequence_def hex4_def HEX_digit_ok)
qed

lemma readString_escapar: "readString (escapar c @ t) = readString t"
  by (simp add: escapar_def hex4_def HEX_digit_ok)

lemma readString_cuerpo: "readString (concat (map escapar s) @ DQ # t) = (True, t)"
  by (induction s) (simp_all add: readString_escapar)

lemma decodeString_loop_char:
  "c \<noteq> DQ \<Longrightarrow> c \<noteq> BSL \<Longrightarrow> decodeString_loop (c # cs) d = decodeString_loop cs (d @ [c])"
  by (subst decodeString_loop.simps) simp

lemma decodeString_loop_esc:
  "decodeString_loop (BSL # DQ # es) d = decodeString_loop es (d @ [DQ])"
  "decodeString_loop (BSL # BSL # es) d = decodeString_loop es (d @ [BSL])"
  "decodeString_loop (BSL # CHR ''b'' # es) d = decodeString_loop es (d @ [CHR 0x08])"
  "decodeString_loop (BSL # CHR ''f'' # es) d = decodeString_loop es (d @ [CHR 0x0C])"
  "decodeString_loop (BSL # CHR ''n'' # es) d = decodeString_loop es (d @ [CHR 0x0A])"
  "decodeString_loop (BSL # CHR ''r'' # es) d = decodeString_loop es (d @ [CHR 0x0D])"
  "decodeString_loop (BSL # CHR ''t'' # es) d = decodeString_loop es (d @ [CHR 0x09])"
  "decodeUnicodeCodePoint es = Some (u, r) \<Longrightarrow>
     decodeString_loop (BSL # CHR ''u'' # es) d = decodeString_loop r (d @ codePointToUTF8 u)"
  by (subst decodeString_loop.simps, simp)+

lemma decodeString_escapar:
  "decodeString_loop (escapar c @ t) d = decodeString_loop t (d @ [c])"
proof (cases "isControlCharacter c \<or> c = NUL")
  case True
  then have "ord c \<le> 31" by (auto simp: isControlCharacter_def)
  then have "decodeUnicodeCodePoint (hex4 (ord c) @ t) = Some (ord c, t)"
      "codePointToUTF8 (ord c) = [c]"
    by (simp_all add: decode_hex4 codePointToUTF8_def)
  then show ?thesis
    by (simp add: escapar_def decodeString_loop_esc decodeString_loop_char)
next
  case False
  then show ?thesis
    by (simp add: escapar_def decodeString_loop_esc decodeString_loop_char)
qed

lemma decodeString_cuerpo: "decodeString_loop (concat (map escapar s)) d = Some (d @ s)"
proof (induction s arbitrary: d)
  case Nil
  then show ?case by (simp add: decodeString_loop.simps)
qed (simp add: decodeString_escapar)

lemma decodeString_quoted: "decodeString (DQ # concat (map escapar s) @ [DQ]) = Some s"
  by (simp add: decodeString_def decodeString_cuerpo)

section \<open>Numbers\<close>

lemma ord_digit [simp]: "n < 10 \<Longrightarrow> ord (char_of (48 + n)) = 48 + n"
  by (simp add: of_char_of)

lemma digitos_digit: "list_all isdigit (digitos n)"
proof (induction n rule: digitos.induct)
  case (1 n)
  then show ?case
    by (cases "n < 10") (simp_all add: digitos.simps [of n] isdigit_def)
qed

lemma digitos_not_Nil [simp]: "digitos n \<noteq> []"
  by (subst digitos.simps) simp

definition paso_digito :: "nat \<Rightarrow> char \<Rightarrow> nat" where
  "paso_digito n c = n * 10 + (ord c - 48)"

lemma foldl_digitos: "foldl paso_digito 0 (digitos n) = n"
proof (induction n rule: digitos.induct)
  case (1 n)
  then show ?case
    by (cases "n < 10") (simp_all add: digitos.simps [of n] paso_digito_def)
qed

lemma foldl_paso_ge: "v * 10 ^ length cs \<le> foldl paso_digito v cs"
proof (induction cs arbitrary: v)
  case (Cons c cs)
  have "v * 10 * 10 ^ length cs \<le> paso_digito v c * 10 ^ length cs"
    by (rule mult_le_mono1) (simp add: paso_digito_def)
  also have "\<dots> \<le> foldl paso_digito (paso_digito v c) cs" by (rule Cons)
  finally show ?case by (simp add: mult.assoc)
qed simp

lemma decodeNumber_loop_ok:
  assumes "list_all isdigit cs" and "foldl paso_digito v cs \<le> m" and "10 \<le> m"
  shows "decodeNumber_loop m (m div 10) v cs = Some (foldl paso_digito v cs)"
  using assms
proof (induction cs arbitrary: v)
  case (Cons c cs)
  have p: "paso_digito v c * 10 ^ length cs \<le> m"
    using foldl_paso_ge [of "paso_digito v c" cs] Cons.prems(2) by simp
  have le: "paso_digito v c \<le> m"
    using p by (metis le_trans mult.right_neutral mult_le_mono2 one_le_numeral one_le_power)
  have no: "\<not> (m div 10 \<le> v \<and> (m div 10 < v \<or> cs \<noteq> [] \<or> m mod 10 < ord c - 48))"
  proof
    assume a: "m div 10 \<le> v \<and> (m div 10 < v \<or> cs \<noteq> [] \<or> m mod 10 < ord c - 48)"
    have "v * 10 \<le> m" using le by (simp add: paso_digito_def)
    then have "v \<le> m div 10" by (simp add: less_eq_div_iff_mult_less_eq)
    with a have v: "v = m div 10" by linarith
    have "cs = []"
    proof (rule ccontr)
      assume "cs \<noteq> []"
      then have "(10::nat) \<le> 10 ^ length cs" by (cases cs) simp_all
      then have "m div 10 * 10 * 10 \<le> m"
        using p v mult_le_mono [of "m div 10 * 10" "paso_digito v c" 10 "10 ^ length cs"]
        by (simp add: paso_digito_def)
      then show False
        using div_le_mono [OF Cons.prems(3), of 10] div_mult_mod_eq [of m 10]
          mod_less_divisor [of 10 m] by simp
    qed
    with a v have "m mod 10 < ord c - 48" by simp
    moreover have "m div 10 * 10 + (ord c - 48) \<le> m" using le v by (simp add: paso_digito_def)
    ultimately show False using div_mult_mod_eq [of m 10] by linarith
  qed
  show ?case
    using Cons.IH [of "paso_digito v c"] Cons.prems no
    by (simp add: Let_def paso_digito_def mult.commute)
qed simp

lemma decodeNumber_uint: "n \<le> maxLargestUInt \<Longrightarrow>
    decodeNumber (digitos n) = Some (if n \<le> maxInt then JInt (int n) else JUInt n)"
proof -
  assume n: "n \<le> maxLargestUInt"
  have "digitos n \<noteq> [] \<and> hd (digitos n) \<noteq> CHR ''-''"
    using digitos_digit [of n] digitos_not_Nil [of n]
    by (cases "digitos n") (auto simp: isdigit_def)
  moreover have "decodeNumber_loop maxLargestUInt (maxLargestUInt div 10) 0 (digitos n) = Some n"
    using decodeNumber_loop_ok [OF digitos_digit, of 0 n maxLargestUInt] n
    by (simp add: foldl_digitos maxLargestUInt_def)
  ultimately show ?thesis by (simp add: decodeNumber_def)
qed

lemma decodeNumber_neg: "minLargestInt \<le> i \<Longrightarrow> i < 0 \<Longrightarrow>
    decodeNumber (''-'' @ digitos (nat (- i))) = Some (JInt i)"
proof -
  assume i: "minLargestInt \<le> i" "i < 0"
  let ?m = "nat (- minLargestInt)"
  have "decodeNumber_loop ?m (?m div 10) 0 (digitos (nat (- i))) = Some (nat (- i))"
    using decodeNumber_loop_ok [OF digitos_digit, of 0 "nat (- i)" ?m] i
    by (simp add: foldl_digitos minLargestInt_def)
  then show ?thesis using i by (simp add: decodeNumber_def)
qed

text \<open>What may follow a number in a document.\<close>

definition corta :: "string \<Rightarrow> bool" where
  "corta s \<longleftrightarrow> s = [] \<or> \<not> isdigit (hd s) \<and> hd s \<noteq> CHR ''.'' \<and> hd s \<noteq> CHR ''e'' \<and> hd s \<noteq> CHR ''E''"

lemma dropWhile_digits: "list_all isdigit ds \<Longrightarrow> corta s \<Longrightarrow> dropWhile isdigit (ds @ s) = s"
  by (induction ds) (auto simp: corta_def dropWhile_eq_self_iff)

lemma readNumber_digits: "list_all isdigit ds \<Longrightarrow> corta s \<Longrightarrow> readNumber (ds @ s) = s"
  by (auto simp: readNumber_def dropWhile_digits corta_def)

section \<open>Tokens\<close>

abbreviation blancos :: "string \<Rightarrow> bool" where
  "blancos b \<equiv> list_all es_blanco b"

lemma skipSpaces_blancos: "blancos b \<Longrightarrow> \<not> es_blanco c \<Longrightarrow> skipSpaces (b @ c # cs) = c # cs"
  by (induction b) (simp_all add: skipSpaces_def)

lemma readToken_clasificar:
  assumes "blancos b" and "\<not> es_blanco c" and "clasificar c cs = (t, rest)"
  shows "readToken (b @ c # cs) = (t, take (Suc (length cs) - length rest) (c # cs), rest)"
  using assms by (simp add: readToken_def skipSpaces_blancos)

lemma skipCommentTokens_readToken:
  "readToken s = (t, tx, rest) \<Longrightarrow> t \<noteq> tokenComment \<Longrightarrow> skipCommentTokens s = (t, tx, rest)"
  by (simp add: skipCommentTokens.simps [of s])

lemma readToken_simple:
  assumes "blancos b"
  shows "readToken (b @ CHR ''{'' # r) = (tokenObjectBegin, ''{'', r)"
    and "readToken (b @ CHR ''}'' # r) = (tokenObjectEnd, ''}'', r)"
    and "readToken (b @ CHR ''['' # r) = (tokenArrayBegin, ''['', r)"
    and "readToken (b @ CHR '']'' # r) = (tokenArrayEnd, '']'', r)"
    and "readToken (b @ CHR '','' # r) = (tokenArraySeparator, '','', r)"
    and "readToken (b @ CHR '':'' # r) = (tokenMemberSeparator, '':'', r)"
  by (simp_all add: readToken_clasificar [OF assms] es_blanco_def clasificar_def isdigit_def)

lemma readToken_literal:
  assumes "blancos b"
  shows "readToken (b @ ''null'' @ r) = (tokenNull, ''null'', r)"
    and "readToken (b @ ''true'' @ r) = (tokenTrue, ''true'', r)"
    and "readToken (b @ ''false'' @ r) = (tokenFalse, ''false'', r)"
  by (simp_all add: readToken_clasificar [OF assms] es_blanco_def clasificar_def isdigit_def
      match_def si_ok_def)

lemma readToken_string:
  assumes "blancos b"
  shows "readToken (b @ (DQ # concat (map escapar s) @ [DQ]) @ r)
    = (tokenString, DQ # concat (map escapar s) @ [DQ], r)"
proof -
  let ?e = "concat (map escapar s)"
  have "clasificar DQ (?e @ DQ # r) = (tokenString, r)"
    by (simp add: clasificar_def si_ok_def readString_cuerpo)
  from readToken_clasificar [OF assms _ this] show ?thesis
    by (simp add: es_blanco_def)
qed

lemma readToken_number:
  assumes "blancos b" and "isdigit c \<or> c = CHR ''-''" and "list_all isdigit ds" and "corta r"
  shows "readToken (b @ (c # ds) @ r) = (tokenNumber, c # ds, r)"
proof -
  have c: "\<not> es_blanco c" using assms(2) by (auto simp: es_blanco_def isdigit_def)
  have "clasificar c (ds @ r) = (tokenNumber, readNumber (ds @ r))"
    using assms(2) by (auto simp: clasificar_def isdigit_def)
  then show ?thesis
    using readToken_clasificar [OF assms(1) c] assms(3,4) by (simp add: readNumber_digits)
qed

end
