(* ===== verification/Json_Gramatica.thy ===== *)
theory Json_Gramatica
  imports Json_Lexico
begin

text \<open>
  A grammar of JSON texts, as an inductive relation between values and texts, and the proof
  that \<open>Reader::readValue\<close> accepts every text of it and builds the value.
\<close>

section \<open>A grammar of the documents both sides agree on\<close>

text \<open>
  \<open>texto n v t\<close>: \<open>t\<close> is a text of the value \<open>v\<close>, with at most \<open>n\<close> nested levels; \<open>elems\<close> is
  the text of the elements of an array after its opening bracket, up to and with the closing
  one, and \<open>miembros\<close> the same for an object.
\<close>

inductive texto :: "nat \<Rightarrow> json \<Rightarrow> string \<Rightarrow> bool"
  and elems :: "nat \<Rightarrow> json list \<Rightarrow> string \<Rightarrow> bool"
  and miembros :: "nat \<Rightarrow> (string \<times> json) list \<Rightarrow> string \<Rightarrow> bool" where
  t_null: "texto (Suc n) JNull ''null''"
| t_true: "texto (Suc n) (JBool True) ''true''"
| t_false: "texto (Suc n) (JBool False) ''false''"
| t_nat: "k \<le> maxInt \<Longrightarrow> texto (Suc n) (JInt (int k)) (digitos k)"
| t_neg: "minLargestInt \<le> i \<Longrightarrow> i < 0 \<Longrightarrow> texto (Suc n) (JInt i) (''-'' @ digitos (nat (- i)))"
| t_uint: "maxInt < k \<Longrightarrow> k \<le> maxLargestUInt \<Longrightarrow> texto (Suc n) (JUInt k) (digitos k)"
| t_string: "texto (Suc n) (JString s) (DQ # concat (map escapar s) @ [DQ])"
| t_array0: "texto (Suc n) (JArray []) ''[]''"
| t_array: "elems n vs t \<Longrightarrow> texto (Suc n) (JArray vs) (CHR ''['' # t)"
| t_object0: "texto (Suc n) (JObject []) ''{}''"
| t_object: "miembros n ms t \<Longrightarrow> obj_ok ms \<Longrightarrow> texto (Suc n) (JObject ms) (CHR ''{'' # t)"
| e_last: "texto n v t \<Longrightarrow> blancos b \<Longrightarrow> blancos b' \<Longrightarrow> elems n [v] (b @ t @ b' @ '']'')"
| e_more: "texto n v t \<Longrightarrow> blancos b \<Longrightarrow> blancos b' \<Longrightarrow> elems n vs u \<Longrightarrow>
    elems n (v # vs) (b @ t @ b' @ CHR '','' # u)"
| m_last: "texto n v t \<Longrightarrow> blancos b \<Longrightarrow> blancos b' \<Longrightarrow> blancos b1 \<Longrightarrow> blancos b2 \<Longrightarrow>
    miembros n [(k, v)] (b @ (DQ # concat (map escapar k) @ [DQ]) @ b1 @ CHR '':'' # b2 @ t @ b' @ ''}'')"
| m_more: "texto n v t \<Longrightarrow> blancos b \<Longrightarrow> blancos b' \<Longrightarrow> blancos b1 \<Longrightarrow> blancos b2 \<Longrightarrow> miembros n ms u \<Longrightarrow>
    miembros n ((k, v) # ms)
      (b @ (DQ # concat (map escapar k) @ [DQ]) @ b1 @ CHR '':'' # b2 @ t @ b' @ CHR '','' # u)"

lemma corta_blancos: "blancos b \<Longrightarrow> c \<in> set '',]}'' \<Longrightarrow> corta (b @ c # r)"
  by (cases b) (auto simp: corta_def es_blanco_def isdigit_def)

lemma obj_ok_snoc: "obj_ok (ms0 @ (k, v) # ms) \<Longrightarrow> obj_find k ms0 = None"
proof (induction ms0)
  case (Cons p ms0)
  obtain k' v' where p: "p = (k', v')" by (cases p)
  from Cons.prems have "k' < k" by (simp add: p obj_ok_Cons)
  with Cons show ?case by (auto simp: p obj_ok_Cons)
qed simp

lemma obj_ins_snoc: "obj_ok (ms0 @ (k, v') # ms) \<Longrightarrow> obj_ins k v ms0 = ms0 @ [(k, v)]"
proof (induction ms0)
  case (Cons p ms0)
  obtain k' v' where p: "p = (k', v')" by (cases p)
  from Cons.prems have "k' < k" by (simp add: p obj_ok_Cons)
  with Cons show ?case by (auto simp: p obj_ok_Cons)
qed simp

lemma readValue_number:
  assumes "depth < 1000" and "blancos b" and "corta r"
    and "isdigit c \<or> c = CHR ''-''" and "list_all isdigit ds" and "decodeNumber (c # ds) = Some v"
  shows "readValue depth cur (b @ (c # ds) @ r) = Inr (True, v, r)"
  using assms readToken_number [OF assms(2,4,5,3)]
  by (simp add: readValue.simps skipCommentTokens_readToken)

lemma readValue_digitos:
  assumes "depth < 1000" and "blancos b" and "corta r" and "decodeNumber (digitos k) = Some v"
  shows "readValue depth cur (b @ digitos k @ r) = Inr (True, v, r)"
proof -
  obtain c ds where d: "digitos k = c # ds" by (meson digitos_not_Nil list.exhaust)
  then have "isdigit c" "list_all isdigit ds" using digitos_digit [of k] by simp_all
  then show ?thesis using readValue_number [OF assms(1-3)] assms(4) d by simp
qed

lemma skipSpaces_idem: "blancos b \<Longrightarrow> skipSpaces (b @ s) = skipSpaces s"
  by (induction b) (simp_all add: skipSpaces_def)

lemma skipCommentTokens_skipSpaces: "skipCommentTokens (skipSpaces s) = skipCommentTokens s"
proof -
  have "readToken (skipSpaces s) = readToken s" by (simp add: readToken_def skipSpaces_def)
  then show ?thesis by (simp add: skipCommentTokens.simps [of s] skipCommentTokens.simps [of "skipSpaces s"])
qed

lemma readArray_skipSpaces: "readArray d vs (skipSpaces s) = readArray d vs s"
  by (simp add: readArray.simps readValue.simps skipCommentTokens_skipSpaces)

lemmas leer_tokens =
  readToken_simple readToken_simple [of "[]", simplified] readToken_literal [simplified]
  readToken_string skipCommentTokens_readToken


section \<open>The reader accepts the grammar\<close>

lemma readArray_elemento:
  assumes "readValue d JNull s = Inr (True, v, b @ c # r)" and "blancos b"
  shows "c = CHR '']'' \<Longrightarrow> readArray d vs s = Inr (True, JArray (vs @ [v]), r)"
    and "c = CHR '','' \<Longrightarrow> readArray d vs s = readArray d (vs @ [v]) r"
  using assms by (simp_all add: readArray.simps [of d vs s] leer_tokens)

lemma readObject_miembro:
  assumes "blancos b" and "blancos b1" and "blancos b'"
    and "obj_ok (ms0 @ (k, v) # ms)"
    and "readValue d JNull s = Inr (True, v, b' @ c # r)"
  shows "c = CHR ''}'' \<Longrightarrow>
      readObject d name ms0 (b @ (DQ # concat (map escapar k) @ [DQ]) @ b1 @ CHR '':'' # s)
        = Inr (True, JObject (ms0 @ [(k, v)]), r)"
    and "c = CHR '','' \<Longrightarrow>
      readObject d name ms0 (b @ (DQ # concat (map escapar k) @ [DQ]) @ b1 @ CHR '':'' # s)
        = readObject d k (ms0 @ [(k, v)]) r"
proof -
  have t: "skipCommentTokens (b @ (DQ # concat (map escapar k) @ [DQ]) @ b1 @ CHR '':'' # s)
    = (tokenString, DQ # concat (map escapar k) @ [DQ], b1 @ CHR '':'' # s)"
    by (rule skipCommentTokens_readToken [OF readToken_string [OF assms(1)]]) simp
  let ?s = "b @ (DQ # concat (map escapar k) @ [DQ]) @ b1 @ CHR '':'' # s"
  show "readObject d name ms0 ?s = Inr (True, JObject (ms0 @ [(k, v)]), r)" if "c = CHR ''}''"
    unfolding readObject.simps [of d name ms0 ?s] t using assms(5) that
    by (simp add: leer_tokens assms(1-3) decodeString_quoted obj_ok_snoc [OF assms(4)]
        obj_ins_snoc [OF assms(4)])
  show "readObject d name ms0 ?s = readObject d k (ms0 @ [(k, v)]) r" if "c = CHR '',''"
    unfolding readObject.simps [of d name ms0 ?s] t using assms(5) that
    by (simp add: leer_tokens assms(1-3) decodeString_quoted obj_ok_snoc [OF assms(4)] obj_ins_snoc [OF assms(4)])
qed


lemma digitos_hd: "\<exists>c cs. digitos k = c # cs \<and> \<not> es_blanco c \<and> c \<noteq> CHR '']''"
  using digitos_digit [of k] by (cases "digitos k") (auto simp: es_blanco_def isdigit_def)

lemma texto_hd: "texto n v t \<Longrightarrow> \<exists>c cs. t = c # cs \<and> \<not> es_blanco c \<and> c \<noteq> CHR '']''"
proof (cases n v t rule: texto.cases)
  assume "texto n v t"
  then show "texto n v t" .
qed (use digitos_hd in \<open>auto simp: es_blanco_def\<close>)

lemma readValue_array:
  assumes "elems n vs t" and "depth < 1000" and "blancos b"
  shows "readValue depth cur (b @ CHR ''['' # t @ r) = readArray (Suc depth) [] (t @ r)"
proof -
  obtain b' v tv u where t: "t = b' @ tv @ u" "blancos b'" "texto n v tv"
    using assms(1) by (cases rule: elems.cases) auto
  obtain c cs where c: "tv = c # cs" "\<not> es_blanco c" "c \<noteq> CHR '']''" using texto_hd [OF t(3)] by auto
  have "skipSpaces (t @ r) = c # cs @ u @ r"
    using t c skipSpaces_blancos [of b' c "cs @ u @ r"] by simp
  moreover from this have "readArray (Suc depth) [] (c # cs @ u @ r) = readArray (Suc depth) [] (t @ r)"
    by (metis readArray_skipSpaces)
  ultimately show ?thesis using c assms(2,3) by (simp add: readValue.simps leer_tokens)
qed


lemma reader_accepts:
  "texto n v t \<Longrightarrow> (\<And>depth b r cur. n + depth \<le> 1000 \<Longrightarrow> blancos b \<Longrightarrow> corta r \<Longrightarrow>
     readValue depth cur (b @ t @ r) = Inr (True, v, r))"
  "elems n vs t \<Longrightarrow> (\<And>depth vs0 r. n + depth \<le> 1000 \<Longrightarrow>
     readArray depth vs0 (t @ r) = Inr (True, JArray (vs0 @ vs), r))"
  "miembros n ms t \<Longrightarrow> (\<And>depth name ms0 r. n + depth \<le> 1000 \<Longrightarrow> obj_ok (ms0 @ ms) \<Longrightarrow>
     readObject depth name ms0 (t @ r) = Inr (True, JObject (ms0 @ ms), r))"
proof (induction rule: texto_elems_miembros.inducts)
  case (t_neg i n)
  then show ?case
    using readValue_number [OF _ t_neg(4,5), of depth "CHR ''-''" "digitos (nat (- i))" "JInt i" cur]
      decodeNumber_neg [of i] digitos_digit by simp
next
  case (t_nat k n)
  then have "decodeNumber (digitos k) = Some (JInt (int k))"
    using decodeNumber_uint [of k] by (simp add: maxInt_def maxLargestUInt_def)
  with t_nat show ?case by (simp add: readValue_digitos)
next
  case (t_uint k n)
  then have "decodeNumber (digitos k) = Some (JUInt k)" using decodeNumber_uint [of k] by simp
  with t_uint show ?case by (simp add: readValue_digitos)
next
  case (t_string n s)
  have "skipCommentTokens (b @ (DQ # concat (map escapar s) @ [DQ]) @ r)
    = (tokenString, DQ # concat (map escapar s) @ [DQ], r)"
    by (rule skipCommentTokens_readToken [OF readToken_string [OF t_string(2)]]) simp
  with t_string show ?case by (simp only: readValue.simps) (simp add: decodeString_quoted)
next
  case (t_array n vs t)
  then show ?case using readValue_array [OF t_array(1), of depth b cur r] by simp
next
  case (t_object n ms t)
  then show ?case by (simp add: readValue.simps leer_tokens)
next
  case (e_last n v t b b')
  have "readValue depth JNull (b @ t @ (b' @ CHR '']'' # r)) = Inr (True, v, b' @ CHR '']'' # r)"
    by (rule e_last.IH) (use e_last in \<open>auto intro: corta_blancos\<close>)
  from readArray_elemento(1) [OF this e_last(3)] show ?case by simp
next
  case (e_more n v t b b' vs u)
  have "readValue depth JNull (b @ t @ (b' @ CHR '','' # u @ r)) = Inr (True, v, b' @ CHR '','' # u @ r)"
    by (rule e_more.IH) (use e_more in \<open>auto intro: corta_blancos\<close>)
  from readArray_elemento(2) [OF this e_more(3)] show ?case using e_more by simp
next
  case (m_last n v t b b' b1 b2 k)
  have "readValue depth JNull (b2 @ t @ (b' @ CHR ''}'' # r)) = Inr (True, v, b' @ CHR ''}'' # r)"
    by (rule m_last.IH) (use m_last in \<open>auto intro: corta_blancos\<close>)
  from readObject_miembro(1) [OF m_last(2,4,3) _ this, of ms0 k "[]" name] show ?case
    using m_last.prems by simp
next
  case (m_more n v t b b' b1 b2 ms u k)
  have "readValue depth JNull (b2 @ t @ (b' @ CHR '','' # u @ r)) = Inr (True, v, b' @ CHR '','' # u @ r)"
    by (rule m_more.IH) (use m_more in \<open>auto intro: corta_blancos\<close>)
  from readObject_miembro(2) [OF m_more(2,4,3) _ this, of ms0 k ms name] show ?case
    using m_more by simp
qed (simp_all add: readValue.simps readObject.simps leer_tokens skipSpaces_def es_blanco_def)

end
