(* ===== verification/Json_RoundTrip.thy ===== *)
theory Json_RoundTrip
  imports Json_Gramatica
begin

text \<open>
  \<open>StyledWriter\<close> writes texts of the grammar, whatever the layout it chooses, so a document
  that is written with \<open>toStyledString\<close> and read with \<open>Reader::parse\<close> comes back unchanged.
\<close>

section \<open>What the writer produces is in the grammar\<close>

fun escribible :: "nat \<Rightarrow> json \<Rightarrow> bool" where
  "escribible 0 v = False"
| "escribible (Suc n) v =
     (case v of
        JInt i \<Rightarrow> minLargestInt \<le> i \<and> i \<le> int maxInt
      | JUInt k \<Rightarrow> maxInt < k \<and> k \<le> maxLargestUInt
      | JReal d \<Rightarrow> False
      | JArray vs \<Rightarrow> list_all (escribible n) vs
      | JObject ms \<Rightarrow> obj_ok ms \<and> list_all (\<lambda>(k, v). NUL \<notin> set k \<and> escribible n v) ms
      | _ \<Rightarrow> True)"

text \<open>How a writer may have changed after it has written the text \<open>t\<close> in direct mode.\<close>

definition avance :: "StyledWriter \<Rightarrow> string \<Rightarrow> StyledWriter \<Rightarrow> bool" where
  "avance w t w' \<longleftrightarrow> document w' = document w @ t \<and> indentString w' = indentString w \<and>
     addChildValues w' = addChildValues w"

definition directo :: "StyledWriter \<Rightarrow> bool" where
  "directo w \<longleftrightarrow> \<not> addChildValues w \<and> blancos (indentString w)"

lemma avance_directo: "avance w t w' \<Longrightarrow> directo w \<Longrightarrow> directo w'"
  by (simp add: avance_def directo_def)

lemma avance_trans: "avance w t w' \<Longrightarrow> avance w' u w'' \<Longrightarrow> avance w (t @ u) w''"
  by (simp add: avance_def)

lemma avance_emitir: "avance w t (emitir t w)"
  by (simp add: avance_def emitir_def)

lemma avance_writeIndent:
  assumes "directo w" obtains b where "blancos b" and "avance w b (writeIndent w)"
proof
  let ?b = "drop (length (document w)) (document (writeIndent w))"
  show "blancos ?b" using assms by (auto simp: writeIndent_def emitir_def directo_def es_blanco_def)
  show "avance w ?b (writeIndent w)" by (auto simp: writeIndent_def emitir_def avance_def)
qed

lemma avance_writeWithIndent:
  assumes "directo w" obtains b where "blancos b" and "avance w (b @ t) (writeWithIndent t w)"
  using avance_writeIndent [OF assms] avance_trans avance_emitir
  unfolding writeWithIndent_def by metis

lemma escribible_simple:
  assumes "escribible n v" and "\<not> es_contenedor_no_vacio v"
  shows "\<exists>t. texto n v t \<and> (\<forall>w. writeValue v w = pushValue t w)"
proof -
  obtain m where n: "n = Suc m" using assms(1) by (cases n) auto
  show ?thesis
  proof (cases v)
    case (JInt i)
    show ?thesis
    proof (cases "i < 0")
      case True
      then show ?thesis using assms(1) t_neg [of i m] by (auto simp: n JInt valueToString_int_def)
    next
      case False
      then have "texto n v (digitos (nat i))"
        using assms(1) t_nat [of "nat i" m] by (simp add: n JInt nat_le_iff)
      then show ?thesis using False by (auto simp: JInt valueToString_int_def)
    qed
  next
    case (JBool b)
    then show ?thesis by (cases b) (auto simp: n valueToString_bool_def intro: texto_elems_miembros.intros)
  qed (use assms in \<open>auto simp: n es_contenedor_no_vacio_def valueToString_uint_def
        valueToQuotedStringN_eq intro: texto_elems_miembros.intros\<close>)
qed

lemma pushElems_simple:
  assumes "list_all (escribible n) vs" and "\<not> list_ex es_contenedor_no_vacio vs"
  shows "\<exists>ts. list_all2 (texto n) vs ts \<and>
    (\<forall>w. addChildValues w \<longrightarrow> pushElems vs w = w\<lparr>childValues := childValues w @ ts\<rparr>)"
  using assms
proof (induction vs)
  case (Cons v vs)
  then obtain t ts where "texto n v t" "\<And>w. writeValue v w = pushValue t w"
    and "list_all2 (texto n) vs ts"
    and "\<And>w. addChildValues w \<Longrightarrow> pushElems vs w = w\<lparr>childValues := childValues w @ ts\<rparr>"
    using escribible_simple [of n v] by auto
  then show ?case by (intro exI [of _ "t # ts"]) (simp add: pushValue_def)
qed (auto intro!: exI [of _ "[]"])


text \<open>The text \<open>u\<close> of some elements (members) to which only the closing bracket is missing.\<close>

definition abierto :: "(string \<Rightarrow> bool) \<Rightarrow> string \<Rightarrow> string \<Rightarrow> bool" where
  "abierto P c u \<longleftrightarrow> (\<forall>b. blancos b \<longrightarrow> P (u @ b @ c))"

lemma elems_cierra: "texto n v t \<Longrightarrow> blancos b \<Longrightarrow> abierto (elems n [v]) '']'' (b @ t)"
  unfolding abierto_def using e_last by auto

lemma elems_sigue:
  "texto n v t \<Longrightarrow> blancos b \<Longrightarrow> abierto (elems n vs) '']'' u \<Longrightarrow> abierto (elems n (v # vs)) '']'' (b @ t @ '','' @ u)"
  unfolding abierto_def using e_more [of n v t b "[]"] by auto

lemma miembros_cierra:
  assumes "texto n v t" and "blancos b" and "blancos b2" and "NUL \<notin> set k"
  shows "abierto (miembros n [(k, v)]) ''}'' (b @ valueToQuotedString k @ '' : '' @ b2 @ t)"
  unfolding abierto_def
proof (intro allI impI)
  fix b' assume "blancos b'"
  then show "miembros n [(k, v)] ((b @ valueToQuotedString k @ '' : '' @ b2 @ t) @ b' @ ''}'')"
    using m_last [OF assms(1,2), of b' "'' ''" "CHR '' '' # b2" k] assms
    by (simp add: valueToQuotedString_eq es_blanco_def)
qed

lemma miembros_sigue:
  assumes "texto n v t" and "blancos b" and "blancos b2" and "NUL \<notin> set k"
    and "abierto (miembros n ms) ''}'' u"
  shows "abierto (miembros n ((k, v) # ms)) ''}''
    (b @ valueToQuotedString k @ '' : '' @ b2 @ t @ '','' @ u)"
  unfolding abierto_def
proof (intro allI impI)
  fix b' assume "blancos b'"
  then have "miembros n ms (u @ b' @ ''}'')" using assms(5) by (simp add: abierto_def)
  then show "miembros n ((k, v) # ms)
      ((b @ valueToQuotedString k @ '' : '' @ b2 @ t @ '','' @ u) @ b' @ ''}'')"
    using m_more [OF assms(1,2), of "[]" "'' ''" "CHR '' '' # b2" ms "u @ b' @ ''}''" k] assms
    by (simp add: valueToQuotedString_eq es_blanco_def)
qed

lemma en_una_linea_elems:
  "list_all2 (texto n) vs ts \<Longrightarrow> ts \<noteq> [] \<Longrightarrow> abierto (elems n vs) '']'' ('' '' @ en_una_linea ts)"
proof (induction ts arbitrary: vs rule: en_una_linea.induct)
  case (2 x)
  then show ?case using elems_cierra [of n _ x "'' ''"]
    by (auto simp: list_all2_Cons2 es_blanco_def)
next
  case (3 x y ts)
  from 3(2) obtain v vs' where vs: "vs = v # vs'" "texto n v x" "list_all2 (texto n) vs' (y # ts)"
    by (auto simp: list_all2_Cons2)
  with 3(1) have "abierto (elems n vs') '']'' ('' '' @ en_una_linea (y # ts))" by simp
  from elems_sigue [OF vs(2) _ this, of "'' ''"] show ?case by (simp add: vs es_blanco_def)
qed simp

lemma writeChildren_elems:
  "list_all2 (texto n) vs ts \<Longrightarrow> ts \<noteq> [] \<Longrightarrow> directo w \<Longrightarrow>
    \<exists>u. avance w u (writeChildren ts w) \<and> abierto (elems n vs) '']'' u"
proof (induction ts arbitrary: vs w)
  case (Cons t ts)
  from Cons.prems(1) obtain v vs' where vs: "vs = v # vs'" "texto n v t" "list_all2 (texto n) vs' ts"
    by (auto simp: list_all2_Cons2)
  obtain b where b: "blancos b" "avance w (b @ t) (writeWithIndent t w)"
    using avance_writeWithIndent [OF Cons.prems(3)] .
  let ?w = "emitir '','' (writeWithIndent t w)"
  have w: "avance w ((b @ t) @ '','') ?w" by (rule avance_trans [OF b(2) avance_emitir])
  show ?case
  proof (cases "ts = []")
    case True
    then show ?thesis using b vs elems_cierra [OF vs(2) b(1)] by auto
  next
    case False
    from Cons.IH [OF vs(3) False avance_directo [OF w Cons.prems(3)]] obtain u where
      u: "avance ?w u (writeChildren ts ?w)" "abierto (elems n vs') '']'' u" by blast
    show ?thesis
      using avance_trans [OF w u(1)] elems_sigue [OF vs(2) b(1) u(2)] False by (auto simp: vs(1))
  qed
qed simp


text \<open>The contract of \<open>writeValue\<close> for one value, which the loops take as given.\<close>

definition escribe :: "nat \<Rightarrow> json \<Rightarrow> bool" where
  "escribe n v \<longleftrightarrow> (\<forall>w. directo w \<longrightarrow>
     (\<exists>b t. blancos b \<and> texto n v t \<and> avance w (b @ t) (writeValue v w)))"

lemma writeElems_elems:
  "\<forall>v\<in>set vs. escribe n v \<Longrightarrow> vs \<noteq> [] \<Longrightarrow> directo w \<Longrightarrow>
    \<exists>u. avance w u (writeElems vs w) \<and> abierto (elems n vs) '']'' u"
proof (induction vs arbitrary: w)
  case (Cons v vs)
  obtain b0 where b0: "blancos b0" "avance w b0 (writeIndent w)"
    using avance_writeIndent [OF Cons.prems(3)] .
  from Cons.prems(1) avance_directo [OF b0(2) Cons.prems(3)] obtain b t where
    t: "blancos b" "texto n v t" "avance (writeIndent w) (b @ t) (writeValue v (writeIndent w))"
    by (auto simp: escribe_def)
  let ?b = "b0 @ b" and ?w = "emitir '','' (writeValue v (writeIndent w))"
  have b: "blancos ?b" "avance w (?b @ t) (writeValue v (writeIndent w))"
    using b0 t avance_trans [OF b0(2) t(3)] by simp_all
  have w: "avance w ((?b @ t) @ '','') ?w" by (rule avance_trans [OF b(2) avance_emitir])
  show ?case
  proof (cases "vs = []")
    case True
    then show ?thesis using b elems_cierra [OF t(2) b(1)] by auto
  next
    case False
    from Cons.IH [OF _ False avance_directo [OF w Cons.prems(3)]] Cons.prems(1) obtain u where
      u: "avance ?w u (writeElems vs ?w)" "abierto (elems n vs) '']'' u" by auto
    show ?thesis
      using avance_trans [OF w u(1)] elems_sigue [OF t(2) b(1) u(2)] False by (auto simp: Let_def)
  qed
qed simp

lemma writeMembers_miembros:
  "\<forall>(k, v)\<in>set ms. NUL \<notin> set k \<and> escribe n v \<Longrightarrow> ms \<noteq> [] \<Longrightarrow> directo w \<Longrightarrow>
    \<exists>u. avance w u (writeMembers ms w) \<and> abierto (miembros n ms) ''}'' u"
proof (induction ms arbitrary: w)
  case (Cons p ms)
  obtain k v where p: "p = (k, v)" by (cases p)
  obtain b where b: "blancos b" "avance w (b @ valueToQuotedString k) (writeWithIndent (valueToQuotedString k) w)"
    using avance_writeWithIndent [OF Cons.prems(3)] .
  let ?w1 = "emitir '' : '' (writeWithIndent (valueToQuotedString k) w)"
  have w1: "avance w ((b @ valueToQuotedString k) @ '' : '') ?w1"
    by (rule avance_trans [OF b(2) avance_emitir])
  from Cons.prems(1) avance_directo [OF w1 Cons.prems(3)] obtain b2 t where
    t: "blancos b2" "texto n v t" "avance ?w1 (b2 @ t) (writeValue v ?w1)" and k: "NUL \<notin> set k"
    by (auto simp: escribe_def p)
  note w2 = avance_trans [OF w1 t(3)]
  let ?w = "emitir '','' (writeValue v ?w1)"
  note w = avance_trans [OF w2 avance_emitir [of _ "'',''"]]
  show ?case
  proof (cases "ms = []")
    case True
    then show ?thesis using w2 miembros_cierra [OF t(2) b(1) t(1) k] by (auto simp: p Let_def)
  next
    case False
    from Cons.IH [OF _ False avance_directo [OF w Cons.prems(3)]] Cons.prems(1) obtain u where
      u: "avance ?w u (writeMembers ms ?w)" "abierto (miembros n ms) ''}'' u" by auto
    show ?thesis
      using avance_trans [OF w u(1)] miembros_sigue [OF t(2) b(1) t(1) k u(2)] False
      by (auto simp: p Let_def)
  qed
qed simp

text \<open>The frame of a container over several lines.\<close>

lemma marco:
  assumes "directo w" and "\<And>w. directo w \<Longrightarrow> \<exists>u. avance w u (f w) \<and> abierto P c u"
  shows "\<exists>b t. blancos b \<and> P t \<and>
    avance w (b @ a @ t) (writeWithIndent c (unindent (f (indent (writeWithIndent a w)))))"
proof -
  obtain b where b: "blancos b" "avance w (b @ a) (writeWithIndent a w)"
    using avance_writeWithIndent [OF assms(1)] .
  let ?w1 = "indent (writeWithIndent a w)"
  have "directo ?w1"
    using avance_directo [OF b(2) assms(1)] by (simp add: directo_def indent_def indentSize_def es_blanco_def numeral_3_eq_3)
  then obtain u where u: "avance ?w1 u (f ?w1)" "abierto P c u" using assms(2) by blast
  have w2: "avance w ((b @ a) @ u) (unindent (f ?w1))"
    using b u(1) by (simp add: avance_def indent_def unindent_def indentSize_def)
  obtain b' where b': "blancos b'" "avance (unindent (f ?w1)) (b' @ c) (writeWithIndent c (unindent (f ?w1)))"
    using avance_writeWithIndent [OF avance_directo [OF w2 assms(1)]] .
  show ?thesis
    using b(1) avance_trans [OF w2 b'(2)] u(2) b'(1)
    by (intro exI [of _ b] exI [of _ "u @ b' @ c"]) (simp add: abierto_def)
qed


lemma escribe_simple:
  assumes "escribible n v" and "\<not> es_contenedor_no_vacio v"
  shows "escribe n v"
  unfolding escribe_def
proof (intro allI impI)
  fix w assume w: "directo w"
  obtain t where "texto n v t" "writeValue v w = pushValue t w"
    using escribible_simple [OF assms] by blast
  then show "\<exists>b t. blancos b \<and> texto n v t \<and> avance w (b @ t) (writeValue v w)"
    using w avance_emitir [of w t] by (intro exI [of _ "[]"] exI [of _ t]) (simp add: pushValue_def directo_def)
qed

lemma escribe_object:
  assumes "\<forall>(k, v)\<in>set ms. NUL \<notin> set k \<and> escribe n v" and "ms \<noteq> []" and "obj_ok ms"
  shows "escribe (Suc n) (JObject ms)"
  unfolding escribe_def
proof (intro allI impI)
  fix w assume "directo w"
  from marco [OF this writeMembers_miembros [OF assms(1,2)], of "''{''"]
  show "\<exists>b t. blancos b \<and> texto (Suc n) (JObject ms) t \<and> avance w (b @ t) (writeValue (JObject ms) w)"
    using assms(2,3) by (fastforce intro: t_object)
qed

lemma directo_childValues [simp]: "directo (w\<lparr>childValues := ts\<rparr>) = directo w"
  by (simp add: directo_def)

lemma avance_childValues [simp]: "avance (w\<lparr>childValues := ts\<rparr>) t w' = avance w t w'"
  by (simp add: avance_def)

lemma childValues_indent [simp]: "childValues (indent (writeWithIndent t w)) = childValues w"
  by (simp add: indent_def writeWithIndent_def writeIndent_def emitir_def)

lemma escribe_array_largo:
  assumes "\<forall>v\<in>set vs. escribe n v" and "vs \<noteq> []" and "rightMargin \<le> length vs * 3 \<or> list_ex es_contenedor_no_vacio vs"
  shows "escribe (Suc n) (JArray vs)"
  unfolding escribe_def
proof (intro allI impI)
  fix w assume "directo w"
  then have "directo (w\<lparr>childValues := []\<rparr>)" by simp
  from marco [OF this writeElems_elems [OF assms(1,2)], of "''[''"]
  show "\<exists>b t. blancos b \<and> texto (Suc n) (JArray vs) t \<and> avance w (b @ t) (writeValue (JArray vs) w)"
    using assms(2,3) by (fastforce intro: t_array)
qed

lemma escribe_array_corto:
  assumes "list_all (escribible n) vs" and "vs \<noteq> []"
    and "\<not> (rightMargin \<le> length vs * 3 \<or> list_ex es_contenedor_no_vacio vs)"
  shows "escribe (Suc n) (JArray vs)"
  unfolding escribe_def
proof (intro allI impI)
  fix w assume w: "directo w"
  obtain ts where ts: "list_all2 (texto n) vs ts"
    and push: "\<And>w. addChildValues w \<Longrightarrow> pushElems vs w = w\<lparr>childValues := childValues w @ ts\<rparr>"
    using pushElems_simple [OF assms(1)] assms(3) by blast
  have ne: "ts \<noteq> []" using ts assms(2) by auto
  let ?w1 = "w\<lparr>childValues := ts\<rparr>"
  have push1: "(pushElems vs (w\<lparr>childValues := [], addChildValues := True\<rparr>))\<lparr>addChildValues := False\<rparr> = ?w1"
    using w by (simp add: push directo_def)
  show "\<exists>b t. blancos b \<and> texto (Suc n) (JArray vs) t \<and> avance w (b @ t) (writeValue (JArray vs) w)"
  proof (cases "rightMargin \<le> 4 + (length vs - 1) * 2 + sum_list (map length ts)")
    case True
    have "directo ?w1" using w by simp
    from marco [OF this writeChildren_elems [OF ts ne], of "''[''"] obtain b t where
      t: "blancos b" "elems n vs t" "avance ?w1 (b @ ''['' @ t)
        (writeWithIndent '']'' (unindent (writeChildren ts (indent (writeWithIndent ''['' ?w1)))))"
      by auto
    show ?thesis
      by (rule exI [of _ b], rule exI [of _ "CHR ''['' # t"])
        (use True assms(2,3) ne push1 t t_array [OF t(2)] in \<open>simp add: Let_def push\<close>)
  next
    case False
    have "avance ?w1 ((''[ '' @ en_una_linea ts) @ '' ]'') (emitir '' ]'' (emitir (en_una_linea ts) (emitir ''[ '' ?w1)))"
      by (simp add: avance_def emitir_def)
    moreover have e: "elems n vs (('' '' @ en_una_linea ts) @ '' '' @ '']'')"
      using en_una_linea_elems [OF ts ne, unfolded abierto_def, rule_format, of "'' ''"]
      by (simp add: es_blanco_def)
    ultimately have "texto (Suc n) (JArray vs) (''[ '' @ en_una_linea ts @ '' ]'') \<and>
      avance w ([] @ ''[ '' @ en_una_linea ts @ '' ]'') (writeValue (JArray vs) w)"
      using False assms(2,3) push1 t_array [OF e] by (simp add: Let_def push)
    moreover have "blancos []" by simp
    ultimately show ?thesis by blast
  qed
qed

lemma escribe_escribible: "escribible n v \<Longrightarrow> escribe n v"
proof (induction n arbitrary: v)
  case (Suc n)
  show ?case
  proof (cases "es_contenedor_no_vacio v")
    case True
    then consider vs where "v = JArray vs" "vs \<noteq> []" | ms where "v = JObject ms" "ms \<noteq> []"
      by (auto simp: es_contenedor_no_vacio_def split: json.splits)
    then show ?thesis
    proof cases
      case (1 vs)
      then show ?thesis using Suc escribe_array_largo [of vs n] escribe_array_corto [of n vs]
        by (auto simp: list_all_iff)
    next
      case (2 ms)
      then show ?thesis using Suc escribe_object [of ms n] by (fastforce simp: list_all_iff)
    qed
  qed (rule escribe_simple [OF Suc.prems])
qed simp

lemma toStyledString_texto:
  assumes "escribible n v"
  obtains b t where "blancos b" and "texto n v t" and "toStyledString v = b @ t @ [CHR 0x0A]"
proof -
  let ?w = "\<lparr>document = [], indentString = [], childValues = [], addChildValues = False\<rparr>"
  have "directo ?w" by (simp add: directo_def)
  then obtain b t where t: "blancos b" "texto n v t" "avance ?w (b @ t) (writeValue v ?w)"
    using escribe_escribible [OF assms] by (auto simp: escribe_def)
  moreover have "toStyledString v = b @ t @ [CHR 0x0A]"
    using t(3) by (simp add: toStyledString_def StyledWriter_write_def emitir_def avance_def)
  ultimately show ?thesis using that by blast
qed

lemma parse_toStyledString:
  assumes "escribible 1000 v"
  shows "parse (toStyledString v) root = Inr (True, v)"
proof -
  obtain b t where t: "blancos b" "texto 1000 v t" "toStyledString v = b @ t @ [CHR 0x0A]"
    using toStyledString_texto [OF assms] .
  moreover have "corta [CHR 0x0A]" by (simp add: corta_def isdigit_def)
  ultimately show ?thesis
    using reader_accepts(1) [OF t(2) _ t(1), of 0 "[CHR 0x0A]" root] by (simp add: parse_def)
qed

text \<open>One level of the bound, for concrete values.\<close>

lemma escribible_numeral:
  "escribible (numeral k) v =
     (case v of
        JInt i \<Rightarrow> minLargestInt \<le> i \<and> i \<le> int maxInt
      | JUInt k \<Rightarrow> maxInt < k \<and> k \<le> maxLargestUInt
      | JReal d \<Rightarrow> False
      | JArray vs \<Rightarrow> list_all (escribible (pred_numeral k)) vs
      | JObject ms \<Rightarrow>
          obj_ok ms \<and> list_all (\<lambda>(k', v). NUL \<notin> set k' \<and> escribible (pred_numeral k) v) ms
      | _ \<Rightarrow> True)"
  by (simp add: numeral_eq_Suc)

section \<open>Characters of a document\<close>

text \<open>Some character of a string or of a member name of the value satisfies the predicate.\<close>

fun alguna :: "(char \<Rightarrow> bool) \<Rightarrow> json \<Rightarrow> bool" where
  "alguna P (JString s) = (\<exists>c \<in> set s. P c)"
| "alguna P (JArray vs) = list_ex (alguna P) vs"
| "alguna P (JObject ms) = list_ex (\<lambda>(k, v). (\<exists>c \<in> set k. P c) \<or> alguna P v) ms"
| "alguna P _ = False"

abbreviation aparece :: "char \<Rightarrow> json \<Rightarrow> bool" where
  "aparece x \<equiv> alguna (\<lambda>c. c = x)"

text \<open>
  The character is not part of the syntax of documents, and the writer puts it into a string
  only for characters that satisfy the predicate.
\<close>

definition ajeno :: "char \<Rightarrow> (char \<Rightarrow> bool) \<Rightarrow> bool" where
  "ajeno x P \<longleftrightarrow> \<not> isdigit x \<and> \<not> es_blanco x \<and> x \<notin> set ''{}[],:-truefalsn'' \<and> x \<noteq> DQ \<and>
     (\<forall>c. x \<in> set (escapar c) \<longrightarrow> P c)"

lemma ajeno_escapar: "ajeno x P \<Longrightarrow> x \<in> set (concat (map escapar s)) \<Longrightarrow> \<exists>c \<in> set s. P c"
  by (auto simp: ajeno_def)

lemma ajeno_blancos: "ajeno x P \<Longrightarrow> blancos b \<Longrightarrow> x \<notin> set b"
  by (auto simp: ajeno_def list_all_iff)

lemma ajeno_digitos: "ajeno x P \<Longrightarrow> x \<notin> set (digitos n)"
  using digitos_digit [of n] by (auto simp: ajeno_def list_all_iff)

lemma ajeno_texto:
  assumes "ajeno x P"
  shows "texto n v t \<Longrightarrow> x \<in> set t \<Longrightarrow> alguna P v"
    and "elems n vs t \<Longrightarrow> x \<in> set t \<Longrightarrow> list_ex (alguna P) vs"
    and "miembros n ms t \<Longrightarrow> x \<in> set t \<Longrightarrow> list_ex (\<lambda>(k, v). (\<exists>c \<in> set k. P c) \<or> alguna P v) ms"
proof (induction rule: texto_elems_miembros.inducts)
  case (m_last n v t b b' b1 b2 k)
  then show ?case
    using assms ajeno_blancos [OF assms] ajeno_escapar [OF assms, of k] by (auto simp: ajeno_def)
next
  case (m_more n v t b b' b1 b2 ms u k)
  then show ?case
    using assms ajeno_blancos [OF assms] ajeno_escapar [OF assms, of k] by (auto simp: ajeno_def)
next
  case (e_last n v t b b')
  then show ?case using assms ajeno_blancos [OF assms] by (auto simp: ajeno_def)
next
  case (e_more n v t b b' vs u)
  then show ?case using assms ajeno_blancos [OF assms] by (auto simp: ajeno_def)
next
  case (t_string n s)
  then show ?case using assms ajeno_escapar [OF assms, of s] by (auto simp: ajeno_def)
qed (use assms ajeno_digitos [OF assms] in \<open>auto simp: ajeno_def\<close>)

lemma ajeno_toStyledString:
  assumes "ajeno x P" and "escribible n v" and "\<not> alguna P v"
  shows "x \<notin> set (toStyledString v)"
proof -
  obtain b t where "blancos b" "texto n v t" "toStyledString v = b @ t @ [CHR 0x0A]"
    using toStyledString_texto [OF assms(2)] .
  then show ?thesis
    using assms(1,3) ajeno_texto(1) [OF assms(1), of n v t] ajeno_blancos [OF assms(1), of b]
    by (auto simp: ajeno_def es_blanco_def)
qed

lemma hex4_hex: "x \<in> set (hex4 n) \<Longrightarrow> hex_valor x \<noteq> None"
  using HEX_digit_ok by (auto simp: hex4_def)

text \<open>The separator of the database, the percent sign of formats, and the end of C strings.\<close>

lemma ajeno_literal:
  assumes "x = CHR ''#'' \<or> x = CHR ''%''"
  shows "ajeno x (\<lambda>c. c = x)"
proof -
  have "x \<notin> set (hex4 n)" for n
    using assms hex4_hex [of x n] by (auto simp: hex_valor_def isdigit_def)
  then show ?thesis using assms by (auto simp: ajeno_def escapar_def es_blanco_def isdigit_def)
qed

lemma ajeno_NUL: "ajeno NUL (\<lambda>c. False)"
proof -
  have "NUL \<notin> set (hex4 n)" for n
    using hex4_hex [of NUL n] by (auto simp: hex_valor_def isdigit_def)
  then show ?thesis by (auto simp: ajeno_def escapar_def es_blanco_def isdigit_def)
qed

lemma alguna_False [simp]: "\<not> alguna (\<lambda>c. False) v"
proof (induction "\<lambda>c :: char. False" v rule: alguna.induct)
qed (auto simp: list_ex_iff)

lemma hash_toStyledString:
  "escribible n v \<Longrightarrow> \<not> aparece CHR ''#'' v \<Longrightarrow> CHR ''#'' \<notin> set (toStyledString v)"
  using ajeno_toStyledString ajeno_literal by blast

lemma percent_toStyledString:
  "escribible n v \<Longrightarrow> \<not> aparece CHR ''%'' v \<Longrightarrow> CHR ''%'' \<notin> set (toStyledString v)"
  using ajeno_toStyledString ajeno_literal by blast

lemma NUL_toStyledString: "escribible n v \<Longrightarrow> NUL \<notin> set (toStyledString v)"
  using ajeno_toStyledString [OF ajeno_NUL] by simp

section \<open>Properties\<close>



end
