(* ===== verification/Persistible.thy ===== *)
theory Persistible
  imports Loger Constantes Json_RoundTrip
begin

text \<open>
  What \<open>Persistible\<close> asks of an entity, \<open>serializar\<close> and \<open>deserealizar\<close>, as a contract: an
  entity is read back from its own text, and reading touches nothing but the log. The JSON
  objects the entities are written as share the lemma that gives them this round trip.
\<close>

section \<open>Objects filled member by member\<close>

lemma set_obj_ins_subset: "set (obj_ins k v ms) \<subseteq> insert (k, v) (set ms)"
  by (induction k v ms rule: obj_ins.induct) auto

lemma set_poner_todos: "set (objeto.poner_todos kvs ms) \<subseteq> set kvs \<union> set ms"
proof (induction kvs arbitrary: ms)
  case (Cons kv kvs)
  obtain k v where kv: "kv = (k, v)" by (cases kv)
  have "set (objeto.poner_todos kvs (obj_ins k v ms)) \<subseteq> set kvs \<union> set (obj_ins k v ms)" by (rule Cons)
  also have "\<dots> \<subseteq> set (kv # kvs) \<union> set ms" using set_obj_ins_subset [of k v ms] kv by auto
  finally show ?case by (simp add: kv)
qed simp

definition registro_ok :: "(string \<times> json) list \<Rightarrow> bool" where
  "registro_ok kvs \<longleftrightarrow> kvs \<noteq> [] \<and> distinct (map fst kvs) \<and>
     (\<forall>(k, v) \<in> set kvs. NUL \<notin> set k \<and> escribible 999 v)"

lemma escribible_registro: "registro_ok kvs \<Longrightarrow> escribible 1000 (JObject (objeto.poner_todos kvs []))"
  using objeto.inv_poner_todos [of "[]" kvs] set_poner_todos [of kvs "[]"]
  by (auto simp: escribible_numeral list_all_iff registro_ok_def)

lemma parse_registro:
  "registro_ok kvs \<Longrightarrow> parse (toStyledString (JObject (objeto.poner_todos kvs []))) root
    = Inr (True, JObject (objeto.poner_todos kvs []))"
  by (rule parse_toStyledString [OF escribible_registro])

lemma escribible_simples [simp]: "escribible 999 (JString s)" "escribible 999 (JBool b)"
  by (simp_all add: escribible_numeral)

lemma getString_registro:
  "registro_ok kvs \<Longrightarrow> (k, v) \<in> set kvs \<Longrightarrow>
     getString (JObject (objeto.poner_todos kvs [])) k = asString v"
  by (rule getString_poner_todos) (auto simp: registro_ok_def)

section \<open>The contract\<close>

locale persistible =
  fixes serializar :: "'e \<Rightarrow> string res"
    and deserealizar :: "string \<Rightarrow> 'e \<Rightarrow> (bool \<times> 'e) accion"
    and texto_de :: "'e \<Rightarrow> string"
  assumes serializa: "serializar e = Inr (texto_de e)"
    and ida_y_vuelta: "\<exists>w'. deserealizar (texto_de e) e0 w = Inr ((True, e), w') \<and> solo_log w w'"
begin

text \<open>The texts of several entities, read one after the other, give the entities in order.\<close>

lemma leer_todos:
  "\<exists>w'. para_cada (\<lambda>s. luego (deserealizar s e0) (\<lambda>(ok, e). ret e)) (map texto_de es) w = Inr (es, w')
     \<and> solo_log w w'"
proof (induction es arbitrary: w)
  case (Cons e es)
  from ida_y_vuelta [of e e0 w] obtain w1 where
    1: "deserealizar (texto_de e) e0 w = Inr ((True, e), w1)" "solo_log w w1" by blast
  from Cons.IH [of w1] obtain w2 where
    2: "para_cada (\<lambda>s. luego (deserealizar s e0) (\<lambda>(ok, e). ret e)) (map texto_de es) w1 = Inr (es, w2)"
      "solo_log w1 w2" by blast
  have f: "luego (deserealizar (texto_de e) e0) (\<lambda>(ok, e). ret e) w = Inr (e, w1)"
    using 1(1) by (simp add: luego_def)
  have "para_cada (\<lambda>s. luego (deserealizar s e0) (\<lambda>(ok, e). ret e)) (map texto_de (e # es)) w
      = Inr (e # es, w2)"
    unfolding list.map by (rule para_cada_Cons, rule f, rule 2(1))
  then show ?case using anotar.trans [OF 1(2) 2(2)] by blast
qed (auto simp: solo_log_refl)

lemma texto_inj:
  assumes "texto_de e = texto_de e'"
  shows "e = e'"
proof -
  obtain w where 1: "deserealizar (texto_de e) e mundo_ejemplo = Inr ((True, e), w)"
    using ida_y_vuelta [of e e mundo_ejemplo] by (elim exE conjE)
  obtain w' where 2: "deserealizar (texto_de e') e mundo_ejemplo = Inr ((True, e'), w')"
    using ida_y_vuelta [of e' e mundo_ejemplo] by (elim exE conjE)
  have "(Inr ((True, e), w) :: ((bool \<times> 'e) \<times> mundo) res) = Inr ((True, e'), w')"
    using 1 unfolding assms 2 by (rule sym)
  then show ?thesis by (simp only: sum.inject prod.inject)
qed

end

end
