(* ===== verification/Md5.thy ===== *)
theory Md5
  imports Prelude
begin

text \<open>
  The class \<open>MD5\<close> of \<open>Utilidades/md5.cpp\<close>: the round functions and the block
  transformation on 32-bit words, the streaming operations \<open>init\<close>, \<open>update\<close> and
  \<open>finalize\<close> with their 64-byte buffer and 64-bit counter, and the hexadecimal digest.
  \<open>md5_ref\<close> is the one-shot definition of the digest (pad the whole message, absorb it
  block by block); the streaming class computes the same, whatever the buffer held before
  \<open>init\<close> and however the message is cut into pieces.

  The \<open>unsigned\<close> counters are kept at their width. Positions inside one input are
  natural numbers, which is what \<open>unsigned\<close> computes for inputs shorter than
  \<open>2 ^ 32 - 64\<close> bytes.
\<close>

unbundle bit_operations_syntax

type_synonym uint1 = "8 word"
type_synonym uint4 = "32 word"
type_synonym md5_state = "uint4 \<times> uint4 \<times> uint4 \<times> uint4"

section \<open>Basic functions\<close>

definition md5_F :: "uint4 \<Rightarrow> uint4 \<Rightarrow> uint4 \<Rightarrow> uint4" where
  "md5_F x y z = (x AND y) OR (NOT x AND z)"

definition md5_G :: "uint4 \<Rightarrow> uint4 \<Rightarrow> uint4 \<Rightarrow> uint4" where
  "md5_G x y z = (x AND z) OR (y AND NOT z)"

definition md5_H :: "uint4 \<Rightarrow> uint4 \<Rightarrow> uint4 \<Rightarrow> uint4" where
  "md5_H x y z = x XOR y XOR z"

definition md5_I :: "uint4 \<Rightarrow> uint4 \<Rightarrow> uint4 \<Rightarrow> uint4" where
  "md5_I x y z = y XOR (x OR NOT z)"

definition rotate_left :: "uint4 \<Rightarrow> nat \<Rightarrow> uint4" where
  "rotate_left x n = push_bit n x OR drop_bit (32 - n) x"

definition FF :: "uint4 \<Rightarrow> uint4 \<Rightarrow> uint4 \<Rightarrow> uint4 \<Rightarrow> uint4 \<Rightarrow> nat \<Rightarrow> uint4 \<Rightarrow> uint4" where
  "FF a b c d x s ac = rotate_left (a + md5_F b c d + x + ac) s + b"

definition GG :: "uint4 \<Rightarrow> uint4 \<Rightarrow> uint4 \<Rightarrow> uint4 \<Rightarrow> uint4 \<Rightarrow> nat \<Rightarrow> uint4 \<Rightarrow> uint4" where
  "GG a b c d x s ac = rotate_left (a + md5_G b c d + x + ac) s + b"

definition HH :: "uint4 \<Rightarrow> uint4 \<Rightarrow> uint4 \<Rightarrow> uint4 \<Rightarrow> uint4 \<Rightarrow> nat \<Rightarrow> uint4 \<Rightarrow> uint4" where
  "HH a b c d x s ac = rotate_left (a + md5_H b c d + x + ac) s + b"

definition II :: "uint4 \<Rightarrow> uint4 \<Rightarrow> uint4 \<Rightarrow> uint4 \<Rightarrow> uint4 \<Rightarrow> nat \<Rightarrow> uint4 \<Rightarrow> uint4" where
  "II a b c d x s ac = rotate_left (a + md5_I b c d + x + ac) s + b"

section \<open>Words and bytes\<close>

fun md5_decode :: "uint1 list \<Rightarrow> uint4 list" where
  "md5_decode (b0 # b1 # b2 # b3 # bs) =
     (ucast b0 OR push_bit 8 (ucast b1) OR push_bit 16 (ucast b2) OR push_bit 24 (ucast b3))
       # md5_decode bs"
| "md5_decode _ = []"

fun md5_encode :: "uint4 list \<Rightarrow> uint1 list" where
  "md5_encode [] = []"
| "md5_encode (w # ws) =
     ucast (w AND 0xff) # ucast (drop_bit 8 w AND 0xff) #
     ucast (drop_bit 16 w AND 0xff) # ucast (drop_bit 24 w AND 0xff) # md5_encode ws"

section \<open>The block transformation\<close>

definition md5_round1 :: "md5_state \<Rightarrow> uint4 list \<Rightarrow> md5_state" where
  "md5_round1 st x = (case st of (a, b, c, d) \<Rightarrow>
     let a = FF a b c d (x ! 0) 7 0xd76aa478 in
     let d = FF d a b c (x ! 1) 12 0xe8c7b756 in
     let c = FF c d a b (x ! 2) 17 0x242070db in
     let b = FF b c d a (x ! 3) 22 0xc1bdceee in
     let a = FF a b c d (x ! 4) 7 0xf57c0faf in
     let d = FF d a b c (x ! 5) 12 0x4787c62a in
     let c = FF c d a b (x ! 6) 17 0xa8304613 in
     let b = FF b c d a (x ! 7) 22 0xfd469501 in
     let a = FF a b c d (x ! 8) 7 0x698098d8 in
     let d = FF d a b c (x ! 9) 12 0x8b44f7af in
     let c = FF c d a b (x ! 10) 17 0xffff5bb1 in
     let b = FF b c d a (x ! 11) 22 0x895cd7be in
     let a = FF a b c d (x ! 12) 7 0x6b901122 in
     let d = FF d a b c (x ! 13) 12 0xfd987193 in
     let c = FF c d a b (x ! 14) 17 0xa679438e in
     let b = FF b c d a (x ! 15) 22 0x49b40821 in
     (a, b, c, d))"

definition md5_round2 :: "md5_state \<Rightarrow> uint4 list \<Rightarrow> md5_state" where
  "md5_round2 st x = (case st of (a, b, c, d) \<Rightarrow>
     let a = GG a b c d (x ! 1) 5 0xf61e2562 in
     let d = GG d a b c (x ! 6) 9 0xc040b340 in
     let c = GG c d a b (x ! 11) 14 0x265e5a51 in
     let b = GG b c d a (x ! 0) 20 0xe9b6c7aa in
     let a = GG a b c d (x ! 5) 5 0xd62f105d in
     let d = GG d a b c (x ! 10) 9 0x2441453 in
     let c = GG c d a b (x ! 15) 14 0xd8a1e681 in
     let b = GG b c d a (x ! 4) 20 0xe7d3fbc8 in
     let a = GG a b c d (x ! 9) 5 0x21e1cde6 in
     let d = GG d a b c (x ! 14) 9 0xc33707d6 in
     let c = GG c d a b (x ! 3) 14 0xf4d50d87 in
     let b = GG b c d a (x ! 8) 20 0x455a14ed in
     let a = GG a b c d (x ! 13) 5 0xa9e3e905 in
     let d = GG d a b c (x ! 2) 9 0xfcefa3f8 in
     let c = GG c d a b (x ! 7) 14 0x676f02d9 in
     let b = GG b c d a (x ! 12) 20 0x8d2a4c8a in
     (a, b, c, d))"

definition md5_round3 :: "md5_state \<Rightarrow> uint4 list \<Rightarrow> md5_state" where
  "md5_round3 st x = (case st of (a, b, c, d) \<Rightarrow>
     let a = HH a b c d (x ! 5) 4 0xfffa3942 in
     let d = HH d a b c (x ! 8) 11 0x8771f681 in
     let c = HH c d a b (x ! 11) 16 0x6d9d6122 in
     let b = HH b c d a (x ! 14) 23 0xfde5380c in
     let a = HH a b c d (x ! 1) 4 0xa4beea44 in
     let d = HH d a b c (x ! 4) 11 0x4bdecfa9 in
     let c = HH c d a b (x ! 7) 16 0xf6bb4b60 in
     let b = HH b c d a (x ! 10) 23 0xbebfbc70 in
     let a = HH a b c d (x ! 13) 4 0x289b7ec6 in
     let d = HH d a b c (x ! 0) 11 0xeaa127fa in
     let c = HH c d a b (x ! 3) 16 0xd4ef3085 in
     let b = HH b c d a (x ! 6) 23 0x4881d05 in
     let a = HH a b c d (x ! 9) 4 0xd9d4d039 in
     let d = HH d a b c (x ! 12) 11 0xe6db99e5 in
     let c = HH c d a b (x ! 15) 16 0x1fa27cf8 in
     let b = HH b c d a (x ! 2) 23 0xc4ac5665 in
     (a, b, c, d))"

definition md5_round4 :: "md5_state \<Rightarrow> uint4 list \<Rightarrow> md5_state" where
  "md5_round4 st x = (case st of (a, b, c, d) \<Rightarrow>
     let a = II a b c d (x ! 0) 6 0xf4292244 in
     let d = II d a b c (x ! 7) 10 0x432aff97 in
     let c = II c d a b (x ! 14) 15 0xab9423a7 in
     let b = II b c d a (x ! 5) 21 0xfc93a039 in
     let a = II a b c d (x ! 12) 6 0x655b59c3 in
     let d = II d a b c (x ! 3) 10 0x8f0ccc92 in
     let c = II c d a b (x ! 10) 15 0xffeff47d in
     let b = II b c d a (x ! 1) 21 0x85845dd1 in
     let a = II a b c d (x ! 8) 6 0x6fa87e4f in
     let d = II d a b c (x ! 15) 10 0xfe2ce6e0 in
     let c = II c d a b (x ! 6) 15 0xa3014314 in
     let b = II b c d a (x ! 13) 21 0x4e0811a1 in
     let a = II a b c d (x ! 4) 6 0xf7537e82 in
     let d = II d a b c (x ! 11) 10 0xbd3af235 in
     let c = II c d a b (x ! 2) 15 0x2ad7d2bb in
     let b = II b c d a (x ! 9) 21 0xeb86d391 in
     (a, b, c, d))"

definition md5_transform :: "md5_state \<Rightarrow> uint1 list \<Rightarrow> md5_state" where
  "md5_transform st block =
     (let x = md5_decode block in
      case st of (a0, b0, c0, d0) \<Rightarrow>
      case md5_round4 (md5_round3 (md5_round2 (md5_round1 st x) x) x) x of (a, b, c, d) \<Rightarrow>
        (a0 + a, b0 + b, c0 + c, d0 + d))"

section \<open>The streaming class\<close>

record MD5 =
  finalized :: bool
  buffer :: "uint1 list"
  count_lo :: uint4
  count_hi :: uint4
  md5_st :: md5_state
  digest :: "uint1 list"

definition md5_ini :: md5_state where
  "md5_ini = (0x67452301, 0xefcdab89, 0x98badcfe, 0x10325476)"

definition md5_init :: "MD5 \<Rightarrow> MD5" where
  "md5_init m = m\<lparr>finalized := False, count_lo := 0, count_hi := 0, md5_st := md5_ini\<rparr>"

text \<open>\<open>memcpy(&dst[i], src, n)\<close> with \<open>n\<close> the length of \<open>src\<close>.\<close>

definition memcpy_at :: "uint1 list \<Rightarrow> nat \<Rightarrow> uint1 list \<Rightarrow> uint1 list" where
  "memcpy_at dst i s = take i dst @ s @ drop (i + length s) dst"

text \<open>The loop over the whole blocks of the input, from position \<open>i\<close> on.\<close>

function md5_bloques :: "md5_state \<Rightarrow> uint1 list \<Rightarrow> nat \<Rightarrow> md5_state \<times> nat" where
  "md5_bloques st input i =
     (if i + 64 \<le> length input
      then md5_bloques (md5_transform st (take 64 (drop i input))) input (i + 64)
      else (st, i))"
  by pat_completeness auto
termination
  by (relation "measure (\<lambda>(_, input, i). length input - i)") auto

declare md5_bloques.simps [simp del]

definition md5_update :: "MD5 \<Rightarrow> uint1 list \<Rightarrow> MD5" where
  "md5_update m input =
     (let len = of_nat (length input) :: uint4;
          index = unat (count_lo m div 8 mod 64);
          lo = count_lo m + push_bit 3 len;
          hi = (if lo < push_bit 3 len then count_hi m + 1 else count_hi m) + drop_bit 29 len;
          firstpart = 64 - index
      in if firstpart \<le> length input
         then
           (let buf = memcpy_at (buffer m) index (take firstpart input);
                (st, i) = md5_bloques (md5_transform (md5_st m) buf) input firstpart
            in m\<lparr>count_lo := lo, count_hi := hi, md5_st := st,
                 buffer := memcpy_at buf 0 (drop i input)\<rparr>)
         else m\<lparr>count_lo := lo, count_hi := hi, buffer := memcpy_at (buffer m) index input\<rparr>)"

definition md5_padding :: "uint1 list" where
  "md5_padding = 0x80 # replicate 63 0"

definition md5_finalize :: "MD5 \<Rightarrow> MD5" where
  "md5_finalize m =
     (if \<not> finalized m
      then
        (let bits = md5_encode [count_lo m, count_hi m];
             index = unat (count_lo m div 8 mod 64);
             padLen = (if index < 56 then 56 - index else 120 - index);
             m1 = md5_update m (take padLen md5_padding);
             m2 = md5_update m1 bits
         in case md5_st m2 of (a, b, c, d) \<Rightarrow>
              m2\<lparr>digest := md5_encode [a, b, c, d], buffer := replicate 64 0,
                 count_lo := 0, count_hi := 0, finalized := True\<rparr>)
      else m)"

section \<open>Digests as text\<close>

definition hex_digits :: string where
  "hex_digits = ''0123456789abcdef''"

definition hex_digit :: "nat \<Rightarrow> char" where
  "hex_digit n = hex_digits ! n"

definition hex02 :: "uint1 \<Rightarrow> string" where
  "hex02 b = [hex_digit (unat b div 16), hex_digit (unat b mod 16)]"

definition hexdigest :: "MD5 \<Rightarrow> string" where
  "hexdigest m = (if \<not> finalized m then [] else concat (map hex02 (digest m)))"

definition bytes_of :: "string \<Rightarrow> uint1 list" where
  "bytes_of s = map (\<lambda>c. of_nat (of_char c)) s"

text \<open>
  The constructor \<open>MD5(text)\<close> on storage whose previous contents are \<open>m\<close>, and the
  function \<open>md5\<close> with that storage zeroed.
\<close>

definition MD5_text :: "MD5 \<Rightarrow> string \<Rightarrow> MD5" where
  "MD5_text m text = md5_finalize (md5_update (md5_init m) (bytes_of text))"

definition md5_storage :: MD5 where
  "md5_storage = \<lparr>finalized = False, buffer = replicate 64 0, count_lo = 0, count_hi = 0,
     md5_st = (0, 0, 0, 0), digest = replicate 16 0\<rparr>"

definition md5 :: "string \<Rightarrow> string" where
  "md5 str = hexdigest (MD5_text md5_storage str)"

section \<open>The digest of a whole message\<close>

text \<open>
  The reference definition: pad the message with \<open>0x80\<close>, zeros and the bit length as
  eight little-endian bytes, and absorb it in blocks of 64 bytes.
\<close>

function absorber :: "md5_state \<Rightarrow> uint1 list \<Rightarrow> md5_state \<times> uint1 list" where
  "absorber st bs =
     (if 64 \<le> length bs then absorber (md5_transform st (take 64 bs)) (drop 64 bs) else (st, bs))"
  by pat_completeness auto
termination
  by (relation "measure (\<lambda>(_, bs). length bs)") auto

declare absorber.simps [simp del]

definition md5_relleno :: "uint1 list \<Rightarrow> uint1 list" where
  "md5_relleno msg =
     (let r = length msg mod 64; n = 8 * length msg;
          k = (if r < 56 then 55 - r else 119 - r)
      in msg @ 0x80 # replicate k 0 @ map (\<lambda>i. of_nat (n div 256 ^ i)) [0..<8])"

definition md5_ref :: "uint1 list \<Rightarrow> string" where
  "md5_ref msg =
     (case fst (absorber md5_ini (md5_relleno msg)) of
        (a, b, c, d) \<Rightarrow> concat (map hex02 (md5_encode [a, b, c, d])))"

text \<open>
  What the object holds after the bytes \<open>msg\<close> have been fed to it: the chaining state of
  the absorbed blocks, the rest at the start of the buffer, the bit count modulo \<open>2 ^ 64\<close>.
\<close>

definition md5_bits :: "MD5 \<Rightarrow> nat" where
  "md5_bits m = unat (count_hi m) * 2 ^ 32 + unat (count_lo m)"

definition representa :: "MD5 \<Rightarrow> uint1 list \<Rightarrow> bool" where
  "representa m msg \<longleftrightarrow>
     (let (st, resto) = absorber md5_ini msg in
      \<not> finalized m \<and> length (buffer m) = 64 \<and> md5_st m = st \<and>
      take (length resto) (buffer m) = resto \<and>
      md5_bits m = 8 * length msg mod 2 ^ 64)"

section \<open>Streaming computes the reference digest\<close>

lemma absorber_short [simp]: "length bs < 64 \<Longrightarrow> absorber st bs = (st, bs)"
  by (simp add: absorber.simps)

lemma absorber_block:
  "length b = 64 \<Longrightarrow> absorber st (b @ bs) = absorber (md5_transform st b) bs"
  by (simp add: absorber.simps [of st "b @ bs"])

lemma absorber_append:
  "absorber st (a @ b) = absorber (fst (absorber st a)) (snd (absorber st a) @ b)"
proof (induction st a rule: absorber.induct)
  case (1 st a)
  show ?case
  proof (cases "64 \<le> length a")
    case True
    have "absorber st (a @ b) = absorber (md5_transform st (take 64 a)) (drop 64 a @ b)"
      using True absorber_block [of "take 64 a" st "drop 64 a @ b"] by (simp flip: append_assoc)
    with 1 [OF True] True show ?thesis by (simp add: absorber.simps [of st a])
  qed simp
qed

lemma length_absorber: 
  "length (snd (absorber st bs)) = length bs mod 64"
proof (induction st bs rule: absorber.induct)
  case (1 st bs)
  then show ?case
    by (cases "64 \<le> length bs") (simp_all add: absorber.simps [of st bs] le_mod_geq)
qed

lemma md5_bloques_absorber:
  "i \<le> length input \<Longrightarrow>
   (case md5_bloques st input i of (st', j) \<Rightarrow> (st', drop j input)) = absorber st (drop i input)"
proof (induction st input i rule: md5_bloques.induct)
  case (1 st input i)
  show ?case
  proof (cases "i + 64 \<le> length input")
    case True
    have "drop i input = take 64 (drop i input) @ drop (i + 64) input"
      by (metis add.commute append_take_drop_id drop_drop)
    then have "absorber st (drop i input)
        = absorber (md5_transform st (take 64 (drop i input))) (drop (i + 64) input)"
      using True absorber_block [of "take 64 (drop i input)" st "drop (i + 64) input"] by simp
    with 1 True show ?thesis by (simp add: md5_bloques.simps [of st input i])
  next
    case False
    then show ?thesis by (simp add: md5_bloques.simps [of st input i])
  qed
qed

lemma index_eq:
  assumes "representa m msg"
  shows "unat (count_lo m div 8 mod 64) = length msg mod 64"
proof -
  have "unat (count_lo m) = md5_bits m mod 2 ^ 32"
    using unsigned_less [where ?'a = nat, of "count_lo m"] by (simp add: md5_bits_def)
  also have "\<dots> = 8 * length msg mod 2 ^ 32"
    using assms by (simp add: representa_def case_prod_beta Let_def mod_mod_cancel)
  also have "\<dots> = 8 * (length msg mod 2 ^ 29)"
    using mult_mod_right [of 8 "length msg" "2 ^ 29"] by simp
  finally have "unat (count_lo m) div 8 = length msg mod 2 ^ 29" by simp
  then show ?thesis
    by (simp add: unat_div unat_mod mod_mod_cancel)
qed



lemma unat_push3: "unat (push_bit 3 (of_nat n :: uint4)) = 8 * n mod 2 ^ 32"
proof -
  have "unat (push_bit 3 (of_nat n :: uint4)) = (n mod 2 ^ 32 * 8) mod 2 ^ 32"
    by (simp add: push_bit_eq_mult unat_word_ariths unsigned_of_nat take_bit_eq_mod)
  then show ?thesis
    by (metis mod_mult_left_eq mult.commute)
qed

lemma unat_drop29:
  "n < 2 ^ 32 \<Longrightarrow> unat (drop_bit 29 (of_nat n :: uint4)) = n div 2 ^ 29"
  by (simp add: drop_bit_eq_div unat_div unsigned_of_nat take_bit_eq_mod)

lemma carry32:
  fixes a b :: uint4
  shows "unat (a + b) + (if a + b < b then 2 ^ 32 else 0) = unat a + unat b"
  using unsigned_less [where ?'a = nat, of a] unsigned_less [where ?'a = nat, of b]
  by (auto simp: word_less_nat_alt unat_word_ariths mod_if)

lemma suma64:
  fixes hi lo n c lo' hi' :: nat
  assumes "lo' + c * 2 ^ 32 = lo + 8 * n mod 2 ^ 32"
    and "hi' = (hi + c + n div 2 ^ 29) mod 2 ^ 32" and "lo' < 2 ^ 32"
  shows "hi' * 2 ^ 32 + lo' = (hi * 2 ^ 32 + lo + 8 * n) mod 2 ^ 64"
proof -
  have n: "8 * n = n div 2 ^ 29 * 2 ^ 32 + 8 * n mod 2 ^ 32"
    using div_mult_mod_eq [of "8 * n" "2 ^ 32"] by simp
  then have "hi * 2 ^ 32 + lo + 8 * n = (hi + c + n div 2 ^ 29) * 2 ^ 32 + lo'"
    using assms(1) by (simp add: algebra_simps)
  also have "\<dots> mod 2 ^ 64 = (hi + c + n div 2 ^ 29) mod 2 ^ 32 * 2 ^ 32 + lo'"
  proof -
    have "(x * k + lo') mod (k * k) = x mod k * k + lo'" if "lo' < k" for x k :: nat
      using that by (simp add: mod_mult2_eq mult.commute)
    from this [OF assms(3), of "hi + c + n div 2 ^ 29"] show ?thesis by simp
  qed
  finally show ?thesis using assms(2) by simp
qed

lemma md5_bits_update:
  assumes "length input < 2 ^ 32"
  shows "md5_bits (md5_update m input) = (md5_bits m + 8 * length input) mod 2 ^ 64"
proof -
  define p where "p = push_bit 3 (of_nat (length input) :: uint4)"
  define c :: nat where "c = (if count_lo m + p < p then 1 else 0)"
  have lo: "count_lo (md5_update m input) = count_lo m + p"
    and hi: "count_hi (md5_update m input) =
      (if count_lo m + p < p then count_hi m + 1 else count_hi m) + drop_bit 29 (of_nat (length input))"
    by (simp_all add: md5_update_def p_def Let_def case_prod_beta)
  have "unat (count_hi (md5_update m input)) = (unat (count_hi m) + c + length input div 2 ^ 29) mod 2 ^ 32"
    using assms by (simp add: hi c_def unat_word_ariths unat_drop29 mod_simps)
  moreover have "unat (count_lo m + p) + c * 2 ^ 32 = unat (count_lo m) + 8 * length input mod 2 ^ 32"
    using carry32 [of "count_lo m" p] unat_push3 [of "length input"]
    by (simp add: c_def flip: p_def split: if_splits)
  ultimately show ?thesis
    unfolding md5_bits_def lo
    by (intro suma64) (use unsigned_less [where ?'a = nat, of "count_lo m + p"] in simp_all)
qed


lemma length_memcpy_at: "i + length x \<le> length dst \<Longrightarrow> length (memcpy_at dst i x) = length dst"
  by (simp add: memcpy_at_def)

lemma representa_update:
  assumes rep: "representa m msg" and len: "length input < 2 ^ 32"
  shows "representa (md5_update m input) (msg @ input)"
proof -
  obtain st resto where ab: "absorber md5_ini msg = (st, resto)" by fastforce
  define fp where "fp = 64 - length resto"
  have r: "length resto = length msg mod 64" using length_absorber [of md5_ini msg] ab by simp
  then have r64: "length resto < 64" by simp
  have m: "\<not> finalized m" "length (buffer m) = 64" "md5_st m = st"
      "take (length resto) (buffer m) = resto" "md5_bits m = 8 * length msg mod 2 ^ 64"
    using rep ab by (simp_all add: representa_def)
  have idx: "unat (count_lo m div 8 mod 64) = length resto"
    using index_eq [OF rep] r by simp
  have bits: "md5_bits (md5_update m input) = 8 * length (msg @ input) mod 2 ^ 64"
    using md5_bits_update [OF len, of m] m(5) by (simp add: mod_simps)
  have app: "absorber md5_ini (msg @ input) = absorber st (resto @ input)"
    using absorber_append [of md5_ini msg input] ab by simp
  show ?thesis
  proof (cases "fp \<le> length input")
    case True
    define buf where "buf = memcpy_at (buffer m) (length resto) (take fp input)"
    obtain st' i where bl: "md5_bloques (md5_transform st buf) input fp = (st', i)" by fastforce
    have buf: "buf = resto @ take fp input"
      using m(2,4) r64 True by (simp add: buf_def memcpy_at_def fp_def)
    have "absorber st (resto @ input) = absorber st (buf @ drop fp input)"
      by (simp add: buf)
    also have "\<dots> = absorber (md5_transform st buf) (drop fp input)"
      using True r64 by (intro absorber_block) (simp add: buf fp_def)
    also have "\<dots> = (st', drop i input)"
      using md5_bloques_absorber [OF True, of "md5_transform st buf"] bl by simp
    finally have ab': "absorber md5_ini (msg @ input) = (st', drop i input)" using app by simp
    have short: "length (drop i input) < 64"
      using length_absorber [of md5_ini "msg @ input"] ab' by simp
    have upd: "md5_st (md5_update m input) = st'" "finalized (md5_update m input) = finalized m"
      "buffer (md5_update m input) = memcpy_at buf 0 (drop i input)"
      using True bl m(3) by (simp_all add: md5_update_def Let_def idx flip: fp_def buf_def)
    have "length buf = 64" using buf True r64 by (simp add: fp_def)
    then show ?thesis
      using upd m short bits ab' by (simp add: representa_def memcpy_at_def)
  next
    case False
    then have lt: "length (resto @ input) < 64" by (simp add: fp_def)
    then have ab': "absorber md5_ini (msg @ input) = (st, resto @ input)" using app by simp
    have upd: "md5_st (md5_update m input) = st" "finalized (md5_update m input) = finalized m"
      "buffer (md5_update m input) = memcpy_at (buffer m) (length resto) input"
      using False m(3) by (simp_all add: md5_update_def Let_def idx flip: fp_def)
    then show ?thesis
      using m lt bits ab' by (simp add: representa_def memcpy_at_def)
  qed
qed

lemma representa_init:
  "length (buffer m) = 64 \<Longrightarrow> representa (md5_init m) []"
  by (simp add: representa_def md5_init_def md5_bits_def)

lemma byte_of_word:
  fixes w :: uint4
  shows "(ucast (drop_bit k w AND 0xff) :: uint1) = of_nat (unat w div 2 ^ k)"
proof -
  have ff: "(0xff :: uint4) = mask 8"
    by (simp add: mask_eq_exp_minus_1)
  have "(ucast (drop_bit k w AND 0xff) :: uint1) = ucast (drop_bit k w)"
    by (rule bit_word_eqI) (auto simp: ff bit_simps)
  also have "\<dots> = of_nat (unat (drop_bit k w))"
    by (simp add: unsigned_eq_0_iff)
  also have "unat (drop_bit k w) = unat w div 2 ^ k"
    by (simp only: unat_drop_bit_eq) (simp add: drop_bit_eq_div)
  finally show ?thesis .
qed


lemma of_nat_byte_mod: "(of_nat (n mod 256 ^ Suc k) :: uint1) = of_nat n"
proof (rule word_unat_eq_iff [THEN iffD2])
  show "unat (of_nat (n mod 256 ^ Suc k) :: uint1) = unat (of_nat n :: uint1)"
    by (simp add: unsigned_of_nat take_bit_eq_mod mod_mod_cancel)
qed

lemma of_nat_byte_div:
  assumes "i < k" 
  shows "(of_nat (n mod 256 ^ k div 256 ^ i) :: uint1) = of_nat (n div 256 ^ i)"
proof -
  obtain d where k: "k = i + Suc d" using assms less_iff_Suc_add by auto
  have "n mod 256 ^ k div 256 ^ i = n div 256 ^ i mod 256 ^ Suc d"
    unfolding k power_add by (simp only: mod_mult2_eq) simp
  then show ?thesis by (simp only: of_nat_byte_mod)
qed

lemma md5_encode_count:
  assumes "representa m msg" and "length msg < 2 ^ 32"
  shows "md5_encode [count_lo m, count_hi m] =
    map (\<lambda>i. of_nat (8 * length msg div 256 ^ i)) [0..<8]"
proof -
  let ?n = "8 * length msg"
  have n: "unat (count_hi m) * 2 ^ 32 + unat (count_lo m) = ?n"
    using assms by (simp add: representa_def md5_bits_def case_prod_beta Let_def)
  have lo: "unat (count_lo m) = ?n mod 256 ^ 4" and hi: "unat (count_hi m) = ?n div 256 ^ 4"
    using unsigned_less [where ?'a = nat, of "count_lo m"] by (simp_all flip: n)
  have eq: "md5_encode [w, v] = 
     [of_nat (unat w div 256 ^ 0), of_nat (unat w div 256 ^ 1), of_nat (unat w div 256 ^ 2), of_nat (unat w div 256 ^ 3),
      of_nat (unat v div 256 ^ 0), of_nat (unat v div 256 ^ 1), of_nat (unat v div 256 ^ 2), of_nat (unat v div 256 ^ 3)]" for w v
    using byte_of_word [of 0] byte_of_word [of 8] byte_of_word [of 16] byte_of_word [of 24] by simp
  show ?thesis
    unfolding eq lo hi
    by (simp only: of_nat_byte_div) (simp add: upt_rec flip: div_mult2_eq)
qed


lemma md5_finalize_ref:
  assumes rep: "representa m msg" and len: "length msg < 2 ^ 32"
  shows "hexdigest (md5_finalize m) = md5_ref msg"
proof -
  define r where "r = length msg mod 64"
  define pad where "pad = take (if r < 56 then 56 - r else 120 - r) md5_padding"
  define bits where "bits = md5_encode [count_lo m, count_hi m]"
  define m2 where "m2 = md5_update (md5_update m pad) bits"
  have r: "r < 64" by (simp add: r_def)
  then have pad: "pad = 0x80 # replicate (if r < 56 then 55 - r else 119 - r) 0"
    by (auto simp: pad_def md5_padding_def take_Cons' min_def)
  have bits: "bits = map (\<lambda>i. of_nat (8 * length msg div 256 ^ i)) [0..<8]"
    using md5_encode_count [OF rep len] by (simp add: bits_def)
  have "representa (md5_update m pad) (msg @ pad)"
    using rep by (rule representa_update) (simp add: pad, arith)
  then have "representa m2 ((msg @ pad) @ bits)"
    unfolding m2_def by (rule representa_update) (simp add: bits)
  moreover have "(msg @ pad) @ bits = md5_relleno msg"
    by (simp add: md5_relleno_def pad bits r_def Let_def)
  ultimately have "md5_st m2 = fst (absorber md5_ini (md5_relleno msg))"
    by (simp add: representa_def case_prod_beta Let_def)
  moreover have "\<not> finalized m" using rep by (simp add: representa_def case_prod_beta Let_def)
  ultimately show ?thesis
    by (simp add: md5_finalize_def md5_ref_def index_eq [OF rep] hexdigest_def case_prod_beta Let_def
        del: md5_encode.simps flip: r_def pad_def bits_def m2_def)
qed

lemma representa_updates:
  assumes "representa m msg" and "length (concat chunks) < 2 ^ 32"
  shows "representa (foldl md5_update m chunks) (msg @ concat chunks)"
  using assms
proof (induction chunks arbitrary: m msg)
  case (Cons c cs)
  then have "representa (md5_update m c) (msg @ c)"
    by (intro representa_update) simp_all
  with Cons.IH [of "md5_update m c" "msg @ c"] Cons.prems(2) show ?case by simp
qed simp

lemma md5_updates_ref:
  assumes "length (buffer m) = 64" and "length (concat chunks) < 2 ^ 32"
  shows "hexdigest (md5_finalize (foldl md5_update (md5_init m) chunks)) = md5_ref (concat chunks)"
  using representa_updates [OF representa_init [OF assms(1)] assms(2)] assms(2)
  by (intro md5_finalize_ref) simp_all

lemma md5_eq_ref: "length s < 2 ^ 32 \<Longrightarrow> md5 s = md5_ref (bytes_of s)"
  using md5_updates_ref [of md5_storage "[bytes_of s]"]
  by (simp add: md5_def MD5_text_def md5_storage_def bytes_of_def)

section \<open>Shape of a digest\<close>

lemma length_concat_hex02: "length (concat (map hex02 bs)) = 2 * length bs"
  by (induction bs) (simp_all add: hex02_def)

lemma set_concat_hex02: "set (concat (map hex02 bs)) \<subseteq> set hex_digits"
proof -
  have "hex_digit n \<in> set hex_digits" if "n < 16" for n
    unfolding hex_digit_def using that by (intro nth_mem) (simp add: hex_digits_def)
  moreover have "unat b div 16 < 16" for b :: uint1
    using unsigned_less [where ?'a = nat, of b] by simp
  ultimately have "set (hex02 b) \<subseteq> set hex_digits" for b :: uint1
    by (simp add: hex02_def)
  then show ?thesis by auto
qed

lemma finalized_md5_update [simp]: "finalized (md5_update m i) = finalized m"
  by (simp add: md5_update_def Let_def case_prod_beta)

lemma length_md5_encode [simp]: "length (md5_encode ws) = 4 * length ws"
  by (induction ws) simp_all

lemma md5_finalize_digest:
  assumes "\<not> finalized m"
  shows "finalized (md5_finalize m)" and "length (digest (md5_finalize m)) = 16"
  using assms by (simp_all add: md5_finalize_def Let_def case_prod_beta del: md5_encode.simps)

lemma md5_concat: "\<exists>bs. length bs = 16 \<and> md5 s = concat (map hex02 bs)"
  using md5_finalize_digest [of "md5_update (md5_init md5_storage) (bytes_of s)"]
  by (auto simp: md5_def hexdigest_def MD5_text_def md5_init_def)

lemma length_md5 [simp]: "length (md5 s) = 32"
  using md5_concat [of s] length_concat_hex02 by auto

lemma set_md5: "set (md5 s) \<subseteq> set hex_digits"
  using md5_concat [of s] set_concat_hex02 by metis

section \<open>Properties\<close>



text \<open>
  C25: every digest, which the server uses as identifier of users and messages and as token, is a
  text of 32 characters, all of them lower-case hexadecimal digits.
\<close>
theorem md5_digest_shape: "length (md5 s) = 32 \<and> set (md5 s) \<subseteq> set ''0123456789abcdef''"
  using set_md5 [of s] length_md5 [of s] unfolding hex_digits_def by blast

end
