(* ===== verification/Mensaje.thy ===== *)
theory Mensaje
  imports Persistible Md5
begin

text \<open>
  The messages of a conversation (\<open>Entidades/Mensaje\<close>): construction with the digest of the
  sender and the date as identifier, and the JSON text a message is stored and sent as.
\<close>

section \<open>Definitions\<close>

record Mensaje =
  cuerpo :: string
  idUsuarioEmisor :: string
  fecha :: string
  mensaje_id :: string

definition Mensaje_vacio :: Mensaje where
  "Mensaje_vacio = \<lparr>cuerpo = [], idUsuarioEmisor = [], fecha = [], mensaje_id = []\<rparr>"

definition Mensaje_new :: "string \<Rightarrow> string \<Rightarrow> string \<Rightarrow> Mensaje" where
  "Mensaje_new c emisor f =
     \<lparr>cuerpo = c, idUsuarioEmisor = emisor, fecha = f, mensaje_id = md5 (emisor @ f)\<rparr>"

definition Mensaje_campos :: "Mensaje \<Rightarrow> (string \<times> json) list" where
  "Mensaje_campos m =
     [(keyId, JString (mensaje_id m)), (keyCuerpo, JString (cuerpo m)),
      (keyIdUsuarioEmisor, JString (idUsuarioEmisor m)), (keyFecha, JString (fecha m))]"

definition Mensaje_serializar :: "Mensaje \<Rightarrow> string res" where
  "Mensaje_serializar m = bnd (json_sets (Mensaje_campos m) JNull) (\<lambda>j. Inr (toStyledString j))"

definition Mensaje_deserealizar :: "string \<Rightarrow> Mensaje \<Rightarrow> (bool \<times> Mensaje) accion" where
  "Mensaje_deserealizar aDeserealizar this =
     luego (eleva (parse aDeserealizar JNull)) (\<lambda>(parseoExitoso, mensaje).
     luego
       (if parseoExitoso then
          luego (eleva (getString mensaje keyId)) (\<lambda>i.
          luego (eleva (getString mensaje keyCuerpo)) (\<lambda>c.
          luego (eleva (getString mensaje keyIdUsuarioEmisor)) (\<lambda>e.
          luego (eleva (getString mensaje keyFecha)) (\<lambda>f.
          ret \<lparr>cuerpo = c, idUsuarioEmisor = e, fecha = f, mensaje_id = i\<rparr>))))
        else
          luego (Loger_warn ''no se pudieron deserializar los datos correctamente del mensaje'')
            (\<lambda>_. ret this)) (\<lambda>m.
     luego guardarEstado (\<lambda>_. ret (parseoExitoso, m))))"

text \<open>The constructor from a stored text.\<close>

definition Mensaje_de_texto :: "string \<Rightarrow> Mensaje accion" where
  "Mensaje_de_texto s = luego (Mensaje_deserealizar s Mensaje_vacio) (\<lambda>(ok, m). ret m)"

section \<open>A message is read back from its text\<close>

definition Mensaje_texto :: "Mensaje \<Rightarrow> string" where
  "Mensaje_texto m = toStyledString (JObject (objeto.poner_todos (Mensaje_campos m) []))"

lemma Mensaje_registro_ok: "registro_ok (Mensaje_campos m)"
  by (simp add: registro_ok_def Mensaje_campos_def)

lemma Mensaje_getString:
  "getString (JObject (objeto.poner_todos (Mensaje_campos m) [])) keyId = Inr (mensaje_id m)"
  "getString (JObject (objeto.poner_todos (Mensaje_campos m) [])) keyCuerpo = Inr (cuerpo m)"
  "getString (JObject (objeto.poner_todos (Mensaje_campos m) [])) keyIdUsuarioEmisor = Inr (idUsuarioEmisor m)"
  "getString (JObject (objeto.poner_todos (Mensaje_campos m) [])) keyFecha = Inr (fecha m)"
  by (subst getString_registro [OF Mensaje_registro_ok], simp add: Mensaje_campos_def, simp add: asString_def)+

interpretation mensaje: persistible Mensaje_serializar Mensaje_deserealizar Mensaje_texto
proof
  fix m m0 :: Mensaje and w :: mundo
  show "Mensaje_serializar m = Inr (Mensaje_texto m)"
    using Mensaje_registro_ok [of m]
    by (simp add: Mensaje_serializar_def Mensaje_texto_def json_sets_JNull registro_ok_def)
  show "\<exists>w'. Mensaje_deserealizar (Mensaje_texto m) m0 w = Inr ((True, m), w') \<and> solo_log w w'"
    by (simp add: Mensaje_deserealizar_def Mensaje_texto_def parse_registro [OF Mensaje_registro_ok]
        Mensaje_getString luego_def anota_solo_log)
qed

section \<open>Properties\<close>

text \<open>
  A message, whatever bytes its fields hold, is read back unchanged from the text
  \<open>serializar\<close> gives it, the reading is reported as successful, and nothing but the log changes.
\<close>
theorem mensaje_round_trip:
  "\<exists>s w'. Mensaje_serializar m = Inr s \<and> Mensaje_deserealizar s m0 w = Inr ((True, m), w') \<and> solo_log w w'"
  using mensaje.serializa [of m] mensaje.ida_y_vuelta [of m m0 w] by auto

end
