(* ===== verification/Usuario.thy ===== *)
theory Usuario
  imports Mensaje
begin

text \<open>
  The users (\<open>Entidades/Usuario\<close>): the constructors, the session token, and the JSON text a
  user is stored as. What involves the database is in the theory of \<open>BaseDeDatos\<close>.
\<close>

section \<open>Definitions\<close>

record Usuario =
  nombre :: string
  fotoDePerfil :: string
  usuario_id :: string
  telefono :: string
  conectado :: bool
  localizacion :: string
  ultimaConexion :: string
  token :: string
  password :: string

text \<open>A user as the member initialisers leave it, before the constructor's body runs.\<close>

definition Usuario_vacio :: Usuario where
  "Usuario_vacio =
     \<lparr>nombre = [], fotoDePerfil = ''default'', usuario_id = [], telefono = [], conectado = True,
      localizacion = ''desconocida'', ultimaConexion = [], token = [], password = []\<rparr>"

definition Usuario_invalido :: Usuario where
  "Usuario_invalido = Usuario_vacio\<lparr>usuario_id := keyIdUsuarioNoEncontrado\<rparr>"

definition registrarUltimaConexion :: "Usuario \<Rightarrow> Usuario accion" where
  "registrarUltimaConexion u = luego ctime_actual (\<lambda>t. ret (u\<lparr>ultimaConexion := t\<rparr>))"

definition Usuario_new4 :: "string \<Rightarrow> string \<Rightarrow> string \<Rightarrow> string \<Rightarrow> Usuario accion" where
  "Usuario_new4 n foto tel pass =
     luego (registrarUltimaConexion
       (Usuario_vacio\<lparr>nombre := n, fotoDePerfil := foto, telefono := tel, usuario_id := md5 tel\<rparr>))
     (\<lambda>u. ret (u\<lparr>token := [], password := pass\<rparr>))"

definition Usuario_new :: "string \<Rightarrow> string \<Rightarrow> string \<Rightarrow> Usuario accion" where
  "Usuario_new n tel pass =
     luego (registrarUltimaConexion
       (Usuario_vacio\<lparr>nombre := n, fotoDePerfil := fotoDePerfilDefault, telefono := tel,
          usuario_id := md5 tel\<rparr>))
     (\<lambda>u. ret (u\<lparr>token := [], password := pass\<rparr>))"

definition obtenerId :: "string \<Rightarrow> string" where
  "obtenerId tel = md5 tel"

text \<open>The new token, and the user that now holds it.\<close>

definition calcularTokenDeSesion :: "Usuario \<Rightarrow> string \<times> Usuario" where
  "calcularTokenDeSesion u =
     (let t = md5 (telefono u @ ultimaConexion u) in (t, u\<lparr>token := t\<rparr>))"

definition Usuario_campos :: "Usuario \<Rightarrow> (string \<times> json) list" where
  "Usuario_campos u =
     [(keyId, JString (usuario_id u)), (keyNombre, JString (nombre u)),
      (keyTelefono, JString (telefono u)), (keyEstadoDeConexion, JBool (conectado u)),
      (keyUltimaConexion, JString (ultimaConexion u)), (keyFotoDePerfil, JString (fotoDePerfil u)),
      (keyLocalizacion, JString (localizacion u)), (keyTokenSesion, JString (token u)),
      (keyPassword, JString (password u))]"

definition Usuario_serializar :: "Usuario \<Rightarrow> string res" where
  "Usuario_serializar u = bnd (json_sets (Usuario_campos u) JNull) (\<lambda>j. Inr (toStyledString j))"

definition Usuario_deserealizar :: "string \<Rightarrow> Usuario \<Rightarrow> (bool \<times> Usuario) accion" where
  "Usuario_deserealizar aDeserealizar this =
     luego (eleva (parse aDeserealizar JNull)) (\<lambda>(parseoExitoso, user).
     luego
       (if parseoExitoso then
          luego (eleva (getString user keyId)) (\<lambda>i.
          luego (eleva (getString user keyNombre)) (\<lambda>n.
          luego (eleva (getString user keyTelefono)) (\<lambda>tel.
          luego (eleva (getString user keyEstadoDeConexion)) (\<lambda>estado.
          luego (eleva (getString user keyUltimaConexion)) (\<lambda>uc.
          luego (eleva (getString user keyFotoDePerfil)) (\<lambda>foto.
          luego (eleva (getString user keyLocalizacion)) (\<lambda>loc.
          luego (eleva (getString user keyTokenSesion)) (\<lambda>tok.
          luego (eleva (getString user keyPassword)) (\<lambda>pass.
          ret \<lparr>nombre = n, fotoDePerfil = foto, usuario_id = i, telefono = tel,
               conectado = toBoolean estado, localizacion = loc, ultimaConexion = uc,
               token = tok, password = pass\<rparr>)))))))))
        else
          luego (Loger_error ''no se pudieron deserializar los datos correctamente'') (\<lambda>_. ret this))
     (\<lambda>u. luego guardarEstado (\<lambda>_. ret (parseoExitoso, u))))"

text \<open>The constructor from a stored text.\<close>

definition Usuario_de_texto :: "string \<Rightarrow> Usuario accion" where
  "Usuario_de_texto s = luego (Usuario_deserealizar s Usuario_vacio) (\<lambda>(ok, u). ret u)"

section \<open>A user is read back from its text\<close>

definition Usuario_texto :: "Usuario \<Rightarrow> string" where
  "Usuario_texto u = toStyledString (JObject (objeto.poner_todos (Usuario_campos u) []))"

lemma Usuario_registro_ok: "registro_ok (Usuario_campos u)"
  by (simp add: registro_ok_def Usuario_campos_def)

lemma Usuario_getString_mem:
  "(k, v) \<in> set (Usuario_campos u) \<Longrightarrow>
     getString (JObject (objeto.poner_todos (Usuario_campos u) [])) k = asString v"
  by (rule getString_registro [OF Usuario_registro_ok])

lemma Usuario_getString:
  "getString (JObject (objeto.poner_todos (Usuario_campos u) [])) keyId = Inr (usuario_id u)"
  "getString (JObject (objeto.poner_todos (Usuario_campos u) [])) keyNombre = Inr (nombre u)"
  "getString (JObject (objeto.poner_todos (Usuario_campos u) [])) keyTelefono = Inr (telefono u)"
  "getString (JObject (objeto.poner_todos (Usuario_campos u) [])) keyEstadoDeConexion
     = Inr (if conectado u then ''true'' else ''false'')"
  "getString (JObject (objeto.poner_todos (Usuario_campos u) [])) keyUltimaConexion = Inr (ultimaConexion u)"
  "getString (JObject (objeto.poner_todos (Usuario_campos u) [])) keyFotoDePerfil = Inr (fotoDePerfil u)"
  "getString (JObject (objeto.poner_todos (Usuario_campos u) [])) keyLocalizacion = Inr (localizacion u)"
  "getString (JObject (objeto.poner_todos (Usuario_campos u) [])) keyTokenSesion = Inr (token u)"
  "getString (JObject (objeto.poner_todos (Usuario_campos u) [])) keyPassword = Inr (password u)"
  by (subst Usuario_getString_mem, simp add: Usuario_campos_def, simp add: asString_def)+

interpretation usuario: persistible Usuario_serializar Usuario_deserealizar Usuario_texto
proof
  fix u u0 :: Usuario and w :: mundo
  show "Usuario_serializar u = Inr (Usuario_texto u)"
    using Usuario_registro_ok [of u]
    by (simp add: Usuario_serializar_def Usuario_texto_def json_sets_JNull registro_ok_def)
  show "\<exists>w'. Usuario_deserealizar (Usuario_texto u) u0 w = Inr ((True, u), w') \<and> solo_log w w'"
    by (simp add: Usuario_deserealizar_def Usuario_texto_def parse_registro [OF Usuario_registro_ok]
        Usuario_getString luego_def anota_solo_log toBoolean_def toLower_def)
qed

section \<open>Properties\<close>

text \<open>
  A user, whatever bytes its fields hold, is read back unchanged from the text
  \<open>serializar\<close> gives it: name, photo, identifier, phone, connection state, place, last
  connection, token and password; nothing but the log changes.
\<close>
theorem usuario_round_trip:
  "\<exists>s w'. Usuario_serializar u = Inr s \<and> Usuario_deserealizar s u0 w = Inr ((True, u), w') \<and> solo_log w w'"
  using usuario.serializa [of u] usuario.ida_y_vuelta [of u u0 w] by auto

end
