(* ===== verification/BaseDeDatos.thy ===== *)
theory BaseDeDatos
  imports Usuario
begin

text \<open>
  \<open>BaseDeDatos\<close>: the singleton, the access to single keys, and the users, with the
  operations of \<open>Usuario\<close> that go through it. The conversations are in the theory of
  \<open>Conversacion\<close>, which needs the users.
\<close>

section \<open>Definitions\<close>

abbreviation claveBaseUsuario :: string where "claveBaseUsuario \<equiv> ''usuario_''"
abbreviation claveBaseConversacion :: string where "claveBaseConversacion \<equiv> ''conversacion_''"
abbreviation claveBaseConversacionesPorUsuario :: string where
  "claveBaseConversacionesPorUsuario \<equiv> ''conversaciones_por_usuario_''"

text \<open>The keys of the three kinds of data.\<close>

definition clave_usuario :: "string \<Rightarrow> string" where
  "clave_usuario clave = claveBaseUsuario @ clave"

definition clave_conversacion :: "string \<Rightarrow> string" where
  "clave_conversacion clave = claveBaseConversacion @ clave"

definition clave_indice :: "string \<Rightarrow> string" where
  "clave_indice clave = claveBaseConversacionesPorUsuario @ clave"

text \<open>The constructor: when the database cannot be opened, the error is logged and the object remains.\<close>

definition BaseDeDatos_new :: "unit accion" where
  "BaseDeDatos_new w =
     (if bd_abre w then Inr ((), w)
      else luego (Loger_error (''No se pudo abrir la Base De Datos con path: '' @ bd_path w))
             (\<lambda>_. guardarEstado) w)"

definition getInstance :: "unit accion" where
  "getInstance w =
     (if bd_instancia w then Inr ((), w)
      else luego (modifica (\<lambda>w. w\<lparr>bd_instancia := True\<rparr>)) (\<lambda>_. BaseDeDatos_new) w)"

definition setPath :: "string \<Rightarrow> unit accion" where
  "setPath path = modifica (\<lambda>w. w\<lparr>bd_path := path\<rparr>)"

text \<open>A call on the database handle: with a database that was not opened the handle is no object.\<close>

definition usar_db :: "(DBImpl \<Rightarrow> 'a \<times> DBImpl) \<Rightarrow> 'a accion" where
  "usar_db f w =
     (if bd_abre w then (case f (bd w) of (x, d) \<Rightarrow> Inr (x, w\<lparr>bd := d\<rparr>))
      else Inl (Indefinido ''db is not open''))"

definition setDato :: "string \<Rightarrow> string \<Rightarrow> unit accion" where
  "setDato clave valor =
     luego (usar_db (DB_Put clave valor)) (\<lambda>estado.
       if estado \<noteq> OK
       then luego (Loger_warn (''No se pudo guardar el objeto con clave: '' @ clave)) (\<lambda>_. guardarEstado)
       else ret ())"

definition getDato :: "string \<Rightarrow> string accion" where
  "getDato clave =
     luego (usar_db (\<lambda>d. case DB_Get clave [] d of (estado, valor, d') \<Rightarrow> ((estado, valor), d')))
       (\<lambda>(estado, valor). ret (if estado = NotFound then keyDatoNoEncontrado else valor))"

definition bd_eliminar :: "string \<Rightarrow> unit accion" where
  "bd_eliminar clave =
     luego (usar_db (DB_Delete clave)) (\<lambda>estado.
       if estado \<noteq> OK
       then luego (Loger_warn ('' No se pudo eliminar el objeto con clave: '' @ clave)) (\<lambda>_. guardarEstado)
       else ret ())"

definition setUsuario :: "Usuario \<Rightarrow> unit accion" where
  "setUsuario u = luego (eleva (Usuario_serializar u)) (\<lambda>s. setDato (clave_usuario (usuario_id u)) s)"

definition getUsuario :: "string \<Rightarrow> Usuario accion" where
  "getUsuario clave =
     luego (getDato (clave_usuario clave)) (\<lambda>valor.
       if valor = keyDatoNoEncontrado
       then luego (Loger_warn (''El usuario con clave: '' @ clave @ '' no se encuentra en la base de datos.''))
              (\<lambda>_. luego guardarEstado (\<lambda>_. ret Usuario_invalido))
       else Usuario_de_texto valor)"

definition eliminarUsuario :: "string \<Rightarrow> unit accion" where
  "eliminarUsuario clave = bd_eliminar (clave_usuario clave)"

definition Usuario_persistir :: "Usuario \<Rightarrow> unit accion" where
  "Usuario_persistir u = luego getInstance (\<lambda>_. setUsuario u)"

definition Usuario_obtener :: "string \<Rightarrow> Usuario accion" where
  "Usuario_obtener clave = luego getInstance (\<lambda>_. getUsuario clave)"

definition obtenerPorTelefono :: "string \<Rightarrow> Usuario accion" where
  "obtenerPorTelefono clave = luego getInstance (\<lambda>_. getUsuario (obtenerId clave))"

definition Usuario_eliminar :: "string \<Rightarrow> unit accion" where
  "Usuario_eliminar clave = luego getInstance (\<lambda>_. eliminarUsuario clave)"

section \<open>Keys never clash\<close>

lemma clave_inj [simp]:
  "clave_usuario k = clave_usuario k' \<longleftrightarrow> k = k'"
  "clave_conversacion k = clave_conversacion k' \<longleftrightarrow> k = k'"
  "clave_indice k = clave_indice k' \<longleftrightarrow> k = k'"
  by (simp_all add: clave_usuario_def clave_conversacion_def clave_indice_def)

lemma clave_disjunta [simp]:
  "clave_usuario k \<noteq> clave_conversacion k'" "clave_conversacion k' \<noteq> clave_usuario k"
  "clave_usuario k \<noteq> clave_indice k'" "clave_indice k' \<noteq> clave_usuario k"
  "clave_conversacion k \<noteq> clave_indice k'" "clave_indice k' \<noteq> clave_conversacion k"
  by (simp_all add: clave_usuario_def clave_conversacion_def clave_indice_def)

section \<open>Effect on the stored data\<close>

definition dato :: "mundo \<Rightarrow> string \<Rightarrow> string option" where
  "dato w = contenido (bd w)"

definition bd_sana :: "mundo \<Rightarrow> bool" where
  "bd_sana w \<longleftrightarrow> bd_abre w \<and> sano (bd w)"

text \<open>
  From \<open>w\<close> to \<open>w'\<close> the stored data changes by \<open>f\<close> (if the database works), and besides it
  only the log, the singletons and the number of clock readings change.
\<close>

definition cambia :: "((string \<Rightarrow> string option) \<Rightarrow> string \<Rightarrow> string option) \<Rightarrow> mundo \<Rightarrow> mundo \<Rightarrow> bool" where
  "cambia f w w' \<longleftrightarrow> (bd_sana w \<longrightarrow> bd_sana w' \<and> dato w' = f (dato w)) \<and>
     bd_abre w' = bd_abre w \<and> lugares w' = lugares w \<and> salida w' = salida w \<and>
     consola w' = consola w \<and> reloj w' = reloj w \<and> lecturas w \<le> lecturas w'"

definition nada :: "(string \<Rightarrow> string option) \<Rightarrow> string \<Rightarrow> string option" where
  "nada m = m"

lemma nada_comp [simp]: "g \<circ> nada = g" "nada \<circ> f = f"
  by (simp_all add: nada_def fun_eq_iff)

abbreviation solo_lee :: "mundo \<Rightarrow> mundo \<Rightarrow> bool" where
  "solo_lee \<equiv> cambia nada"

lemma cambia_trans: "cambia f w w1 \<Longrightarrow> cambia g w1 w2 \<Longrightarrow> cambia (g \<circ> f) w w2"
  by (auto simp: cambia_def)

lemma cambia_solo_log: "solo_log w w' \<Longrightarrow> solo_lee w w'"
  by (simp add: solo_log_def cambia_def bd_sana_def dato_def nada_def)

interpretation lee: preorden solo_lee
  by unfold_locales (auto simp: cambia_def nada_def)

text \<open>
  \<open>hace m w x f\<close>: run on \<open>w\<close>, the operation returns, with result \<open>x\<close>, and changes the
  stored data by \<open>f\<close>.
\<close>

definition hace :: "'a accion \<Rightarrow> mundo \<Rightarrow> 'a \<Rightarrow> ((string \<Rightarrow> string option) \<Rightarrow> string \<Rightarrow> string option) \<Rightarrow> bool" where
  "hace m w x f \<longleftrightarrow> (\<exists>w'. m w = Inr (x, w') \<and> cambia f w w')"

lemma haceE:
  assumes "hace m w x f" obtains w' where "m w = Inr (x, w')" and "cambia f w w'"
  using assms by (auto simp: hace_def)

lemma hace_ret: "hace (ret x) w x nada"
  by (simp add: hace_def lee.refl)

lemma hace_luego:
  assumes "hace m w x f" and "\<And>w1. cambia f w w1 \<Longrightarrow> hace (k x) w1 y g"
  shows "hace (luego m k) w y (g \<circ> f)"
  using assms cambia_trans [of f w _ g] by (fastforce simp: hace_def luego_def)

text \<open>The same when the second part only reads, or the first one does.\<close>

lemma hace_luego_lee:
  assumes "hace m w x nada" and "\<And>w1. solo_lee w w1 \<Longrightarrow> hace (k x) w1 y g"
  shows "hace (luego m k) w y g"
  using hace_luego [of m w x nada k y g, OF assms] by simp

lemma hace_luego_escribe:
  assumes "hace m w x f" and "\<And>w1. cambia f w w1 \<Longrightarrow> hace (k x) w1 y nada"
  shows "hace (luego m k) w y f"
  using hace_luego [of m w x f k y nada, OF assms] by simp

lemma hace_anota: "anota m \<Longrightarrow> hace m w () nada"
  using anota_tras [of m w] anota_solo_log [of m w] cambia_solo_log by (auto simp: hace_def)

lemma hace_eleva: "hace (eleva (Inr x)) w x nada"
  by (simp add: hace_def lee.refl)

lemma cambia_sana: "cambia f w w' \<Longrightarrow> bd_sana w \<Longrightarrow> bd_sana w'"
  and cambia_dato: "cambia f w w' \<Longrightarrow> bd_sana w \<Longrightarrow> dato w' = f (dato w)"
  by (simp_all add: cambia_def)

lemma solo_lee_dato: "solo_lee w w' \<Longrightarrow> bd_sana w \<Longrightarrow> dato w' = dato w"
  by (simp add: cambia_def nada_def)

lemma hace_getInstance: "bd_sana w \<Longrightarrow> hace getInstance w () nada"
  by (simp add: hace_def getInstance_def BaseDeDatos_new_def luego_def bd_sana_def cambia_def dato_def nada_def)

lemma hace_setDato:
  assumes "bd_sana w"
  shows "hace (setDato k v) w () (\<lambda>m. m(k \<mapsto> v))"
proof -
  obtain d where "DB_Put k v (bd w) = (OK, d)" "sano d" "contenido d = (contenido (bd w))(k \<mapsto> v)"
    using assms DB_Put_sano [of "bd w" k v] by (auto simp: bd_sana_def)
  then show ?thesis
    using assms by (simp add: hace_def setDato_def usar_db_def luego_def cambia_def bd_sana_def dato_def)
qed

lemma hace_getDato:
  assumes "bd_sana w"
  shows "hace (getDato k) w (case dato w k of None \<Rightarrow> keyDatoNoEncontrado | Some v \<Rightarrow> v) nada"
proof -
  obtain d where "sano d" "contenido d = contenido (bd w)" "DB_Get k [] (bd w)
      = (case contenido (bd w) k of None \<Rightarrow> (NotFound, [], d) | Some v \<Rightarrow> (OK, v, d))"
    using assms DB_Get_sano [of "bd w" k "[]"] by (auto simp: bd_sana_def)
  then show ?thesis
    using assms
    by (simp add: hace_def getDato_def usar_db_def luego_def cambia_def bd_sana_def dato_def nada_def
        split: option.splits)
qed

lemma hace_eliminar:
  assumes "bd_sana w"
  shows "hace (bd_eliminar k) w () (\<lambda>m. m(k := None))"
proof -
  obtain st d where r: "DB_Delete k (bd w) = (st, d)" by (metis prod.exhaust)
  have ok: "rocksdb_ok (bd w)" "bg_error (bd w) = OK" "\<forall>n. env_ok (bd w) n"
    using assms by (simp_all add: bd_sana_def sano_def)
  have "st = OK" and "sano d"
    using r ok rocks.borrar_inv [of "bd w" k]
    by (auto simp: DB_Delete_def DBImpl_Write_def Let_def sano_def)
  moreover from this have "contenido d = (contenido (bd w))(k := None)"
    using rocks.borrar_contenido [OF ok(1), of k] r by simp
  ultimately show ?thesis
    using assms r by (simp add: hace_def bd_eliminar_def usar_db_def luego_def cambia_def bd_sana_def dato_def)
qed

section \<open>Users\<close>

lemma toStyledString_no_NotFound: "toStyledString v \<noteq> keyDatoNoEncontrado"
proof -
  have "last (toStyledString v) = CHR 0x0A"
    by (simp add: toStyledString_def StyledWriter_write_def emitir_def)
  moreover have "last keyDatoNoEncontrado = CHR ''d''" by simp
  ultimately show ?thesis by force
qed

lemma Usuario_texto_no_NotFound [simp]: "Usuario_texto u \<noteq> keyDatoNoEncontrado"
  unfolding Usuario_texto_def by (rule toStyledString_no_NotFound)

lemma hace_Usuario_de_texto: "hace (Usuario_de_texto (Usuario_texto u)) w u nada"
  using usuario.ida_y_vuelta [of u Usuario_vacio w] cambia_solo_log
  by (fastforce simp: hace_def Usuario_de_texto_def luego_def)

lemma hace_setUsuario:
  "bd_sana w \<Longrightarrow> hace (setUsuario u) w () (\<lambda>m. m(clave_usuario (usuario_id u) \<mapsto> Usuario_texto u))"
  unfolding setUsuario_def usuario.serializa
  by (rule hace_luego_lee [OF hace_eleva]) (simp add: hace_setDato cambia_sana)

lemma hace_getUsuario:
  assumes "bd_sana w" and "dato w (clave_usuario k) = Some (Usuario_texto u)"
  shows "hace (getUsuario k) w u nada"
  unfolding getUsuario_def
  using assms(2)
  by (intro hace_luego_lee [OF hace_getDato [OF assms(1)]]) (simp add: hace_Usuario_de_texto)

lemma hace_getUsuario_no:
  assumes "bd_sana w" and "dato w (clave_usuario k) = None"
  shows "hace (getUsuario k) w Usuario_invalido nada"
  unfolding getUsuario_def using assms(2)
  by (intro hace_luego_lee [OF hace_getDato [OF assms(1)]])
    (auto intro!: hace_luego_lee [OF hace_anota] hace_ret)

lemma hace_Usuario_persistir:
  "bd_sana w \<Longrightarrow> hace (Usuario_persistir u) w () (\<lambda>m. m(clave_usuario (usuario_id u) \<mapsto> Usuario_texto u))"
  unfolding Usuario_persistir_def
  by (rule hace_luego_lee [OF hace_getInstance]) (simp_all add: hace_setUsuario cambia_sana)

lemma hace_Usuario_obtener:
  assumes "bd_sana w" and "dato w (clave_usuario k) = Some (Usuario_texto u)"
  shows "hace (Usuario_obtener k) w u nada"
  unfolding Usuario_obtener_def
  by (rule hace_luego_lee [OF hace_getInstance])
    (simp_all add: assms hace_getUsuario cambia_sana solo_lee_dato)

lemma hace_Usuario_obtener_no:
  assumes "bd_sana w" and "dato w (clave_usuario k) = None"
  shows "hace (Usuario_obtener k) w Usuario_invalido nada"
  unfolding Usuario_obtener_def
  by (rule hace_luego_lee [OF hace_getInstance])
    (simp_all add: assms hace_getUsuario_no cambia_sana solo_lee_dato)

lemma obtenerPorTelefono_eq: "obtenerPorTelefono t = Usuario_obtener (md5 t)"
  by (simp add: obtenerPorTelefono_def Usuario_obtener_def obtenerId_def)

lemma hace_Usuario_eliminar:
  "bd_sana w \<Longrightarrow> hace (Usuario_eliminar k) w () (\<lambda>m. m(clave_usuario k := None))"
  unfolding Usuario_eliminar_def eliminarUsuario_def
  by (rule hace_luego_lee [OF hace_getInstance]) (simp_all add: hace_eliminar cambia_sana)

section \<open>A read that fails\<close>

text \<open>
  An empty text is no document: the reader fails and leaves the user as the initialisers
  made it.
\<close>

lemma parse_vacio: "parse [] root = Inr (False, root)"
  by (simp add: parse_def readValue.simps [of 0] skipCommentTokens.simps [of "[]"] readToken_def skipSpaces_def)

lemma Usuario_de_texto_vacio: "\<exists>w'. Usuario_de_texto [] w = Inr (Usuario_vacio, w') \<and> solo_log w w'"
proof -
  let ?w1 = "tras (Loger_error ''no se pudieron deserializar los datos correctamente'') w"
  have "Usuario_de_texto [] w = Inr (Usuario_vacio, tras guardarEstado ?w1)"
    by (simp add: Usuario_de_texto_def Usuario_deserealizar_def luego_def parse_vacio)
  then show ?thesis
    using anotar.trans [OF anota_solo_log anota_solo_log] anota_loger by blast
qed

section \<open>Properties\<close>

text \<open>
  C23: on a working database, storing a user with \<open>persistir\<close> and asking for its identifier
  gives back exactly that user, every other key keeps its value, and after \<open>eliminar\<close> the
  identifier is answered with the invalid user.
\<close>
theorem usuario_persistir_obtener:
  assumes "bd_sana w"
  shows "\<exists>w1 w2 w3 w4. Usuario_persistir u w = Inr ((), w1) \<and>
    Usuario_obtener (usuario_id u) w1 = Inr (u, w2) \<and>
    dato w2 = (dato w)(clave_usuario (usuario_id u) \<mapsto> Usuario_texto u) \<and>
    Usuario_eliminar (usuario_id u) w2 = Inr ((), w3) \<and>
    Usuario_obtener (usuario_id u) w3 = Inr (Usuario_invalido, w4)"
proof -
  obtain w1 where 1: "Usuario_persistir u w = Inr ((), w1)"
    "cambia (\<lambda>m. m(clave_usuario (usuario_id u) \<mapsto> Usuario_texto u)) w w1"
    using hace_Usuario_persistir [OF assms] by (rule haceE)
  note s1 = cambia_sana [OF 1(2) assms] and d1 = cambia_dato [OF 1(2) assms]
  obtain w2 where 2: "Usuario_obtener (usuario_id u) w1 = Inr (u, w2)" "solo_lee w1 w2"
    using hace_Usuario_obtener [OF s1, of "usuario_id u" u] d1 by (auto elim: haceE)
  note s2 = cambia_sana [OF 2(2) s1] and d2 = solo_lee_dato [OF 2(2) s1]
  obtain w3 where 3: "Usuario_eliminar (usuario_id u) w2 = Inr ((), w3)"
    "cambia (\<lambda>m. m(clave_usuario (usuario_id u) := None)) w2 w3"
    using hace_Usuario_eliminar [OF s2] by (rule haceE)
  obtain w4 where "Usuario_obtener (usuario_id u) w3 = Inr (Usuario_invalido, w4)"
    using hace_Usuario_obtener_no [OF cambia_sana [OF 3(2) s2], of "usuario_id u"] cambia_dato [OF 3(2) s2]
    by (auto elim: haceE)
  then show ?thesis using 1(1) 2(1) 3(1) d1 d2 by auto
qed

lemma bd_sana_ejemplo [simp]: "bd_sana mundo_ejemplo"
  by (simp add: bd_sana_def mundo_ejemplo_def mundo_inicial_def)

lemma dato_ejemplo [simp]: "dato mundo_ejemplo = Map.empty"
  by (simp add: dato_def mundo_ejemplo_def mundo_inicial_def)

theorem usuario_persistir_obtener_witness:
  "\<exists>w1 w2. Usuario_persistir Usuario_vacio mundo_ejemplo = Inr ((), w1) \<and>
     Usuario_obtener [] w1 = Inr (Usuario_vacio, w2)"
  using usuario_persistir_obtener [of mundo_ejemplo Usuario_vacio]
  by (auto simp: Usuario_vacio_def)

text \<open>
  C26: when a read of the database fails with an I/O error, \<open>getUsuario\<close> does not answer with
  the invalid user: it returns a user with an empty identifier, which every caller takes for
  a registered one, since they compare the identifier with the one of the invalid user.
\<close>
theorem getUsuario_read_error:
  assumes "bd_abre w" and "DB_Get (clave_usuario k) [] (bd w) = (IOError, [], d)"
  shows "\<exists>w'. getUsuario k w = Inr (Usuario_vacio, w') \<and> usuario_id Usuario_vacio \<noteq> keyIdUsuarioNoEncontrado"
proof -
  have "getDato (clave_usuario k) w = Inr ([], w\<lparr>bd := d\<rparr>)"
    using assms by (simp add: getDato_def usar_db_def luego_def)
  then show ?thesis
    using Usuario_de_texto_vacio [of "w\<lparr>bd := d\<rparr>"]
    by (auto simp: getUsuario_def luego_def Usuario_vacio_def)
qed

theorem getUsuario_read_error_witness:
  "\<exists>w'. getUsuario ''x'' (mundo_ejemplo\<lparr>bd := DBImpl_nueva\<lparr>env_ok := (\<lambda>n. False)\<rparr>\<rparr>) = Inr (Usuario_vacio, w')"
  using getUsuario_read_error [of "mundo_ejemplo\<lparr>bd := DBImpl_nueva\<lparr>env_ok := (\<lambda>n. False)\<rparr>\<rparr>" "''x''"]
  by (simp add: mundo_ejemplo_def mundo_inicial_def DB_Get_def DBImpl_nueva_def MemTable_vacia_def
      MemTable_Get_def)

end
