(* ===== verification/Conversacion.thy ===== *)
theory Conversacion
  imports BaseDeDatos
begin

text \<open>
  The conversations (\<open>Entidades/Conversacion\<close>) and the part of \<open>BaseDeDatos\<close> that stores
  them: a conversation is kept as the identifiers of its users and the texts of its messages,
  joined with the separator, and every user has an index of the conversations it takes part in.
\<close>

section \<open>Definitions\<close>

record Conversacion =
  conversacion_id :: string
  mensajes :: "Mensaje list"
  usuarios :: "Usuario list"

definition Conversacion_getId :: "Conversacion \<Rightarrow> string" where
  "Conversacion_getId c =
     (if conversacion_id c \<noteq> [] then conversacion_id c else unir CHR ''-'' (map usuario_id (usuarios c)))"

definition Conversacion_new :: "Usuario list \<Rightarrow> Mensaje list \<Rightarrow> Conversacion" where
  "Conversacion_new us ms =
     (let c = \<lparr>conversacion_id = [], mensajes = ms, usuarios = us\<rparr>
      in c\<lparr>conversacion_id := Conversacion_getId c\<rparr>)"

definition Conversacion_vacia :: Conversacion where
  "Conversacion_vacia = \<lparr>conversacion_id = [], mensajes = [], usuarios = []\<rparr>"

definition Conversacion_invalida :: Conversacion where
  "Conversacion_invalida = Conversacion_vacia\<lparr>conversacion_id := keyIdConversacionNoEncontrada\<rparr>"

definition agregarMensaje :: "Mensaje \<Rightarrow> Conversacion \<Rightarrow> Conversacion" where
  "agregarMensaje m c = c\<lparr>mensajes := mensajes c @ [m]\<rparr>"

definition Conversacion_campos :: "Conversacion \<Rightarrow> string list \<Rightarrow> (string \<times> json) list" where
  "Conversacion_campos c ms =
     [(keyIdConversacion, JString (Conversacion_getId c)),
      (keyIdsUsuarios, JString (unir SeparadorListaBD (map usuario_id (usuarios c)))),
      (keyMensajes, JString (unir SeparadorListaBD ms))]"

definition Conversacion_serializar :: "Conversacion \<Rightarrow> string res" where
  "Conversacion_serializar c =
     bnd (mapM Mensaje_serializar (mensajes c)) (\<lambda>ms.
     bnd (json_sets (Conversacion_campos c ms) JNull) (\<lambda>j. Inr (toStyledString j)))"

definition Conversacion_deserealizar :: "string \<Rightarrow> Conversacion \<Rightarrow> (bool \<times> Conversacion) accion" where
  "Conversacion_deserealizar aDeserealizar this =
     luego (eleva (parse aDeserealizar JNull)) (\<lambda>(parseoExitoso, conversacion).
       if parseoExitoso then
         luego (eleva (getString conversacion keyIdConversacion)) (\<lambda>i.
         luego (eleva (getString conversacion keyIdsUsuarios)) (\<lambda>idsUsuarios.
         luego (para_cada Usuario_obtener (split idsUsuarios SeparadorListaBD)) (\<lambda>us.
         luego (eleva (getString conversacion keyMensajes)) (\<lambda>mensajesSerializados.
         luego (para_cada Mensaje_de_texto (split mensajesSerializados SeparadorListaBD)) (\<lambda>ms.
         ret (True, \<lparr>conversacion_id = i, mensajes = ms, usuarios = us\<rparr>))))))
       else ret (False, this))"

definition Conversacion_de_texto :: "string \<Rightarrow> Conversacion accion" where
  "Conversacion_de_texto s = luego (Conversacion_deserealizar s Conversacion_vacia) (\<lambda>(ok, c). ret c)"

text \<open>One turn of the loop of \<open>setConversacion\<close>: the index of a participant.\<close>

definition agregar_a_indice :: "string \<Rightarrow> Usuario \<Rightarrow> unit accion" where
  "agregar_a_indice idc u =
     luego (getDato (clave_indice (usuario_id u))) (\<lambda>valor.
     let idsConversaciones = split valor SeparadorListaBD;
         valor' = (if \<not> vectorContiene idsConversaciones idc then valor @ SeparadorListaBD # idc else valor)
     in setDato (clave_indice (usuario_id u)) valor')"

definition setConversacion :: "Conversacion \<Rightarrow> unit accion" where
  "setConversacion c =
     luego (eleva (Conversacion_serializar c)) (\<lambda>s.
     luego (setDato (clave_conversacion (Conversacion_getId c)) s) (\<lambda>_.
     luego (para_cada (agregar_a_indice (Conversacion_getId c)) (usuarios c)) (\<lambda>_. ret ())))"

definition getIdsConversacionPorIdUsuario :: "string \<Rightarrow> string list accion" where
  "getIdsConversacionPorIdUsuario claveUsuario =
     luego (getDato (clave_indice claveUsuario)) (\<lambda>valor. ret (split valor SeparadorListaBD))"

definition getConversacion :: "string \<Rightarrow> Conversacion accion" where
  "getConversacion clave =
     luego (getDato (clave_conversacion clave)) (\<lambda>valor.
       if valor = keyDatoNoEncontrado
       then luego (Loger_warn (''La conversaci'' @ [CHR 0xC3, CHR 0xB3] @ ''n con clave: '' @ clave
                @ '' no se encuentra en la base de datos.''))
              (\<lambda>_. luego guardarEstado (\<lambda>_. ret Conversacion_invalida))
       else Conversacion_de_texto valor)"

definition eliminarConversacion :: "string \<Rightarrow> unit accion" where
  "eliminarConversacion clave = bd_eliminar (clave_conversacion clave)"

definition Conversacion_persistir :: "Conversacion \<Rightarrow> unit accion" where
  "Conversacion_persistir c = luego getInstance (\<lambda>_. setConversacion c)"

definition Conversacion_obtener :: "string \<Rightarrow> Conversacion accion" where
  "Conversacion_obtener clave = luego getInstance (\<lambda>_. getConversacion clave)"

definition obtenerIdsPorIdUsuario :: "string \<Rightarrow> string list accion" where
  "obtenerIdsPorIdUsuario claveUsuario =
     luego getInstance (\<lambda>_. getIdsConversacionPorIdUsuario claveUsuario)"

definition Conversacion_eliminar :: "string \<Rightarrow> unit accion" where
  "Conversacion_eliminar clave = luego getInstance (\<lambda>_. eliminarConversacion clave)"

definition obtnerIdsConversaciones :: "Usuario \<Rightarrow> string list accion" where
  "obtnerIdsConversaciones u = obtenerIdsPorIdUsuario (usuario_id u)"

section \<open>A conversation is read back from its text\<close>

definition Conversacion_texto :: "Conversacion \<Rightarrow> string" where
  "Conversacion_texto c =
     toStyledString (JObject (objeto.poner_todos (Conversacion_campos c (map Mensaje_texto (mensajes c))) []))"

definition sin_separador :: "Mensaje \<Rightarrow> bool" where
  "sin_separador m \<longleftrightarrow> SeparadorListaBD \<notin> set (cuerpo m) \<union> set (idUsuarioEmisor m) \<union> set (fecha m) \<union> set (mensaje_id m)"

definition guardado :: "mundo \<Rightarrow> Usuario \<Rightarrow> bool" where
  "guardado w u \<longleftrightarrow> dato w (clave_usuario (usuario_id u)) = Some (Usuario_texto u) \<and>
     usuario_id u \<noteq> [] \<and> SeparadorListaBD \<notin> set (usuario_id u)"

definition conversacion_ok :: "mundo \<Rightarrow> Conversacion \<Rightarrow> bool" where
  "conversacion_ok w c \<longleftrightarrow> (\<forall>u \<in> set (usuarios c). guardado w u) \<and> (\<forall>m \<in> set (mensajes c). sin_separador m)"

lemma Conversacion_registro_ok: "registro_ok (Conversacion_campos c ms)"
  by (simp add: registro_ok_def Conversacion_campos_def)

lemma Conversacion_serializar_texto: "Conversacion_serializar c = Inr (Conversacion_texto c)"
proof -
  have "mapM Mensaje_serializar (mensajes c) = Inr (map Mensaje_texto (mensajes c))"
    by (simp add: mensaje.serializa [abs_def] cong: mapM_cong)
  then show ?thesis
    using Conversacion_registro_ok [of c "map Mensaje_texto (mensajes c)"]
    by (simp add: Conversacion_serializar_def Conversacion_texto_def json_sets_JNull registro_ok_def)
qed

lemma Conversacion_getString:
  "getString (JObject (objeto.poner_todos (Conversacion_campos c ms) [])) keyIdConversacion
     = Inr (Conversacion_getId c)"
  "getString (JObject (objeto.poner_todos (Conversacion_campos c ms) [])) keyIdsUsuarios
     = Inr (unir SeparadorListaBD (map usuario_id (usuarios c)))"
  "getString (JObject (objeto.poner_todos (Conversacion_campos c ms) [])) keyMensajes
     = Inr (unir SeparadorListaBD ms)"
  by (subst getString_registro [OF Conversacion_registro_ok], simp add: Conversacion_campos_def, simp add: asString_def)+

lemma Mensaje_texto_separador:
  assumes "sin_separador m"
  shows "SeparadorListaBD \<notin> set (Mensaje_texto m) \<and> Mensaje_texto m \<noteq> []"
proof
  let ?j = "JObject (objeto.poner_todos (Mensaje_campos m) [])"
  have "escribible 1000 ?j"
    by (rule escribible_registro [OF Mensaje_registro_ok])
  moreover have "\<not> aparece SeparadorListaBD ?j"
    using assms set_poner_todos [of "Mensaje_campos m" "[]"]
    by (auto simp: list_ex_iff sin_separador_def Mensaje_campos_def)
  ultimately show "SeparadorListaBD \<notin> set (Mensaje_texto m)"
    unfolding Mensaje_texto_def by (rule hash_toStyledString)
  show "Mensaje_texto m \<noteq> []"
    by (simp add: Mensaje_texto_def toStyledString_def StyledWriter_write_def emitir_def)
qed

lemma hace_para_cada_map:
  assumes "\<And>x w1. x \<in> set xs \<Longrightarrow> solo_lee w w1 \<Longrightarrow> hace (f (h x)) w1 (g x) nada"
  shows "hace (para_cada f (map h xs)) w (map g xs) nada"
  using assms
proof (induction xs arbitrary: w)
  case (Cons x xs)
  have 1: "hace (f (h x)) w (g x) nada" by (rule Cons.prems) (simp, rule lee.refl)
  show ?case
    unfolding list.map para_cada.simps
  proof (rule hace_luego_lee [OF 1])
    fix w1 assume w1: "solo_lee w w1"
    have "hace (para_cada f (map h xs)) w1 (map g xs) nada"
      by (rule Cons.IH) (use Cons.prems lee.trans [OF w1] in auto)
    then show "hace (luego (para_cada f (map h xs)) (\<lambda>ys. ret (g x # ys))) w1 (g x # map g xs) nada"
      by (rule hace_luego_lee) (rule hace_ret)
  qed
qed (simp add: hace_ret)

lemmas hace_para_cada = hace_para_cada_map [where g = "\<lambda>x. x", simplified]

lemma hace_Mensaje_de_texto: "hace (Mensaje_de_texto (Mensaje_texto m)) w m nada"
  using mensaje.ida_y_vuelta [of m Mensaje_vacio w] cambia_solo_log
  by (fastforce simp: hace_def Mensaje_de_texto_def luego_def)

lemma hace_obtener_guardado: "bd_sana w \<Longrightarrow> guardado w u \<Longrightarrow> hace (Usuario_obtener (usuario_id u)) w u nada"
  by (rule hace_Usuario_obtener) (simp_all add: guardado_def)

lemma guardado_lee: "solo_lee w w' \<Longrightarrow> bd_sana w \<Longrightarrow> guardado w' u = guardado w u"
  by (simp add: guardado_def solo_lee_dato)

lemma hace_Conversacion_deserealizar:
  assumes "bd_sana w" and "conversacion_ok w c"
  shows "hace (Conversacion_deserealizar (Conversacion_texto c) c0) w
    (True, c\<lparr>conversacion_id := Conversacion_getId c\<rparr>) nada"
proof -
  let ?ms = "map Mensaje_texto (mensajes c)" and ?ids = "map usuario_id (usuarios c)"
  have us: "split (unir SeparadorListaBD ?ids) SeparadorListaBD = ?ids"
    using assms(2) by (intro split_unir) (auto simp: conversacion_ok_def guardado_def)
  have ms: "split (unir SeparadorListaBD ?ms) SeparadorListaBD = ?ms"
    using assms(2) Mensaje_texto_separador by (intro split_unir) (auto simp: conversacion_ok_def)
  have obt: "hace (para_cada Usuario_obtener ?ids) w (usuarios c) nada"
  proof (rule hace_para_cada)
    fix u w1 assume u: "u \<in> set (usuarios c)" and r: "solo_lee w w1"
    show "hace (Usuario_obtener (usuario_id u)) w1 u nada"
      using assms(2) u cambia_sana [OF r assms(1)] guardado_lee [OF r assms(1), of u]
      by (simp add: hace_obtener_guardado conversacion_ok_def)
  qed
  have msj: "hace (para_cada Mensaje_de_texto ?ms) w1 (mensajes c) nada" for w1
    by (rule hace_para_cada) (rule hace_Mensaje_de_texto)
  have "hace (luego (para_cada Usuario_obtener ?ids) (\<lambda>us. luego (para_cada Mensaje_de_texto ?ms)
      (\<lambda>ms. ret (True, \<lparr>conversacion_id = Conversacion_getId c, mensajes = ms, usuarios = us\<rparr>)))) w
      (True, \<lparr>conversacion_id = Conversacion_getId c, mensajes = mensajes c, usuarios = usuarios c\<rparr>) nada"
    by (rule hace_luego_lee [OF obt], rule hace_luego_lee [OF msj], rule hace_ret)
  moreover have "\<lparr>conversacion_id = Conversacion_getId c, mensajes = mensajes c, usuarios = usuarios c\<rparr>
      = c\<lparr>conversacion_id := Conversacion_getId c\<rparr>" by (cases c) simp
  ultimately show ?thesis
    unfolding Conversacion_deserealizar_def Conversacion_texto_def
    by (simp add: parse_registro [OF Conversacion_registro_ok] Conversacion_getString us ms)
qed

lemma Conversacion_texto_no_NotFound [simp]: "Conversacion_texto c \<noteq> keyDatoNoEncontrado"
  unfolding Conversacion_texto_def by (rule toStyledString_no_NotFound)

lemma conversacion_ok_lee: "solo_lee w w' \<Longrightarrow> bd_sana w \<Longrightarrow> conversacion_ok w' c = conversacion_ok w c"
  by (simp add: conversacion_ok_def guardado_lee)

lemma hace_Conversacion_obtener:
  assumes "bd_sana w" and "conversacion_ok w c"
    and "dato w (clave_conversacion k) = Some (Conversacion_texto c)"
  shows "hace (Conversacion_obtener k) w (c\<lparr>conversacion_id := Conversacion_getId c\<rparr>) nada"
  unfolding Conversacion_obtener_def getConversacion_def
proof (rule hace_luego_lee [OF hace_getInstance [OF assms(1)]])
  fix w1 assume r: "solo_lee w w1"
  note s1 = cambia_sana [OF r assms(1)] and d1 = solo_lee_dato [OF r assms(1)]
  have "hace (Conversacion_de_texto (Conversacion_texto c)) w2 (c\<lparr>conversacion_id := Conversacion_getId c\<rparr>) nada"
    if "solo_lee w1 w2" for w2
    unfolding Conversacion_de_texto_def
    using hace_Conversacion_deserealizar [OF cambia_sana [OF that s1], of c] assms(1,2)
      conversacion_ok_lee [OF lee.trans [OF r that]]
    by (intro hace_luego_lee) (auto intro: hace_ret)
  then show "hace (luego (getDato (clave_conversacion k)) (\<lambda>valor.
       if valor = keyDatoNoEncontrado
       then luego (Loger_warn (''La conversaci'' @ [CHR 0xC3, CHR 0xB3] @ ''n con clave: '' @ k
                @ '' no se encuentra en la base de datos.''))
              (\<lambda>_. luego guardarEstado (\<lambda>_. ret Conversacion_invalida))
       else Conversacion_de_texto valor)) w1 (c\<lparr>conversacion_id := Conversacion_getId c\<rparr>) nada"
    using d1 assms(3) by (intro hace_luego_lee [OF hace_getDato [OF s1]]) simp
qed

lemma hace_Conversacion_obtener_no:
  assumes "bd_sana w" and "dato w (clave_conversacion k) = None"
  shows "hace (Conversacion_obtener k) w Conversacion_invalida nada"
  unfolding Conversacion_obtener_def getConversacion_def
  by (rule hace_luego_lee [OF hace_getInstance [OF assms(1)]], rule hace_luego_lee [OF hace_getDato])
    (use assms in \<open>auto simp: cambia_sana solo_lee_dato intro!: hace_luego_lee [OF hace_anota] hace_ret\<close>)

section \<open>Storing a conversation\<close>

text \<open>What the stored data looks like after a participant's index was updated.\<close>

definition agrega_indice :: "string \<Rightarrow> string \<Rightarrow> (string \<Rightarrow> string option) \<Rightarrow> string \<Rightarrow> string option" where
  "agrega_indice idc uid m =
     (let valor = (case m (clave_indice uid) of None \<Rightarrow> keyDatoNoEncontrado | Some v \<Rightarrow> v)
      in m(clave_indice uid \<mapsto>
           if idc \<in> set (split valor SeparadorListaBD) then valor else valor @ SeparadorListaBD # idc))"

lemma hace_agregar_a_indice:
  assumes "bd_sana w"
  shows "hace (agregar_a_indice idc u) w () (agrega_indice idc (usuario_id u))"
  unfolding agregar_a_indice_def
proof (rule hace_luego_lee [OF hace_getDato [OF assms]])
  fix w1 assume r: "solo_lee w w1"
  let ?v = "case dato w (clave_indice (usuario_id u)) of None \<Rightarrow> keyDatoNoEncontrado | Some v \<Rightarrow> v"
  let ?v' = "if idc \<in> set (split ?v SeparadorListaBD) then ?v else ?v @ SeparadorListaBD # idc"
  obtain w2 where w2: "setDato (clave_indice (usuario_id u)) ?v' w1 = Inr ((), w2)"
    "cambia (\<lambda>m. m(clave_indice (usuario_id u) \<mapsto> ?v')) w1 w2"
    using hace_setDato [OF cambia_sana [OF r assms]] by (rule haceE)
  have "cambia (agrega_indice idc (usuario_id u)) w1 w2"
    using w2(2) solo_lee_dato [OF r assms] unfolding cambia_def agrega_indice_def Let_def by simp
  then show "hace (let idsConversaciones = split ?v SeparadorListaBD;
      valor' = (if \<not> vectorContiene idsConversaciones idc then ?v @ SeparadorListaBD # idc else ?v)
      in setDato (clave_indice (usuario_id u)) valor') w1 () (agrega_indice idc (usuario_id u))"
    using w2(1) unfolding hace_def Let_def vectorContiene_iff by (auto simp: if_not_P)
qed

lemma hace_para_cada_escribe:
  assumes "\<And>x w. bd_sana w \<Longrightarrow> hace (f x) w () (g x)" and "bd_sana w"
  shows "hace (para_cada f xs) w (map (\<lambda>_. ()) xs) (fold g xs)"
  using assms(2)
proof (induction xs arbitrary: w)
  case (Cons x xs)
  have "hace (luego (f x) (\<lambda>y. luego (para_cada f xs) (\<lambda>ys. ret (y # ys)))) w (() # map (\<lambda>_. ()) xs)
      (fold g xs \<circ> g x)"
    by (rule hace_luego [OF assms(1) [OF Cons.prems]], rule hace_luego_escribe [OF Cons.IH], 
        rule cambia_sana, assumption, rule Cons.prems, rule hace_ret)
  then show ?case by (simp add: comp_def)
qed (simp add: hace_def cambia_def)

definition guarda_conversacion :: "Conversacion \<Rightarrow> (string \<Rightarrow> string option) \<Rightarrow> string \<Rightarrow> string option" where
  "guarda_conversacion c m =
     fold (agrega_indice (Conversacion_getId c)) (map usuario_id (usuarios c))
       (m(clave_conversacion (Conversacion_getId c) \<mapsto> Conversacion_texto c))"

lemma hace_Conversacion_persistir:
  assumes "bd_sana w"
  shows "hace (Conversacion_persistir c) w () (guarda_conversacion c)"
proof -
  let ?i = "Conversacion_getId c"
  have loop: "hace (para_cada (agregar_a_indice ?i) us) w1 (map (\<lambda>_. ()) us)
      (fold (\<lambda>u. agrega_indice ?i (usuario_id u)) us)" if "bd_sana w1" for us w1
    by (rule hace_para_cada_escribe [OF hace_agregar_a_indice that])
  have g: "guarda_conversacion c = fold (\<lambda>u. agrega_indice ?i (usuario_id u)) (usuarios c) \<circ>
      (\<lambda>m. m(clave_conversacion ?i \<mapsto> Conversacion_texto c))"
    by (simp add: fun_eq_iff guarda_conversacion_def fold_map comp_def)
  show ?thesis
    unfolding Conversacion_persistir_def setConversacion_def Conversacion_serializar_texto luego_eleva g
    by (rule hace_luego_lee [OF hace_getInstance [OF assms]], rule hace_luego [OF hace_setDato],
        erule cambia_sana [OF _ assms], rule hace_luego_escribe [OF loop],
        erule cambia_sana, erule cambia_sana [OF _ assms], rule hace_ret)
qed

lemma agrega_indice_otros [simp]:
  "agrega_indice i u m (clave_usuario k) = m (clave_usuario k)"
  "agrega_indice i u m (clave_conversacion k) = m (clave_conversacion k)"
  "u \<noteq> u' \<Longrightarrow> agrega_indice i u m (clave_indice u') = m (clave_indice u')"
  by (simp_all add: agrega_indice_def Let_def)

lemma fold_agrega_indice_otros [simp]:
  "fold (agrega_indice i) us m (clave_usuario k) = m (clave_usuario k)"
  "fold (agrega_indice i) us m (clave_conversacion k) = m (clave_conversacion k)"
  "u' \<notin> set us \<Longrightarrow> fold (agrega_indice i) us m (clave_indice u') = m (clave_indice u')"
  by (induction us arbitrary: m) auto

lemma guarda_conversacion_otros [simp]:
  "guarda_conversacion c m (clave_usuario k) = m (clave_usuario k)"
  "guarda_conversacion c m (clave_conversacion k)
     = (if k = Conversacion_getId c then Some (Conversacion_texto c) else m (clave_conversacion k))"
  "u \<notin> usuario_id ` set (usuarios c) \<Longrightarrow> guarda_conversacion c m (clave_indice u) = m (clave_indice u)"
  by (simp_all add: guarda_conversacion_def)

text \<open>
  The index of a user as a list: the text under its key, or what \<open>getDato\<close> answers when
  there is none.
\<close>

definition texto_indice :: "(string \<Rightarrow> string option) \<Rightarrow> string \<Rightarrow> string" where
  "texto_indice m uid = (case m (clave_indice uid) of None \<Rightarrow> keyDatoNoEncontrado | Some v \<Rightarrow> v)"

definition indice :: "(string \<Rightarrow> string option) \<Rightarrow> string \<Rightarrow> string list" where
  "indice m uid = split (texto_indice m uid) SeparadorListaBD"

definition indice_ok :: "(string \<Rightarrow> string option) \<Rightarrow> string \<Rightarrow> bool" where
  "indice_ok m uid \<longleftrightarrow> texto_indice m uid \<noteq> [] \<and> last (texto_indice m uid) \<noteq> SeparadorListaBD"

definition id_ok :: "string \<Rightarrow> bool" where
  "id_ok i \<longleftrightarrow> i \<noteq> [] \<and> SeparadorListaBD \<notin> set i"

lemma agrega_indice_indice:
  assumes "indice_ok m u'" and "id_ok i"
  shows "indice_ok (agrega_indice i u m) u' \<and>
    indice (agrega_indice i u m) u' =
      (if u' = u \<and> i \<notin> set (indice m u') then indice m u' @ [i] else indice m u')"
proof (cases "u' = u")
  case True
  have t: "texto_indice (agrega_indice i u m) u' =
      (if i \<in> set (indice m u') then texto_indice m u' else texto_indice m u' @ SeparadorListaBD # i)"
    by (simp add: True agrega_indice_def texto_indice_def indice_def Let_def)
  have "last i \<in> set i" using assms(2) by (simp add: id_ok_def)
  then have "last i \<noteq> SeparadorListaBD" using assms(2) by (metis id_ok_def)
  then show ?thesis
    using assms True t by (auto simp: indice_ok_def id_ok_def indice_def split_agrega)
qed (use assms in \<open>simp add: indice_ok_def indice_def texto_indice_def\<close>)

lemma fold_agrega_indice_indice:
  assumes "indice_ok m u" and "id_ok i"
  shows "indice_ok (fold (agrega_indice i) us m) u \<and>
    indice (fold (agrega_indice i) us m) u =
      (if u \<in> set us \<and> i \<notin> set (indice m u) then indice m u @ [i] else indice m u)"
  using assms(1)
proof (induction us arbitrary: m)
  case (Cons x us)
  note a = agrega_indice_indice [OF Cons.prems assms(2), of x]
  show ?case using Cons.IH [OF a [THEN conjunct1]] a by auto
qed simp

lemma guarda_conversacion_indice:
  assumes "indice_ok m u" and "id_ok (Conversacion_getId c)"
  shows "indice_ok (guarda_conversacion c m) u \<and>
    indice (guarda_conversacion c m) u =
      (if u \<in> usuario_id ` set (usuarios c) \<and> Conversacion_getId c \<notin> set (indice m u)
       then indice m u @ [Conversacion_getId c] else indice m u)"
proof -
  let ?m = "m(clave_conversacion (Conversacion_getId c) \<mapsto> Conversacion_texto c)"
  have e: "indice_ok ?m u = indice_ok m u" "indice ?m u = indice m u"
    by (simp_all add: indice_ok_def indice_def texto_indice_def)
  show ?thesis
    using fold_agrega_indice_indice [of ?m u "Conversacion_getId c" "map usuario_id (usuarios c)"] assms
    unfolding guarda_conversacion_def e by simp
qed

lemma hace_obtenerIds:
  assumes "bd_sana w"
  shows "hace (obtenerIdsPorIdUsuario uid) w (indice (dato w) uid) nada"
  unfolding obtenerIdsPorIdUsuario_def getIdsConversacionPorIdUsuario_def
proof (rule hace_luego_lee [OF hace_getInstance [OF assms]])
  fix w1 assume r: "solo_lee w w1"
  show "hace (luego (getDato (clave_indice uid)) (\<lambda>valor. ret (split valor SeparadorListaBD))) w1
      (indice (dato w) uid) nada"
    by (rule hace_luego_lee [OF hace_getDato [OF cambia_sana [OF r assms]]])
      (simp add: solo_lee_dato [OF r assms] indice_def texto_indice_def hace_ret)
qed

section \<open>Properties\<close>

lemma conversacion_ok_guarda:
  "dato w' = guarda_conversacion c (dato w) \<Longrightarrow> conversacion_ok w' c' = conversacion_ok w c'"
  by (simp add: conversacion_ok_def guardado_def)


definition mensaje_ejemplo :: Mensaje where
  "mensaje_ejemplo = \<lparr>cuerpo = ''hola'', idUsuarioEmisor = ''a'', fecha = ''hoy'', mensaje_id = ''m''\<rparr>"

definition usuario_ejemplo :: "string \<Rightarrow> Usuario" where
  "usuario_ejemplo i = Usuario_vacio\<lparr>usuario_id := i\<rparr>"


text \<open>
  C24: storing a conversation leaves its identifier in the index of every participant, once,
  at the end if it was new; nothing else is removed from or added to any index.
\<close>
theorem conversacion_index:
  assumes "bd_sana w" and "indice_ok (dato w) u" and "id_ok (Conversacion_getId c)"
  shows "\<exists>w1 w2. Conversacion_persistir c w = Inr ((), w1) \<and>
    obtenerIdsPorIdUsuario u w1 = Inr
      (if u \<in> usuario_id ` set (usuarios c) \<and> Conversacion_getId c \<notin> set (indice (dato w) u)
       then indice (dato w) u @ [Conversacion_getId c] else indice (dato w) u, w2)"
proof -
  obtain w1 where 1: "Conversacion_persistir c w = Inr ((), w1)" "cambia (guarda_conversacion c) w w1"
    using hace_Conversacion_persistir [OF assms(1)] by (rule haceE)
  obtain w2 where "obtenerIdsPorIdUsuario u w1 = Inr (indice (dato w1) u, w2)"
    using hace_obtenerIds [OF cambia_sana [OF 1(2) assms(1)]] by (rule haceE)
  then show ?thesis
    using 1(1) cambia_dato [OF 1(2) assms(1)] guarda_conversacion_indice [OF assms(2,3)] by auto
qed

theorem conversacion_index_witness:
  "\<exists>w1 w2. Conversacion_persistir (Conversacion_new [usuario_ejemplo ''a''] []) mundo_ejemplo = Inr ((), w1) \<and>
     obtenerIdsPorIdUsuario ''a'' w1 = Inr ([''NotFound'', ''a''], w2)"
proof -
  have i: "indice (dato mundo_ejemplo) ''a'' = [''NotFound'']" "indice_ok (dato mundo_ejemplo) ''a''"
    by (simp_all add: indice_def indice_ok_def texto_indice_def split_single)
  have c: "Conversacion_getId (Conversacion_new [usuario_ejemplo ''a''] []) = ''a''"
    by (simp add: Conversacion_getId_def Conversacion_new_def Let_def usuario_ejemplo_def)
  have u: "usuarios (Conversacion_new [usuario_ejemplo ''a''] []) = [usuario_ejemplo ''a'']"
    "usuario_id (usuario_ejemplo ''a'') = ''a''"
    by (simp_all add: Conversacion_new_def Let_def usuario_ejemplo_def)
  show ?thesis
    using conversacion_index [of mundo_ejemplo "''a''" "Conversacion_new [usuario_ejemplo ''a''] []"] i
    by (simp add: c u id_ok_def)
qed

text \<open>
  C25: the index of a user that had none does not start empty: the text \<open>NotFound\<close> that
  \<open>getDato\<close> answers for a missing key is kept as its first entry, so the user is listed with a
  conversation that does not exist.
\<close>
theorem conversacion_first_index:
  assumes "bd_sana w" and "dato w (clave_indice u) = None" and "id_ok (Conversacion_getId c)"
    and "u \<in> usuario_id ` set (usuarios c)" and "Conversacion_getId c \<noteq> keyDatoNoEncontrado"
  shows "\<exists>w1 w2. Conversacion_persistir c w = Inr ((), w1) \<and>
    obtenerIdsPorIdUsuario u w1 = Inr ([keyDatoNoEncontrado, Conversacion_getId c], w2)"
proof -
  have i: "indice (dato w) u = [keyDatoNoEncontrado]" "indice_ok (dato w) u"
    by (simp_all add: assms(2) indice_def indice_ok_def texto_indice_def split_single)
  obtain w1 where 1: "Conversacion_persistir c w = Inr ((), w1)" "cambia (guarda_conversacion c) w w1"
    using hace_Conversacion_persistir [OF assms(1)] by (rule haceE)
  obtain w2 where "obtenerIdsPorIdUsuario u w1 = Inr (indice (dato w1) u, w2)"
    using hace_obtenerIds [OF cambia_sana [OF 1(2) assms(1)]] by (rule haceE)
  then show ?thesis
    using 1(1) cambia_dato [OF 1(2) assms(1)] guarda_conversacion_indice [OF i(2) assms(3)] i(1) assms(4,5)
    by simp
qed

theorem conversacion_first_index_witness:
  "\<exists>w1 w2. Conversacion_persistir (Conversacion_new [usuario_ejemplo ''b''] []) mundo_ejemplo = Inr ((), w1) \<and>
     obtenerIdsPorIdUsuario ''b'' w1 = Inr ([''NotFound'', ''b''], w2)"
proof -
  have c: "Conversacion_getId (Conversacion_new [usuario_ejemplo ''b''] []) = ''b''"
    by (simp add: Conversacion_getId_def Conversacion_new_def Let_def usuario_ejemplo_def)
  have u: "usuarios (Conversacion_new [usuario_ejemplo ''b''] []) = [usuario_ejemplo ''b'']"
    "usuario_id (usuario_ejemplo ''b'') = ''b''"
    by (simp_all add: Conversacion_new_def Let_def usuario_ejemplo_def)
  show ?thesis
    using conversacion_first_index [of mundo_ejemplo "''b''" "Conversacion_new [usuario_ejemplo ''b''] []"]
    by (simp add: c u id_ok_def)
qed

end
