(* ===== verification/Mongoose_Peticion.thy ===== *)
theory Mongoose_Peticion
  imports StringUtil
begin

text \<open>
  The part of \<open>WebServer/mongoose.c\<close> that turns received bytes into a request: the end of the
  header block, the request line and the headers, URL decoding, the clean-up of paths, and
  the variables of the query string and of the body. A region of the receive buffer is the
  list of its bytes; the NUL bytes the parser writes over delimiters are the ends of the
  words it returns.
\<close>

section \<open>Numbers and comparisons\<close>

definition isprint :: "char \<Rightarrow> bool" where
  "isprint c \<longleftrightarrow> 32 \<le> ord c \<and> ord c \<le> 126"

definition isalnum :: "char \<Rightarrow> bool" where
  "isalnum c \<longleftrightarrow> isdigit c \<or> isupper c \<or> islower c"

text \<open>\<open>to64\<close> is \<open>strtoll\<close> in base 10, with its clamping; \<open>atoi\<close> keeps the low 32 bits.\<close>

definition to64 :: "string \<Rightarrow> int" where
  "to64 s =
     (case dropWhile isspace (c_str s) of
        [] \<Rightarrow> 0
      | c # cs \<Rightarrow>
          (let n = int (digitos_a_nat 0 (if c = CHR ''-'' \<or> c = CHR ''+'' then cs else c # cs))
           in if c = CHR ''-'' then max (- (2 ^ 63)) (- n) else min (2 ^ 63 - 1) n))"

definition atoi :: "string \<Rightarrow> int" where
  "atoi s = sint (word_of_int (to64 s) :: 32 word)"

text \<open>The byte a pointer into a NUL-terminated string points at.\<close>

definition apunta :: "string \<Rightarrow> char" where
  "apunta s = (case s of [] \<Rightarrow> NUL | c # _ \<Rightarrow> c)"

definition lowercase :: "char \<Rightarrow> int" where
  "lowercase c = int (ord (tolower c))"

fun mg_strcasecmp :: "string \<Rightarrow> string \<Rightarrow> int" where
  "mg_strcasecmp [] s2 = lowercase NUL - lowercase (apunta s2)"
| "mg_strcasecmp (c # s1) s2 =
     (let diff = lowercase c - lowercase (apunta s2)
      in if diff = 0 \<and> c \<noteq> NUL then mg_strcasecmp s1 (tl s2) else diff)"

fun mg_strncasecmp :: "string \<Rightarrow> string \<Rightarrow> nat \<Rightarrow> int" where
  "mg_strncasecmp s1 s2 0 = 0"
| "mg_strncasecmp s1 s2 (Suc len) =
     (let diff = lowercase (apunta s1) - lowercase (apunta s2)
      in if diff = 0 \<and> apunta s1 \<noteq> NUL then mg_strncasecmp (tl s1) (tl s2) len else diff)"

section \<open>Where the header block ends\<close>

fun get_request_len_desde :: "nat \<Rightarrow> string \<Rightarrow> int" where
  "get_request_len_desde i [] = 0"
| "get_request_len_desde i (c # buf) =
     (if \<not> isprint c \<and> c \<noteq> CHR 0x0D \<and> c \<noteq> CHR 0x0A \<and> ord c < 128 then - 1
      else if c = CHR 0x0A \<and> take 1 buf = [CHR 0x0A] then int i + 2
      else if c = CHR 0x0A \<and> take 2 buf = [CHR 0x0D, CHR 0x0A] then int i + 3
      else get_request_len_desde (i + 1) buf)"

definition get_request_len :: "string \<Rightarrow> int" where
  "get_request_len buf = get_request_len_desde 0 buf"

section \<open>URL encoding\<close>

definition HEXTOI :: "char \<Rightarrow> nat" where
  "HEXTOI x = (if isdigit x then ord x - 48 else ord x - 87)"

text \<open>The decoding loop with room for \<open>r\<close> more bytes: what it writes, and what is left of the source.\<close>

fun url_decode_bucle :: "bool \<Rightarrow> nat \<Rightarrow> string \<Rightarrow> string \<times> string" where
  "url_decode_bucle form 0 src = ([], src)"
| "url_decode_bucle form (Suc r) [] = ([], [])"
| "url_decode_bucle form (Suc r) (c # src) =
     (if c = CHR ''%'' \<and> 2 \<le> length src \<and> isxdigit (src ! 0) \<and> isxdigit (src ! 1)
      then (case url_decode_bucle form r (drop 2 src) of (dst, resto) \<Rightarrow>
              (char_of (HEXTOI (tolower (src ! 0)) * 16 + HEXTOI (tolower (src ! 1))) # dst, resto))
      else (case url_decode_bucle form r src of (dst, resto) \<Rightarrow>
              ((if form \<and> c = CHR ''+'' then CHR '' '' else c) # dst, resto)))"

text \<open>The bytes written before the final NUL, and the returned length, -1 when they did not fit.\<close>

definition mg_url_decode :: "string \<Rightarrow> nat \<Rightarrow> bool \<Rightarrow> string \<times> int" where
  "mg_url_decode src dst_len form =
     (case url_decode_bucle form (dst_len - 1) src of (dst, resto) \<Rightarrow>
        (dst, if resto = [] then int (length dst) else - 1))"

definition hex_min :: "nat \<Rightarrow> char" where
  "hex_min n = ''0123456789abcdef'' ! n"

fun url_encode_bucle :: "nat \<Rightarrow> nat \<Rightarrow> string \<Rightarrow> string" where
  "url_encode_bucle j dst_len [] = []"
| "url_encode_bucle j dst_len (c # src) =
     (if 0 < dst_len \<and> j + 2 < dst_len - 1 then
        if isalnum c \<or> c \<in> set ''._-$,;~()'' \<or> c = NUL then c # url_encode_bucle (j + 1) dst_len src
        else CHR ''%'' # hex_min (ord c div 16) # hex_min (ord c mod 16) # url_encode_bucle (j + 3) dst_len src
      else [])"

definition mg_url_encode :: "string \<Rightarrow> nat \<Rightarrow> string" where
  "mg_url_encode src dst_len = url_encode_bucle 0 dst_len src"

section \<open>Paths\<close>

definition es_barra :: "char \<Rightarrow> bool" where
  "es_barra c \<longleftrightarrow> c = CHR ''/'' \<or> c = CHR 0x5C"

text \<open>The inner loop: the slashes, backslashes, \<open>./\<close> and \<open>../\<close> that follow a slash.\<close>

fun saltar_puntos :: "string \<Rightarrow> string" where
  "saltar_puntos [] = []"
| "saltar_puntos (a # s) =
     (if es_barra a then saltar_puntos s
      else if a = CHR ''.'' \<and> es_barra (apunta s) then saltar_puntos (drop 1 s)
      else if a = CHR ''.'' \<and> apunta s = CHR ''.'' \<and> apunta (drop 1 s) = NUL then []
      else if a = CHR ''.'' \<and> apunta s = CHR ''.'' \<and> es_barra (apunta (drop 1 s)) then saltar_puntos (drop 2 s)
      else a # s)"

lemma length_saltar_puntos: "length (saltar_puntos s) \<le> length s"
  by (induction s rule: saltar_puntos.induct) auto

function remove_double_dots_and_double_slashes :: "string \<Rightarrow> string" where
  "remove_double_dots_and_double_slashes [] = []"
| "remove_double_dots_and_double_slashes (c # s) =
     c # remove_double_dots_and_double_slashes (if es_barra c then saltar_puntos s else s)"
  by pat_completeness auto
termination
  by (relation "measure length") (auto simp: le_imp_less_Suc length_saltar_puntos)

section \<open>The request\<close>

record mg_connection =
  request_method :: string
  uri :: string
  http_version :: string
  query_string :: "string option"
  http_headers :: "(string \<times> string) list"
  content :: string
  request_status :: int

definition is_valid_http_method :: "string \<Rightarrow> bool" where
  "is_valid_http_method s \<longleftrightarrow>
     s \<in> set [''GET'', ''POST'', ''HEAD'', ''CONNECT'', ''PUT'', ''DELETE'', ''OPTIONS'', ''PROPFIND'',
              ''MKCOL'', ''PATCH'']"

definition skip :: "string \<Rightarrow> string \<Rightarrow> string \<times> string" where
  "skip buf delimiters =
     (takeWhile (\<lambda>c. c \<notin> set delimiters) buf,
      dropWhile (\<lambda>c. c \<in> set delimiters) (dropWhile (\<lambda>c. c \<notin> set delimiters) buf))"

fun parse_http_headers :: "nat \<Rightarrow> string \<Rightarrow> (string \<times> string) list" where
  "parse_http_headers 0 buf = []"
| "parse_http_headers (Suc n) buf =
     (case skip buf '': '' of (name, buf1) \<Rightarrow>
      case skip buf1 [CHR 0x0D, CHR 0x0A] of (value, buf2) \<Rightarrow>
        if name = [] then [] else (name, value) # parse_http_headers n buf2)"

text \<open>\<open>None\<close> is the length \<open>~0\<close> of a message that is no HTTP request or response.\<close>

definition parse_http_message :: "string \<Rightarrow> mg_connection option" where
  "parse_http_message msg =
     (if length msg < 1 then None
      else
        let buf = dropWhile isspace (c_str (butlast msg));
            (metodo, buf1) = skip buf '' '';
            (recurso, buf2) = skip buf1 '' '';
            (version, buf3) = skip buf2 [CHR 0x0D, CHR 0x0A];
            is_request = is_valid_http_method metodo
        in if is_request \<and> take 5 version \<noteq> ''HTTP/'' \<or> \<not> is_request \<and> take 5 metodo \<noteq> ''HTTP/'' then None
           else
             let camino = takeWhile (\<lambda>c. c \<noteq> CHR ''?'') recurso;
                 decodificado = c_str (fst (mg_url_decode camino (length camino + 1) False))
             in Some
               \<lparr>request_method = metodo,
                uri = (if apunta decodificado = CHR ''/'' \<or> apunta decodificado = CHR ''.''
                       then remove_double_dots_and_double_slashes decodificado else decodificado),
                http_version = (if is_request then drop 5 version else version),
                query_string = (if CHR ''?'' \<in> set recurso then Some (drop (length camino + 1) recurso) else None),
                http_headers = parse_http_headers 30 buf3,
                content = [],
                request_status = (if is_request then 0 else atoi recurso)\<rparr>)"

definition mg_get_header :: "mg_connection \<Rightarrow> string \<Rightarrow> string option" where
  "mg_get_header ri s =
     map_option snd (find (\<lambda>(name, value). mg_strcasecmp s name = 0) (http_headers ri))"

section \<open>Variables\<close>

text \<open>
  The search of a variable from a position of the data; \<open>inicio\<close> says that the position is the
  start of the data or follows an ampersand. The result is the returned length and the buffer.
\<close>

fun get_var_desde :: "bool \<Rightarrow> string \<Rightarrow> string \<Rightarrow> nat \<Rightarrow> int \<times> string" where
  "get_var_desde inicio [] name dst_len = (- 1, [])"
| "get_var_desde inicio (c # p) name dst_len =
     (if length name < length (c # p) then
        if inicio \<and> (c # p) ! length name = CHR ''='' \<and> mg_strncasecmp name (c # p) (length name) = 0
        then (case mg_url_decode (takeWhile (\<lambda>c. c \<noteq> CHR ''&'') (drop (length name + 1) (c # p))) dst_len True of
                (dst, len) \<Rightarrow> (if len = - 1 then - 2 else len, dst))
        else get_var_desde (c = CHR ''&'') p name dst_len
      else (- 1, []))"

definition get_var :: "string option \<Rightarrow> string \<Rightarrow> nat \<Rightarrow> int \<times> string" where
  "get_var data name dst_len =
     (if dst_len = 0 then (- 2, [])
      else case data of None \<Rightarrow> (- 1, []) | Some d \<Rightarrow> get_var_desde True d name dst_len)"

definition mg_get_var :: "mg_connection \<Rightarrow> string \<Rightarrow> nat \<Rightarrow> int \<times> string" where
  "mg_get_var conn name dst_len =
     (case get_var (query_string conn) name dst_len of (len, dst) \<Rightarrow>
        if len < 0 then get_var (Some (content conn)) name dst_len else (len, dst))"

section \<open>Decoding undoes encoding\<close>

lemma hex_min_valor:
  assumes "n < 16"
  shows "isxdigit (hex_min n)" and "HEXTOI (tolower (hex_min n)) = n"
proof -
  have "\<forall>n \<in> set [0..<16]. isxdigit (hex_min n) \<and> HEXTOI (tolower (hex_min n)) = n" by code_simp
  then show "isxdigit (hex_min n)" and "HEXTOI (tolower (hex_min n)) = n" using assms by auto
qed

text \<open>How one byte is encoded.\<close>

definition encode1 :: "char \<Rightarrow> string" where
  "encode1 c =
     (if isalnum c \<or> c \<in> set ''._-$,;~()'' \<or> c = NUL then [c]
      else [CHR ''%'', hex_min (ord c div 16), hex_min (ord c mod 16)])"

definition encode :: "string \<Rightarrow> string" where
  "encode s = concat (map encode1 s)"

lemma url_encode_bucle_eq:
  "j + 3 * length s < n \<Longrightarrow> url_encode_bucle j n s = encode s"
  by (induction j n s rule: url_encode_bucle.induct) (auto simp: encode_def encode1_def)

lemma encode1_literal: "encode1 c = [c] \<Longrightarrow> c \<noteq> CHR ''%'' \<and> c \<noteq> CHR ''+'' \<and> c \<noteq> CHR ''&'' \<and> c \<noteq> CHR ''=''"
  by (auto simp: encode1_def isalnum_def ctype_defs split: if_splits)

lemma decode_encode1:
  "url_decode_bucle form (Suc r) (encode1 c @ src) =
     (case url_decode_bucle form r src of (dst, resto) \<Rightarrow> (c # dst, resto))"
proof (cases "encode1 c = [c]")
  case True
  then show ?thesis using encode1_literal [OF True] by simp
next
  case False
  have "ord c < 256" by simp
  then have "ord c div 16 < 16" "ord c mod 16 < 16" by (simp_all add: less_mult_imp_div_less)
  moreover have "ord c div 16 * 16 + ord c mod 16 = ord c" by simp
  moreover have "encode1 c = [CHR ''%'', hex_min (ord c div 16), hex_min (ord c mod 16)]"
    using False unfolding encode1_def by presburger
  ultimately show ?thesis by (simp add: hex_min_valor)
qed

lemma decode_encode: "length s \<le> r \<Longrightarrow> url_decode_bucle form r (encode s) = (s, [])"
proof (induction s arbitrary: r)
  case Nil
  then show ?case by (cases r) (simp_all add: encode_def)
next
  case (Cons c s)
  then obtain q where "r = Suc q" "length s \<le> q" by (cases r) auto
  then show ?case using Cons.IH [of q] by (simp add: encode_def decode_encode1)
qed

lemma mg_url_decode_encode:
  "length s < n \<Longrightarrow> mg_url_decode (encode s) n form = (s, int (length s))"
  by (simp add: mg_url_decode_def decode_encode)

lemma mg_url_encode_eq: "3 * length s < n \<Longrightarrow> mg_url_encode s n = encode s"
  by (simp add: mg_url_encode_def url_encode_bucle_eq)

section \<open>Comparing without case\<close>

lemma lowercase_eq: "lowercase a = lowercase b \<longleftrightarrow> tolower a = tolower b"
  by (simp add: lowercase_def)

lemma tolower_NUL [simp]: "tolower c = NUL \<longleftrightarrow> c = NUL"
proof (cases "isupper c")
  case True
  then have 1: "ord (tolower c) = ord c + 32" "ord c \<noteq> 0"
    by (simp_all add: tolower_def isupper_def)
  then have "tolower c \<noteq> NUL" "c \<noteq> NUL" by auto
  then show ?thesis by simp
qed (simp add: tolower_def)

lemma NUL_tolower [simp]: "tolower NUL = NUL" "NUL = tolower c \<longleftrightarrow> c = NUL"
  using tolower_NUL [of c] by (auto simp: tolower_def isupper_def simp del: tolower_NUL)

lemma tolower_igual [simp]: "tolower c = CHR ''='' \<longleftrightarrow> c = CHR ''=''"
proof (cases "isupper c")
  case True
  then have "ord (tolower c) = ord c + 32" "65 \<le> ord c"
    by (simp_all add: tolower_def isupper_def)
  then have "tolower c \<noteq> CHR ''=''" "c \<noteq> CHR ''=''" by auto
  then show ?thesis by simp
qed (simp add: tolower_def)

lemma tolower_igual' [simp]: "tolower CHR ''='' = CHR ''=''"
  by simp

lemma mg_strncasecmp_eq_0:
  "NUL \<notin> set name \<Longrightarrow> length name \<le> length p \<Longrightarrow>
     mg_strncasecmp name p (length name) = 0 \<longleftrightarrow> map tolower name = map tolower (take (length name) p)"
proof (induction name arbitrary: p)
  case (Cons c name)
  then obtain d q where "p = d # q" by (cases p) auto
  with Cons show ?case by (auto simp: apunta_def Let_def lowercase_eq)
qed simp

lemma mg_strcasecmp_eq_0:
  "NUL \<notin> set a \<Longrightarrow> NUL \<notin> set b \<Longrightarrow> mg_strcasecmp a b = 0 \<longleftrightarrow> map tolower a = map tolower b"
proof (induction a arbitrary: b)
  case Nil
  then show ?case by (cases b) (auto simp: apunta_def lowercase_eq dest: sym)
next
  case (Cons c a)
  then show ?case by (cases b) (auto simp: apunta_def Let_def lowercase_eq)
qed

section \<open>Variables of a form\<close>

text \<open>A form as a client sends it.\<close>

fun form_encode :: "(string \<times> string) list \<Rightarrow> string" where
  "form_encode [] = []"
| "form_encode [(k, v)] = k @ ''='' @ encode v"
| "form_encode ((k, v) # kv # kvs) = k @ ''='' @ encode v @ ''&'' @ form_encode (kv # kvs)"

definition nombre_ok :: "string \<Rightarrow> bool" where
  "nombre_ok k \<longleftrightarrow> NUL \<notin> set k \<and> CHR ''='' \<notin> set k \<and> CHR ''&'' \<notin> set k"

lemma encode_limpio: "CHR ''&'' \<notin> set (encode s)" "CHR ''='' \<notin> set (encode s)"
proof -
  have hex: "\<forall>n \<in> set [0..<16]. hex_min n \<noteq> CHR ''&'' \<and> hex_min n \<noteq> CHR ''=''" by code_simp
  have "CHR ''&'' \<notin> set (encode1 c) \<and> CHR ''='' \<notin> set (encode1 c)" for c
  proof (cases "encode1 c = [c]")
    case True
    then show ?thesis using encode1_literal [OF True] by auto
  next
    case False
    have "ord c < 256" by simp
    then have "ord c div 16 < 16" "ord c mod 16 < 16" by (simp_all add: less_mult_imp_div_less)
    then show ?thesis using False hex by (auto simp: encode1_def split: if_splits)
  qed
  then show "CHR ''&'' \<notin> set (encode s)" "CHR ''='' \<notin> set (encode s)"
    by (auto simp: encode_def)
qed

lemma get_var_corto: "length p \<le> length name \<Longrightarrow> get_var_desde inicio p name n = (- 1, [])"
  by (cases p) simp_all

lemma get_var_fin: "CHR ''&'' \<notin> set x \<Longrightarrow> get_var_desde False x name n = (- 1, [])"
  by (induction x) auto

lemma get_var_salta:
  "CHR ''&'' \<notin> set x \<Longrightarrow> get_var_desde False (x @ CHR ''&'' # resto) name n = get_var_desde True resto name n"
proof (induction x)
  case Nil
  then show ?case by (simp add: get_var_corto)
next
  case (Cons c x)
  then show ?case by (auto simp: get_var_corto)
qed

text \<open>A name is found at the start of an entry when the entry's key is the same up to case.\<close>

lemma get_var_coincide:
  assumes "nombre_ok name" and "nombre_ok k" and data: "data = k @ CHR ''='' # resto"
  shows "length name < length data \<and> data ! length name = CHR ''='' \<and> mg_strncasecmp name data (length name) = 0
    \<longleftrightarrow> map tolower name = map tolower k"
proof
  assume "map tolower name = map tolower k"
  moreover from this have "length name = length k" by (rule map_eq_imp_length_eq)
  ultimately show "length name < length data \<and> data ! length name = CHR ''='' \<and> mg_strncasecmp name data (length name) = 0"
    using assms mg_strncasecmp_eq_0 [of name data] by (simp add: nombre_ok_def)
next
  assume a: "length name < length data \<and> data ! length name = CHR ''='' \<and> mg_strncasecmp name data (length name) = 0"
  then have igual: "map tolower name = map tolower (take (length name) data)"
    using assms(1) mg_strncasecmp_eq_0 [of name data] by (simp add: nombre_ok_def)
  have "\<not> length name < length k"
  proof
    assume l: "length name < length k"
    then have "k ! length name = CHR ''=''" using a data by (simp add: nth_append)
    then show False using nth_mem [OF l] assms(2) by (simp add: nombre_ok_def)
  qed
  moreover have "\<not> length k < length name"
  proof
    assume l: "length k < length name"
    then have "tolower (name ! length k) = tolower (data ! length k)"
      using arg_cong [OF igual, of "\<lambda>l. l ! length k"] a by (simp add: l)
    then have "name ! length k = CHR ''=''" using data by simp
    then show False using nth_mem [OF l] assms(1) by (simp add: nombre_ok_def)
  qed
  ultimately show "map tolower name = map tolower k" using igual data by simp
qed

lemma get_var_entrada:
  assumes "nombre_ok name" and "nombre_ok k"
  shows "get_var_desde True (k @ CHR ''='' # resto) name n =
    (if map tolower name = map tolower k
     then (case mg_url_decode (takeWhile (\<lambda>c. c \<noteq> CHR ''&'') resto) n True of
             (dst, len) \<Rightarrow> (if len = - 1 then - 2 else len, dst))
     else get_var_desde False (tl (k @ CHR ''='' # resto)) name n)"
proof -
  let ?data = "k @ CHR ''='' # resto"
  obtain c p where cp: "?data = c # p" by (cases ?data) auto
  have c: "c \<noteq> CHR ''&''" using cp assms(2) by (cases k) (auto simp: nombre_ok_def)
  note m = get_var_coincide [OF assms refl, of resto, unfolded cp]
  have l: "map tolower name = map tolower k \<Longrightarrow> drop (length name + 1) (c # p) = resto"
    using cp [symmetric] by (auto dest: map_eq_imp_length_eq)
  show ?thesis
  proof (cases "map tolower name = map tolower k")
    case True
    then show ?thesis using m l unfolding cp by simp
  next
    case False
    then show ?thesis using m c get_var_corto [of p name] unfolding cp by auto
  qed
qed

text \<open>The first entry whose key is the name up to case.\<close>

definition primera :: "string \<Rightarrow> (string \<times> string) list \<Rightarrow> (string \<times> string) option" where
  "primera name kvs = find (\<lambda>(k, v). map tolower name = map tolower k) kvs"

lemma get_var_form:
  assumes "nombre_ok name" and "\<forall>(k, v) \<in> set kvs. nombre_ok k \<and> length v < n"
  shows "get_var_desde True (form_encode kvs) name n =
    (case primera name kvs of None \<Rightarrow> (- 1, []) | Some (k, v) \<Rightarrow> (int (length v), v))"
  using assms(2)
proof (induction kvs rule: form_encode.induct)
  case (2 k v)
  have tl: "tl (k @ CHR ''='' # encode v) = tl (k @ ''='') @ encode v" by (cases k) auto
  have "CHR ''&'' \<notin> set (tl (k @ ''='') @ encode v)"
    using 2 encode_limpio [of v] by (cases k) (auto simp: nombre_ok_def)
  then show ?case
    using 2 encode_limpio [of v] get_var_entrada [OF assms(1), of k "encode v" n]
    by (simp add: mg_url_decode_encode get_var_fin primera_def tl)
next
  case (3 k v kv kvs)
  let ?r = "encode v @ CHR ''&'' # form_encode (kv # kvs)"
  have tl: "tl (k @ CHR ''='' # ?r) = (tl (k @ ''='') @ encode v) @ CHR ''&'' # form_encode (kv # kvs)"
    by (cases k) auto
  have "CHR ''&'' \<notin> set (tl (k @ ''='') @ encode v)"
    using 3 encode_limpio [of v] by (cases k) (auto simp: nombre_ok_def)
  note salta = get_var_salta [OF this, of "form_encode (kv # kvs)" name n]
  show ?case
    using 3 encode_limpio [of v] get_var_entrada [OF assms(1), of k ?r n] salta unfolding tl
    by (simp add: mg_url_decode_encode primera_def)
qed (simp add: primera_def)

section \<open>Clean paths\<close>

text \<open>What must not follow a slash: a slash, \<open>./\<close>, \<open>../\<close>, or a final \<open>..\<close>\<close>

definition prohibido :: "string \<Rightarrow> bool" where
  "prohibido s \<longleftrightarrow> es_barra (apunta s) \<or> apunta s = CHR ''.'' \<and> es_barra (apunta (drop 1 s)) \<or>
     take 2 s = ''..'' \<and> (drop 2 s = [] \<or> es_barra (apunta (drop 2 s)))"

fun camino_limpio :: "string \<Rightarrow> bool" where
  "camino_limpio [] \<longleftrightarrow> True"
| "camino_limpio (c # s) \<longleftrightarrow> (es_barra c \<longrightarrow> \<not> prohibido s) \<and> camino_limpio s"

lemma no_barra [simp]: "\<not> es_barra NUL" "\<not> es_barra CHR ''.''"
  by (simp_all add: es_barra_def)

lemma apunta_simps [simp]: "apunta [] = NUL" "apunta (c # s) = c"
  by (simp_all add: apunta_def)

lemma prohibido_simps [simp]:
  "\<not> prohibido []"
  "prohibido (a # s) \<longleftrightarrow> es_barra a \<or> a = CHR ''.'' \<and>
     (es_barra (apunta s) \<or> apunta s = CHR ''.'' \<and> (drop 1 s = [] \<or> es_barra (apunta (drop 1 s))))"
  by (auto simp: prohibido_def numeral_2_eq_2) (cases s; simp)+

lemma apunta_NUL: "NUL \<notin> set s \<Longrightarrow> apunta s = NUL \<longleftrightarrow> s = []"
  by (cases s) auto

lemma set_saltar_puntos: "set (saltar_puntos s) \<subseteq> set s"
  by (induction s rule: saltar_puntos.induct) (auto dest: in_set_dropD)

lemma saltar_puntos_limpio: "NUL \<notin> set s \<Longrightarrow> \<not> prohibido (saltar_puntos s)"
proof (induction s rule: saltar_puntos.induct)
  case (2 a s)
  have "NUL \<notin> set (drop n s)" for n using 2(4) by (auto dest: in_set_dropD)
  then show ?case using 2 apunta_NUL [of "drop 1 s"] by auto
qed simp

lemma saltar_puntos_id:
  assumes "\<not> prohibido s" and "NUL \<notin> set s"
  shows "saltar_puntos s = s"
proof (cases s)
  case (Cons a r)
  then show ?thesis using assms apunta_NUL [of "drop 1 r"] by (cases r) auto
qed simp

lemma remove_prohibido:
  assumes "\<not> prohibido t"
  shows "\<not> prohibido (remove_double_dots_and_double_slashes t)"
proof (cases t)
  case (Cons a s)
  then show ?thesis
  proof (cases s)
    case (Cons b r)
    then show ?thesis using \<open>t = a # s\<close> assms by (cases r) auto
  qed (use \<open>t = a # s\<close> assms in auto)
qed simp

lemma remove_limpio:
  "NUL \<notin> set s \<Longrightarrow> camino_limpio (remove_double_dots_and_double_slashes s)"
proof (induction s rule: remove_double_dots_and_double_slashes.induct)
  case (2 c s)
  have "NUL \<notin> set (saltar_puntos s)" using 2(2) set_saltar_puntos [of s] by auto
  then show ?case
    using 2 saltar_puntos_limpio [of s] remove_prohibido [of "saltar_puntos s"] by auto
qed simp

lemma remove_limpio_id:
  "NUL \<notin> set s \<Longrightarrow> camino_limpio s \<Longrightarrow> remove_double_dots_and_double_slashes s = s"
proof (induction s)
  case (Cons c s)
  then show ?case using saltar_puntos_id [of s] by auto
qed simp

section \<open>A request is read as it was written\<close>

abbreviation CR :: char where "CR \<equiv> CHR 0x0D"
abbreviation LF :: char where "LF \<equiv> CHR 0x0A"

definition cabeceras :: "(string \<times> string) list \<Rightarrow> string" where
  "cabeceras hs = concat (map (\<lambda>(n, v). n @ '': '' @ v @ [CR, LF]) hs)"

definition peticion :: "string \<Rightarrow> string \<Rightarrow> (string \<times> string) list \<Rightarrow> string" where
  "peticion m t hs = m @ '' '' @ t @ '' HTTP/1.1'' @ [CR, LF] @ cabeceras hs @ [CR, LF]"

text \<open>Bytes that may appear in a request line or a header.\<close>

definition imprimible :: "string \<Rightarrow> bool" where
  "imprimible s \<longleftrightarrow> (\<forall>c \<in> set s. isprint c \<or> 128 \<le> ord c)"

definition cabecera_ok :: "string \<times> string \<Rightarrow> bool" where
  "cabecera_ok h \<longleftrightarrow> (case h of (n, v) \<Rightarrow> n \<noteq> [] \<and> imprimible n \<and> imprimible v \<and>
     CHR '':'' \<notin> set n \<and> CHR '' '' \<notin> set n \<and> apunta v \<noteq> CHR '':'' \<and> apunta v \<noteq> CHR '' '')"

lemma imprimible_simps [simp]:
  "imprimible []" "imprimible (c # s) \<longleftrightarrow> (isprint c \<or> 128 \<le> ord c) \<and> imprimible s"
  "imprimible (a @ b) \<longleftrightarrow> imprimible a \<and> imprimible b"
  by (auto simp: imprimible_def)

lemma imprimible_no: "imprimible s \<Longrightarrow> NUL \<notin> set s \<and> CR \<notin> set s \<and> LF \<notin> set s"
  by (auto simp: imprimible_def isprint_def)

lemma skip_hasta:
  "\<forall>c \<in> set x. c \<notin> set D \<Longrightarrow> d \<in> set D \<Longrightarrow> skip (x @ d # y) D = (x, dropWhile (\<lambda>c. c \<in> set D) y)"
  unfolding skip_def by (induction x) auto

lemma skip_Nil [simp]: "skip [] D = ([], [])"
  by (simp add: skip_def)

lemma dropWhile_cabeza: "x \<noteq> [] \<Longrightarrow> \<not> P (hd x) \<Longrightarrow> dropWhile P (x @ y) = x @ y"
  by (cases x) auto

lemma parse_cabeceras:
  "list_all cabecera_ok hs \<Longrightarrow> length hs \<le> n \<Longrightarrow>
     parse_http_headers n (dropWhile (\<lambda>c. c \<in> set [CR, LF]) (cabeceras hs @ [CR])) = hs"
proof (induction hs arbitrary: n)
  case Nil
  then show ?case by (cases n) (simp_all add: cabeceras_def)
next
  case (Cons h hs)
  obtain k v where h: "h = (k, v)" by (cases h)
  obtain n' where n: "n = Suc n'" using Cons.prems(2) by (cases n) auto
  let ?r = "cabeceras hs @ [CR]"
  have ok: "k \<noteq> []" "imprimible k" "imprimible v" "CHR '':'' \<notin> set k" "CHR '' '' \<notin> set k"
    "apunta v \<noteq> CHR '':''" "apunta v \<noteq> CHR '' ''"
    using Cons.prems(1) by (simp_all add: h cabecera_ok_def)
  have eq: "cabeceras (h # hs) @ [CR] = k @ CHR '':'' # CHR '' '' # v @ CR # LF # ?r"
    by (simp add: h cabeceras_def)
  have 1: "dropWhile (\<lambda>c. c \<in> set [CR, LF]) (cabeceras (h # hs) @ [CR]) = k @ CHR '':'' # CHR '' '' # v @ CR # LF # ?r"
    unfolding eq using ok(1) imprimible_no [OF ok(2)] by (intro dropWhile_cabeza) (auto dest: hd_in_set)
  have 2: "skip (k @ CHR '':'' # CHR '' '' # v @ CR # LF # ?r) '': '' = (k, v @ CR # LF # ?r)"
    using ok by (subst skip_hasta) (auto simp: apunta_def split: list.splits)
  have 3: "skip (v @ CR # LF # ?r) [CR, LF] = (v, dropWhile (\<lambda>c. c \<in> set [CR, LF]) ?r)"
    using imprimible_no [OF ok(3)] by (subst skip_hasta) auto
  show ?case
    using Cons ok(1) unfolding 1 n parse_http_headers.simps 2 prod.case 3 by (simp add: h)
qed

lemma url_decode_literal:
  "CHR ''%'' \<notin> set s \<Longrightarrow> length s \<le> r \<Longrightarrow> url_decode_bucle False r s = (s, [])"
proof (induction s arbitrary: r)
  case Nil
  then show ?case by (cases r) simp_all
next
  case (Cons c s)
  then show ?case by (cases r) auto
qed

lemma request_len_salta:
  "imprimible x \<Longrightarrow> get_request_len_desde i (x @ s) = get_request_len_desde (i + length x) s"
proof (induction x arbitrary: i)
  case (Cons c x)
  then have "c \<noteq> LF" "isprint c \<or> 128 \<le> ord c" by (auto simp: isprint_def)
  then show ?case using Cons by auto
qed simp

lemma request_len_cabeceras:
  "list_all cabecera_ok hs \<Longrightarrow>
     get_request_len_desde i (LF # cabeceras hs @ [CR, LF]) = int (i + 3 + length (cabeceras hs))"
proof (induction hs arbitrary: i)
  case (Cons h hs)
  obtain k v where h: "h = (k, v)" by (cases h)
  have ok: "k \<noteq> []" "imprimible (k @ '': '' @ v)"
    using Cons.prems by (simp_all add: h cabecera_ok_def isprint_def)
  then have "hd k \<noteq> LF" "hd k \<noteq> CR" using imprimible_no [of k] by (auto dest: hd_in_set)
  moreover have "cabeceras (h # hs) @ [CR, LF] = (k @ '': '' @ v) @ CR # LF # cabeceras hs @ [CR, LF]"
    by (simp add: h cabeceras_def)
  moreover have "get_request_len_desde (i + 1) ((k @ '': '' @ v) @ CR # LF # cabeceras hs @ [CR, LF])
      = int (i + 3 + length (cabeceras (h # hs)))"
    using Cons.IH [of "i + 2 + length (k @ '': '' @ v)"] Cons.prems
    by (subst request_len_salta [OF ok(2)]) (simp_all add: h cabeceras_def)
  ultimately show ?case using ok(1) by (cases k) auto
qed (simp add: cabeceras_def)

lemma get_request_len_peticion:
  assumes "imprimible m" and "imprimible t" and "list_all cabecera_ok hs"
  shows "get_request_len (peticion m t hs) = int (length (peticion m t hs))"
proof -
  have i: "imprimible (m @ '' '' @ t @ '' HTTP/1.1'')" using assms by (simp add: isprint_def)
  have p: "peticion m t hs = (m @ '' '' @ t @ '' HTTP/1.1'') @ CR # LF # cabeceras hs @ [CR, LF]"
    by (simp add: peticion_def)
  show ?thesis
    using request_len_cabeceras [OF assms(3), of "Suc (length (m @ '' '' @ t @ '' HTTP/1.1''))"]
    unfolding get_request_len_def p request_len_salta [OF i] by simp
qed

lemma metodo_ok: "is_valid_http_method m \<Longrightarrow> m \<noteq> [] \<and> imprimible m \<and> CHR '' '' \<notin> set m \<and> \<not> isspace (hd m)"
  by (auto simp: is_valid_http_method_def isprint_def isspace_def)

lemma parse_peticion:
  assumes "is_valid_http_method m" and "imprimible t" and "t \<noteq> []" and "CHR '' '' \<notin> set t"
    and "list_all cabecera_ok hs" and "length hs \<le> 30"
  defines "camino \<equiv> takeWhile (\<lambda>c. c \<noteq> CHR ''?'') t"
  assumes "CHR ''%'' \<notin> set camino" and "apunta camino = CHR ''/''"
  shows "parse_http_message (peticion m t hs) =
    Some \<lparr>request_method = m, uri = remove_double_dots_and_double_slashes camino, http_version = ''1.1'',
      query_string = (if CHR ''?'' \<in> set t then Some (drop (length camino + 1) t) else None),
      http_headers = hs, content = [], request_status = 0\<rparr>"
proof -
  let ?buf = "m @ CHR '' '' # t @ CHR '' '' # ''HTTP/1.1'' @ CR # LF # cabeceras hs @ [CR]"
  note m = metodo_ok [OF assms(1)]
  have "NUL \<notin> set (cabeceras hs)"
    using assms(5) by (auto simp: cabeceras_def list_all_iff cabecera_ok_def dest: imprimible_no)
  then have "NUL \<notin> set ?buf" using m assms(2) by (auto dest: imprimible_no)
  moreover have "butlast (peticion m t hs) = ?buf"
    by (simp add: peticion_def butlast_append)
  ultimately have c: "c_str (butlast (peticion m t hs)) = ?buf" by simp
  have sp: "dropWhile isspace ?buf = ?buf" using m by (intro dropWhile_cabeza) auto
  have 1: "skip ?buf '' '' = (m, t @ CHR '' '' # ''HTTP/1.1'' @ CR # LF # cabeceras hs @ [CR])"
    using m assms(3,4) by (subst skip_hasta) (auto intro!: dropWhile_cabeza dest: hd_in_set)
  have 2: "skip (t @ CHR '' '' # ''HTTP/1.1'' @ CR # LF # cabeceras hs @ [CR]) '' ''
      = (t, ''HTTP/1.1'' @ CR # LF # cabeceras hs @ [CR])"
    using assms(4) by (subst skip_hasta) auto
  have 3: "skip (''HTTP/1.1'' @ CR # LF # cabeceras hs @ [CR]) [CR, LF]
      = (''HTTP/1.1'', dropWhile (\<lambda>c. c \<in> set [CR, LF]) (cabeceras hs @ [CR]))"
    by (subst skip_hasta) auto
  have nul: "NUL \<notin> set camino"
    using imprimible_no [OF assms(2)] by (auto simp: camino_def dest: set_takeWhileD)
  then have d: "c_str (fst (mg_url_decode camino (length camino + 1) False)) = camino"
    using assms(8) by (simp add: mg_url_decode_def url_decode_literal)
  have "length (peticion m t hs) \<noteq> 0" by (simp add: peticion_def)
  then show ?thesis
    unfolding parse_http_message_def c sp Let_def 1 2 3 prod.case parse_cabeceras [OF assms(5,6)]
      camino_def [symmetric] d
    using assms(1,9) by simp
qed

section \<open>Properties\<close>

text \<open>
  C29: decoding undoes encoding: what \<open>mg_url_encode\<close> writes for a string, \<open>mg_url_decode\<close> turns
  back into the string, in either mode, when the buffers are large enough.
\<close>
theorem url_round_trip:
  assumes "3 * length s < n" and "length s < n'"
  shows "mg_url_decode (mg_url_encode s n) n' form = (s, int (length s))"
  using assms by (simp add: mg_url_encode_eq mg_url_decode_encode)

theorem url_round_trip_witness:
  "mg_url_decode (mg_url_encode ''a b&c=%'' 100) 20 True = (''a b&c=%'', 7)"
  using url_round_trip [of "''a b&c=%''" 100 20 True] by simp

text \<open>
  C28: \<open>mg_get_var\<close> finds a variable of a form: the value of the first entry of the body whose
  name is the wanted one up to case, decoded, with its length; and -1 when there is none. The
  query string, when there is one, is searched first.
\<close>
theorem mg_get_var_form:
  assumes "nombre_ok name" and "\<forall>(k, v) \<in> set qs. nombre_ok k \<and> length v < n"
    and "\<forall>(k, v) \<in> set kvs. nombre_ok k \<and> length v < n" and "0 < n"
    and "query_string c = Some (form_encode qs)" and "content c = form_encode kvs"
  shows "mg_get_var c name n =
    (case primera name (qs @ kvs) of None \<Rightarrow> (- 1, []) | Some (k, v) \<Rightarrow> (int (length v), v))"
proof -
  have "primera name (qs @ kvs) = (case primera name qs of None \<Rightarrow> primera name kvs | Some kv \<Rightarrow> Some kv)"
    unfolding primera_def by (induction qs) auto
  then show ?thesis
    using assms get_var_form [OF assms(1,2)] get_var_form [OF assms(1,3)]
    by (auto simp: mg_get_var_def get_var_def split: option.splits)
qed

theorem mg_get_var_form_witness:
  "\<exists>c. query_string c = Some (form_encode [(''a'', ''x y'')]) \<and> content c = form_encode [(''Token'', ''1&2'')] \<and>
     mg_get_var c ''token'' 10 = (3, ''1&2'')"
proof -
  let ?c = "\<lparr>request_method = ''PUT'', uri = ''/'', http_version = ''1.1'',
    query_string = Some (form_encode [(''a'', ''x y'')]), http_headers = [],
    content = form_encode [(''Token'', ''1&2'')], request_status = 0\<rparr>"
  have "map tolower ''token'' = map tolower ''Token''" "map tolower ''token'' \<noteq> map tolower ''a''" by code_simp+
  then have "mg_get_var ?c ''token'' 10 = (3, ''1&2'')"
    using mg_get_var_form [of "''token''" "[(''a'', ''x y'')]" 10 "[(''Token'', ''1&2'')]" ?c]
    by (simp add: nombre_ok_def primera_def)
  then show ?thesis by (intro exI [of _ ?c]) simp
qed





end
