(* ===== verification/Mongoose_Respuesta.thy ===== *)
theory Mongoose_Respuesta
  imports Mundo Mongoose_Peticion Json_Writer Loger
begin

text \<open>
  The part of \<open>WebServer/mongoose.c\<close> the services answer with: formatted printing into the send
  buffer, the status line and the headers, and the chunks of the body. The allocations always
  succeed.
\<close>

section \<open>Definitions\<close>

definition ns_send :: "string \<Rightarrow> unit accion" where
  "ns_send buf = modifica (\<lambda>w. w\<lparr>salida := (salida w)\<lparr>send_iobuf := send_iobuf (salida w) @ buf\<rparr>\<rparr>)"

text \<open>
  What \<open>vsnprintf\<close> makes of a format when no argument was passed: a doubled percent sign prints one,
  any other conversion would read an argument that is not there.
\<close>

fun vsnprintf_sin_args :: "string \<Rightarrow> string res" where
  "vsnprintf_sin_args [] = Inr []"
| "vsnprintf_sin_args (c # s) =
     (if c = CHR ''%'' then
        (case s of
           [] \<Rightarrow> Inl (Indefinido ''incomplete conversion'')
         | d # s' \<Rightarrow> if d = CHR ''%'' then bnd (vsnprintf_sin_args s') (\<lambda>t. Inr (CHR ''%'' # t))
                    else Inl (Indefinido ''conversion without argument''))
      else bnd (vsnprintf_sin_args s) (\<lambda>t. Inr (c # t)))"

text \<open>
  The bytes of the buffer that \<open>ns_avprintf\<close> leaves for a text, as many as the length it returns: a
  text of exactly the size of the buffer is cut by the final NUL, and no larger buffer is allocated.
\<close>

definition ns_avprintf :: "nat \<Rightarrow> string \<Rightarrow> string" where
  "ns_avprintf tam texto = (if length texto = tam then take (tam - 1) texto @ [NUL] else texto)"

definition ns_vprintf :: "string \<Rightarrow> unit accion" where
  "ns_vprintf texto = (let buf = ns_avprintf 500 texto in if 0 < length buf then ns_send buf else ret ())"

definition status_code_to_str :: "int \<Rightarrow> string" where
  "status_code_to_str code =
     (case map_of
        [(100, ''Continue''), (101, ''Switching Protocols''), (102, ''Processing''),
         (200, ''OK''), (201, ''Created''), (202, ''Accepted''), (203, ''Non-Authoritative Information''),
         (204, ''No Content''), (205, ''Reset Content''), (206, ''Partial Content''), (207, ''Multi-Status''),
         (208, ''Already Reported''), (226, ''IM Used''),
         (300, ''Multiple Choices''), (301, ''Moved Permanently''), (302, ''Found''), (303, ''See Other''),
         (304, ''Not Modified''), (305, ''Use Proxy''), (306, ''Switch Proxy''), (307, ''Temporary Redirect''),
         (308, ''Permanent Redirect''),
         (400, ''Bad Request''), (401, ''Unauthorized''), (402, ''Payment Required''), (403, ''Forbidden''),
         (404, ''Not Found''), (405, ''Method Not Allowed''), (406, ''Not Acceptable''),
         (407, ''Proxy Authentication Required''), (408, ''Request Timeout''), (409, ''Conflict''),
         (410, ''Gone''), (411, ''Length Required''), (412, ''Precondition Failed''),
         (413, ''Payload Too Large''), (414, ''URI Too Long''), (415, ''Unsupported Media Type''),
         (416, ''Requested Range Not Satisfiable''), (417, ''Expectation Failed''),
         (418, ''I'' @ [CHR 0x27] @ ''m a teapot''), (422, ''Unprocessable Entity''), (423, ''Locked''),
         (424, ''Failed Dependency''), (426, ''Upgrade Required''), (428, ''Precondition Required''),
         (429, ''Too Many Requests''), (431, ''Request Header Fields Too Large''),
         (451, ''Unavailable For Legal Reasons''),
         (500, ''Internal Server Error''), (501, ''Not Implemented''), (502, ''Bad Gateway''),
         (503, ''Service Unavailable''), (504, ''Gateway Timeout''), (505, ''HTTP Version Not Supported''),
         (506, ''Variant Also Negotiates''), (507, ''Insufficient Storage''), (508, ''Loop Detected''),
         (510, ''Not Extended''), (511, ''Network Authentication Required'')] code of
        Some s \<Rightarrow> s | None \<Rightarrow> ''Server Error'')"

text \<open>\<open>mg_printf(c, "HTTP/1.1 %d %s\r\n", status, ...)\<close>\<close>

definition linea_de_estado :: "int \<Rightarrow> string" where
  "linea_de_estado status =
     ''HTTP/1.1 '' @ valueToString_int status @ '' '' @ status_code_to_str status @ [CR, LF]"

definition poner_estado :: "int \<Rightarrow> unit accion" where
  "poner_estado status =
     luego (modifica (\<lambda>w. w\<lparr>salida := (salida w)\<lparr>status_code := status\<rparr>\<rparr>)) (\<lambda>_.
       ns_vprintf (linea_de_estado status))"

definition mg_send_status :: "int \<Rightarrow> unit accion" where
  "mg_send_status status =
     luego (consulta (\<lambda>w. status_code (salida w))) (\<lambda>codigo.
     luego (if codigo = 0 then poner_estado status else ret ()) (\<lambda>_.
       modifica (\<lambda>w. w\<lparr>salida := (salida w)\<lparr>using_chunked_api := True\<rparr>\<rparr>)))"

definition mg_send_header :: "string \<Rightarrow> string \<Rightarrow> unit accion" where
  "mg_send_header name v =
     luego (consulta (\<lambda>w. status_code (salida w))) (\<lambda>codigo.
     luego (if codigo = 0 then poner_estado 200 else ret ()) (\<lambda>_.
     luego (ns_vprintf (name @ '': '' @ v @ [CR, LF])) (\<lambda>_.
       modifica (\<lambda>w. w\<lparr>salida := (salida w)\<lparr>using_chunked_api := True\<rparr>\<rparr>))))"

definition mg_write :: "string \<Rightarrow> unit accion" where
  "mg_write buf = ns_send buf"

definition terminate_headers :: "unit accion" where
  "terminate_headers =
     luego (consulta (\<lambda>w. headers_sent (salida w))) (\<lambda>enviadas.
       if \<not> enviadas then
         luego (mg_send_header ''Transfer-Encoding'' ''chunked'') (\<lambda>_.
         luego (mg_write [CR, LF]) (\<lambda>_.
           modifica (\<lambda>w. w\<lparr>salida := (salida w)\<lparr>headers_sent := True\<rparr>\<rparr>)))
       else ret ())"

text \<open>\<open>%X\<close>\<close>

fun printf_X :: "nat \<Rightarrow> string" where
  "printf_X n = (if n < 16 then [HEX_digit n] else printf_X (n div 16) @ [HEX_digit (n mod 16)])"

declare printf_X.simps [simp del]

definition write_chunk :: "string \<Rightarrow> unit accion" where
  "write_chunk buf =
     luego (ns_send (printf_X (length buf) @ [CR, LF])) (\<lambda>_.
     luego (ns_send buf) (\<lambda>_. ns_send [CR, LF]))"

definition mg_send_data :: "string \<Rightarrow> unit accion" where
  "mg_send_data data = luego terminate_headers (\<lambda>_. write_chunk data)"

definition mg_printf_data :: "string \<Rightarrow> unit accion" where
  "mg_printf_data fmt =
     luego terminate_headers (\<lambda>_.
     luego (eleva (vsnprintf_sin_args (c_str fmt))) (\<lambda>texto. write_chunk (ns_avprintf 8192 texto)))"

definition write_terminating_chunk :: "unit accion" where
  "write_terminating_chunk = mg_write (''0'' @ [CR, LF, CR, LF])"

text \<open>What \<open>call_request_handler\<close> does after the handler: the end of a chunked answer.\<close>

definition terminar_respuesta :: "unit accion" where
  "terminar_respuesta =
     luego (consulta (\<lambda>w. using_chunked_api (salida w))) (\<lambda>chunked.
       if chunked then luego terminate_headers (\<lambda>_. write_terminating_chunk) else ret ())"

section \<open>What reaches the send buffer\<close>

lemma mg_send_header_run:
  "length (name @ '': '' @ v) + 2 < 500 \<Longrightarrow>
   mg_send_header name v w = Inr ((), w\<lparr>salida := (salida w)\<lparr>
     send_iobuf := send_iobuf (salida w) @ (if status_code (salida w) = 0 then ''HTTP/1.1 200 OK'' @ [CR, LF] else [])
       @ name @ '': '' @ v @ [CR, LF],
     using_chunked_api := True, status_code := (if status_code (salida w) = 0 then 200 else status_code (salida w))\<rparr>\<rparr>)"
proof -
  have "linea_de_estado 200 = ''HTTP/1.1 200 OK'' @ [CR, LF]" by code_simp
  then show "length (name @ '': '' @ v) + 2 < 500 \<Longrightarrow> ?thesis"
    by (simp add: mg_send_header_def luego_def poner_estado_def ns_vprintf_def ns_avprintf_def ns_send_def Let_def)
qed

text \<open>An answer as a function of the connection: the headers when they are not out yet, and a chunk.\<close>

definition trozo :: "string \<Rightarrow> string" where
  "trozo t = printf_X (length t) @ [CR, LF] @ t @ [CR, LF]"

definition cabecera_respuesta :: "envio \<Rightarrow> string" where
  "cabecera_respuesta e =
     (if headers_sent e then []
      else (if status_code e = 0 then ''HTTP/1.1 200 OK'' @ [CR, LF] else []) @
           ''Transfer-Encoding: chunked'' @ [CR, LF, CR, LF])"

definition con_cabecera :: "envio \<Rightarrow> envio" where
  "con_cabecera e =
     (if headers_sent e then e
      else e\<lparr>send_iobuf := send_iobuf e @ cabecera_respuesta e, headers_sent := True, using_chunked_api := True,
             status_code := (if status_code e = 0 then 200 else status_code e)\<rparr>)"

definition enviar :: "string \<Rightarrow> envio \<Rightarrow> envio" where
  "enviar t e = (let e' = con_cabecera e in e'\<lparr>send_iobuf := send_iobuf e' @ trozo t\<rparr>)"

lemma terminate_headers_run:
  "terminate_headers w = Inr ((), w\<lparr>salida := con_cabecera (salida w)\<rparr>)"
  by (simp add: terminate_headers_def luego_def mg_send_header_run mg_write_def ns_send_def con_cabecera_def
      cabecera_respuesta_def)

lemma write_chunk_run:
  "write_chunk t w = Inr ((), w\<lparr>salida := (salida w)\<lparr>send_iobuf := send_iobuf (salida w) @ trozo t\<rparr>\<rparr>)"
  by (simp add: write_chunk_def luego_def ns_send_def trozo_def)

lemma vsnprintf_literal: "CHR ''%'' \<notin> set s \<Longrightarrow> vsnprintf_sin_args s = Inr s"
  by (induction s) auto

lemma mg_send_data_run: "mg_send_data t w = Inr ((), w\<lparr>salida := enviar t (salida w)\<rparr>)"
  by (simp add: mg_send_data_def luego_def terminate_headers_run write_chunk_run enviar_def Let_def)

lemma mg_printf_data_run:
  assumes "CHR ''%'' \<notin> set fmt" and "NUL \<notin> set fmt"
  shows "mg_printf_data fmt w = Inr ((), w\<lparr>salida := enviar (ns_avprintf 8192 fmt) (salida w)\<rparr>)"
  using assms
  by (simp add: mg_printf_data_def luego_def terminate_headers_run write_chunk_run enviar_def Let_def
      vsnprintf_literal)

text \<open>A percent sign that is not doubled is undefined behaviour.\<close>

lemma vsnprintf_conversion:
  "CHR ''%'' \<notin> set a \<Longrightarrow> d \<noteq> CHR ''%'' \<Longrightarrow>
     vsnprintf_sin_args (a @ CHR ''%'' # d # b) = Inl (Indefinido ''conversion without argument'')"
  by (induction a) auto

section \<open>Reading a chunked body\<close>

text \<open>The decoder of a client: the size in hexadecimal digits, the data, and a final chunk of size 0.\<close>

definition valor_hex :: "string \<Rightarrow> nat" where
  "valor_hex h = foldl (\<lambda>n c. 16 * n + HEXTOI (tolower c)) 0 h"

fun leer_trozos :: "nat \<Rightarrow> string \<Rightarrow> string option" where
  "leer_trozos 0 s = None"
| "leer_trozos (Suc k) s =
     (let h = takeWhile isxdigit s; r = drop (length h) s; n = valor_hex h; datos = drop 2 r
      in if h = [] \<or> take 2 r \<noteq> [CR, LF] then None
         else if n = 0 then (if datos = [CR, LF] then Some [] else None)
         else if length datos < n + 2 \<or> take 2 (drop n datos) \<noteq> [CR, LF] then None
         else map_option (\<lambda>t. take n datos @ t) (leer_trozos k (drop (n + 2) datos)))"

lemma HEX_digit_valor:
  assumes "n < 16"
  shows "isxdigit (HEX_digit n)" and "HEXTOI (tolower (HEX_digit n)) = n"
proof -
  have "\<forall>n \<in> set [0..<16]. isxdigit (HEX_digit n) \<and> HEXTOI (tolower (HEX_digit n)) = n" by code_simp
  then show "isxdigit (HEX_digit n)" and "HEXTOI (tolower (HEX_digit n)) = n" using assms by auto
qed

lemma printf_X_valor: "valor_hex (printf_X n) = n \<and> printf_X n \<noteq> [] \<and> (\<forall>c \<in> set (printf_X n). isxdigit c)"
proof (induction n rule: printf_X.induct)
  case (1 n)
  show ?case
  proof (cases "n < 16")
    case True
    then show ?thesis by (simp add: printf_X.simps [of n] valor_hex_def HEX_digit_valor)
  next
    case False
    with 1 show ?thesis by (auto simp: printf_X.simps [of n] valor_hex_def HEX_digit_valor)
  qed
qed

lemma no_xdigit [simp]: "\<not> isxdigit CR"
  by (simp add: ctype_defs)

lemma takeWhile_printf_X:
  "takeWhile isxdigit (printf_X n @ CR # s) = printf_X n"
  using printf_X_valor [of n] by (simp add: takeWhile_append2)

lemma leer_trozo:
  assumes "t \<noteq> []"
  shows "leer_trozos (Suc k) (trozo t @ s) = map_option (\<lambda>r. t @ r) (leer_trozos k s)"
  using assms printf_X_valor [of "length t"]
  by (simp add: trozo_def takeWhile_printf_X Let_def)

lemma leer_final: "leer_trozos (Suc k) (''0'' @ [CR, LF, CR, LF]) = Some []"
  by (simp add: isxdigit_def isdigit_def valor_hex_def HEXTOI_def tolower_def isupper_def)

section \<open>Properties\<close>

lemma respuesta_completa:
  assumes "salida w = envio_nuevo" and "CHR ''%'' \<notin> set fmt" and "NUL \<notin> set fmt" and "fmt \<noteq> []"
  shows "\<exists>w' b. luego (mg_printf_data fmt) (\<lambda>_. terminar_respuesta) w = Inr ((), w') \<and>
    send_iobuf (salida w') = ''HTTP/1.1 200 OK'' @ [CR, LF] @ ''Transfer-Encoding: chunked'' @ [CR, LF, CR, LF] @ b \<and>
    leer_trozos 2 b = Some (ns_avprintf 8192 fmt)"
proof -
  let ?t = "ns_avprintf 8192 fmt"
  let ?b = "trozo ?t @ ''0'' @ [CR, LF, CR, LF]"
  have "?t \<noteq> []" using assms(4) by (simp add: ns_avprintf_def)
  then have "leer_trozos 2 ?b = Some ?t"
    using leer_trozo [of ?t 1 "''0'' @ [CR, LF, CR, LF]"] leer_final [of 0]
    by (simp add: numeral_2_eq_2 del: leer_trozos.simps)
  moreover have "luego (mg_printf_data fmt) (\<lambda>_. terminar_respuesta) w = Inr ((), w\<lparr>salida :=
      (enviar ?t (salida w))\<lparr>send_iobuf := send_iobuf (enviar ?t (salida w)) @ ''0'' @ [CR, LF, CR, LF]\<rparr>\<rparr>)"
    using assms
    by (simp add: luego_def mg_printf_data_run terminar_respuesta_def terminate_headers_run enviar_def
        con_cabecera_def envio_nuevo_def write_terminating_chunk_def mg_write_def ns_send_def Let_def)
  ultimately show ?thesis
    using assms(1) by (simp add: enviar_def con_cabecera_def cabecera_respuesta_def envio_nuevo_def Let_def)
qed





end
