(* ===== verification/Doble_Aritmetica.thy ===== *)
theory Doble_Aritmetica
  imports Complex_Main Doble
begin

text \<open>
  The arithmetic on \<open>double\<close> that \<open>Localizacion\<close> uses: difference, sum, square, square root and
  comparison, each the exact result rounded once to the nearest value, as IEEE-754 has it
  (\<open>pow(x, 2)\<close> is the rounded square), the conversion of integers, and \<open>atof\<close>.
\<close>

section \<open>Definitions\<close>

text \<open>The rounding of \<open>(-1) ^ neg * n * 2 ^ e\<close>.\<close>

definition redondear2 :: "bool \<Rightarrow> nat \<Rightarrow> int \<Rightarrow> doble" where
  "redondear2 neg n e = (if 0 \<le> e then redondear neg (n * 2 ^ nat e) 1 else redondear neg n (2 ^ nat (- e)))"

definition con_signo :: "bool \<Rightarrow> nat \<Rightarrow> int" where
  "con_signo neg n = (if neg then - int n else int n)"

text \<open>The two significands over the smaller exponent.\<close>

definition alinear :: "bool \<Rightarrow> nat \<Rightarrow> int \<Rightarrow> int \<Rightarrow> int" where
  "alinear neg m e e0 = con_signo neg m * 2 ^ nat (e - e0)"

definition doble_neg :: "doble \<Rightarrow> doble" where
  "doble_neg d = (case d of NaN \<Rightarrow> NaN | Infinito neg \<Rightarrow> Infinito (\<not> neg) | Fin neg m e \<Rightarrow> Fin (\<not> neg) m e)"

fun doble_suma :: "doble \<Rightarrow> doble \<Rightarrow> doble" where
  "doble_suma NaN b = NaN"
| "doble_suma (Infinito s) b = (case b of NaN \<Rightarrow> NaN | Infinito t \<Rightarrow> if s = t then Infinito s else NaN | Fin _ _ _ \<Rightarrow> Infinito s)"
| "doble_suma (Fin s m e) b = (case b of
      NaN \<Rightarrow> NaN
    | Infinito t \<Rightarrow> Infinito t
    | Fin t n f \<Rightarrow>
        (let e0 = min e f; x = alinear s m e e0 + alinear t n f e0
         in if x = 0 then Fin (s \<and> t) 0 (- 1074) else redondear2 (x < 0) (nat \<bar>x\<bar>) e0))"

definition doble_resta :: "doble \<Rightarrow> doble \<Rightarrow> doble" where
  "doble_resta a b = doble_suma a (doble_neg b)"

definition doble_cuadrado :: "doble \<Rightarrow> doble" where
  "doble_cuadrado d = (case d of NaN \<Rightarrow> NaN | Infinito _ \<Rightarrow> Infinito False | Fin _ m e \<Rightarrow> redondear2 False (m * m) (2 * e))"

fun raiz_entera :: "nat \<Rightarrow> nat" where
  "raiz_entera n =
     (if n = 0 then 0
      else let r = 2 * raiz_entera (n div 4) in if (r + 1) * (r + 1) \<le> n then r + 1 else r)"

declare raiz_entera.simps [simp del]

text \<open>
  The significand is scaled to at least 110 bits with an even exponent, so that its integer root has
  more than 54 bits; the last bit of \<open>2 * r + 1\<close> says that the root is not exact.
\<close>

definition doble_sqrt :: "doble \<Rightarrow> doble" where
  "doble_sqrt d = (case d of
      NaN \<Rightarrow> NaN
    | Infinito neg \<Rightarrow> (if neg then NaN else Infinito False)
    | Fin neg m e \<Rightarrow>
        (if m = 0 then d
         else if neg then NaN
         else let k = (if even e then 112 else 113); n = m * 2 ^ k; r = raiz_entera n
              in redondear2 False (if r * r = n then 2 * r else 2 * r + 1) ((e - int k) div 2 - 1)))"

fun doble_le :: "doble \<Rightarrow> doble \<Rightarrow> bool" where
  "doble_le NaN b \<longleftrightarrow> False"
| "doble_le (Infinito s) b \<longleftrightarrow> (case b of NaN \<Rightarrow> False | Infinito t \<Rightarrow> s \<or> \<not> t | Fin _ _ _ \<Rightarrow> s)"
| "doble_le (Fin s m e) b \<longleftrightarrow> (case b of
      NaN \<Rightarrow> False
    | Infinito t \<Rightarrow> \<not> t
    | Fin t n f \<Rightarrow> alinear s m e (min e f) \<le> alinear t n f (min e f))"

definition int_a_doble :: "int \<Rightarrow> doble" where
  "int_a_doble n = redondear (n < 0) (nat \<bar>n\<bar>) 1"

section \<open>\<open>atof\<close>\<close>

definition sin_caso :: "string \<Rightarrow> string \<Rightarrow> bool" where
  "sin_caso palabra s \<longleftrightarrow> map tolower (take (length palabra) s) = palabra"

definition valor_hexadecimal :: "string \<Rightarrow> nat" where
  "valor_hexadecimal ds = foldl (\<lambda>n c. 16 * n + (if isdigit c then ord c - 48 else ord (tolower c) - 87)) 0 ds"

text \<open>The exponent after a marker; without digits the marker is not part of the number.\<close>

definition leer_exponente :: "char \<Rightarrow> string \<Rightarrow> int" where
  "leer_exponente marca s =
     (if s \<noteq> [] \<and> tolower (hd s) = marca then
        (let (neg, s') = leer_signo (tl s); ds = takeWhile isdigit s'
         in con_signo neg (valor_digitos ds))
      else 0)"

definition strtod_hexadecimal :: "bool \<Rightarrow> string \<Rightarrow> doble" where
  "strtod_hexadecimal neg s =
     (let ip = takeWhile isxdigit s;
          s1 = dropWhile isxdigit s;
          con_punto = (s1 \<noteq> [] \<and> hd s1 = CHR ''.'');
          fp = (if con_punto then takeWhile isxdigit (tl s1) else []);
          s2 = (if con_punto then dropWhile isxdigit (tl s1) else s1)
      in redondear2 neg (valor_hexadecimal (ip @ fp)) (leer_exponente CHR ''p'' s2 - 4 * int (length fp)))"

definition strtod_decimal :: "bool \<Rightarrow> string \<Rightarrow> doble" where
  "strtod_decimal neg s =
     (let ip = takeWhile isdigit s;
          s1 = dropWhile isdigit s;
          con_punto = (s1 \<noteq> [] \<and> hd s1 = CHR ''.'');
          fp = (if con_punto then takeWhile isdigit (tl s1) else []);
          s2 = (if con_punto then dropWhile isdigit (tl s1) else s1)
      in if ip @ fp = [] then Fin False 0 (- 1074)
         else decimal_a_doble neg (valor_digitos (ip @ fp)) (leer_exponente CHR ''e'' s2 - int (length fp)))"

text \<open>Whether digits follow the prefix \<open>0x\<close>; otherwise only its zero is read.\<close>

definition hay_hexadecimal :: "string \<Rightarrow> bool" where
  "hay_hexadecimal s \<longleftrightarrow> sin_caso ''0x'' s \<and>
     (case drop 2 s of
        [] \<Rightarrow> False
      | c # cs \<Rightarrow> isxdigit c \<or> c = CHR ''.'' \<and> cs \<noteq> [] \<and> isxdigit (hd cs))"

definition atof :: "string \<Rightarrow> doble" where
  "atof texto =
     (let (neg, s) = leer_signo (dropWhile isspace (c_str texto))
      in if sin_caso ''inf'' s then Infinito neg
         else if sin_caso ''nan'' s then NaN
         else if hay_hexadecimal s then strtod_hexadecimal neg (drop 2 s)
         else strtod_decimal neg s)"

section \<open>Comparison is an order on the numbers\<close>

definition valor :: "doble \<Rightarrow> real" where
  "valor d = (case d of Fin neg m e \<Rightarrow> of_int (con_signo neg m) * 2 powi e | _ \<Rightarrow> 0)"

lemma alinear_valor: "e0 \<le> e \<Longrightarrow> of_int (alinear s m e e0) * (2::real) powi e0 = valor (Fin s m e)"
proof -
  assume "e0 \<le> e"
  then have "(2::real) ^ nat (e - e0) = 2 powi (e - e0)" by (simp add: power_int_def)
  then have "(2::real) ^ nat (e - e0) * 2 powi e0 = 2 powi e" by (simp flip: power_int_add)
  then show ?thesis by (simp add: alinear_def valor_def mult.assoc)
qed

lemma doble_le_valor: "doble_le (Fin s m e) (Fin t n f) \<longleftrightarrow> valor (Fin s m e) \<le> valor (Fin t n f)"
proof -
  let ?e0 = "min e f"
  have "(0::real) < 2 powi ?e0" by simp
  then have "alinear s m e ?e0 \<le> alinear t n f ?e0 \<longleftrightarrow>
      of_int (alinear s m e ?e0) * (2::real) powi ?e0 \<le> of_int (alinear t n f ?e0) * 2 powi ?e0"
    by (simp only: mult_le_cancel_right_pos of_int_le_iff)
  then show ?thesis by (simp add: alinear_valor)
qed

lemma doble_le_Fin: "\<not> doble_le (Fin s m e) NaN" "doble_le (Fin s m e) (Infinito t) \<longleftrightarrow> \<not> t"
  by simp_all

lemma doble_le_trans: "doble_le a b \<Longrightarrow> doble_le b c \<Longrightarrow> doble_le a c"
  by (cases a; cases b; cases c)
    (auto simp del: doble_le.simps(3) simp: doble_le_valor doble_le_Fin split: doble.splits)

end
