(* ===== verification/Localizacion.thy ===== *)
theory Localizacion
  imports Doble_Aritmetica Loger Json_Reader
begin

text \<open>
  \<open>Utilidades/Localizacion\<close>: the places loaded from a file, and the place a pair of coordinates
  belongs to. The file is given by its contents, \<open>None\<close> when it cannot be opened.
\<close>

section \<open>Definitions\<close>

definition asDouble :: "json \<Rightarrow> doble res" where
  "asDouble j = (case j of
      JInt n \<Rightarrow> Inr (int_a_doble n)
    | JUInt n \<Rightarrow> Inr (int_a_doble (int n))
    | JReal d \<Rightarrow> Inr d
    | JNull \<Rightarrow> Inr (Fin False 0 (- 1074))
    | JBool b \<Rightarrow> Inr (if b then int_a_doble 1 else Fin False 0 (- 1074))
    | _ \<Rightarrow> Inl (LogicError ''Value is not convertible to double.''))"

text \<open>\<open>j[key]\<close> through the non-const operator: the member, and \<open>j\<close> with the member created if it was missing.\<close>

definition miembro :: "string \<Rightarrow> json \<Rightarrow> (json \<times> json) res" where
  "miembro key j = bnd (resolveReference key Inr j) (\<lambda>j'. bnd (json_at_key j' key) (\<lambda>v. Inr (v, j')))"

definition miembro_double :: "string \<Rightarrow> json \<Rightarrow> doble res" where
  "miembro_double key j = bnd (miembro key j) (\<lambda>(v, j'). asDouble v)"

definition distanciaMaxima :: doble where
  "distanciaMaxima = int_a_doble 999"

definition calcularDistancia :: "json \<Rightarrow> json \<Rightarrow> doble res" where
  "calcularDistancia coordenadasA coordenadasB =
     bnd (miembro_double ''latitud'' coordenadasA) (\<lambda>latA.
     bnd (miembro_double ''latitud'' coordenadasB) (\<lambda>latB.
     bnd (miembro_double ''longitud'' coordenadasA) (\<lambda>lonA.
     bnd (miembro_double ''longitud'' coordenadasB) (\<lambda>lonB.
       let deltaLatitud = doble_resta latA latB;
           deltaLongitud = doble_resta lonA lonB
       in Inr (doble_sqrt (doble_suma (doble_cuadrado deltaLatitud) (doble_cuadrado deltaLongitud)))))))"

text \<open>
  The exception the call ends in, if any, with the state at that point: the reader writes into
  \<open>lugares\<close> also when the document turns out to be malformed.
\<close>

definition cargarLugares :: "string \<Rightarrow> string option \<Rightarrow> fallo option accion" where
  "cargarLugares pathArchivoLugares archivo =
     (case archivo of
        None \<Rightarrow> ret (Some (RuntimeError (''No se pudo abrir el archivo: '' @ pathArchivoLugares)))
      | Some texto \<Rightarrow>
          luego (consulta lugares) (\<lambda>actuales.
          luego (eleva (parse (takeWhile (\<lambda>c. c \<noteq> CHR 0xFF) texto) actuales)) (\<lambda>(parseoExitoso, leidos).
          luego (modifica (\<lambda>w. w\<lparr>lugares := leidos\<rparr>)) (\<lambda>_.
            ret (if \<not> parseoExitoso
                 then Some (RuntimeError ''Error al parsear el archivo de lugares: Formato incorrecto.'')
                 else None)))))"

text \<open>One turn of the loop: the nearest place so far, and the places with the members the turn created.\<close>

definition ubicar :: "json \<Rightarrow> nat \<Rightarrow> (string \<times> doble) \<times> json \<Rightarrow> ((string \<times> doble) \<times> json) res" where
  "ubicar coordenadas i e =
     (case e of ((ubicacion, distanciaAlMasCercano), ls) \<Rightarrow>
        bnd (json_at ls i) (\<lambda>lugar.
        bnd (calcularDistancia lugar coordenadas) (\<lambda>distanciaActual.
        bnd (miembro ''radio'' lugar) (\<lambda>(r, lugar1).
        bnd (asDouble r) (\<lambda>radio.
        if doble_le distanciaActual distanciaAlMasCercano \<and> doble_le distanciaActual radio
        then bnd (miembro ''nombre'' lugar1) (\<lambda>(n, lugar2).
             bnd (asString n) (\<lambda>nombre.
             bnd (resolveIndex i (\<lambda>_. Inr lugar2) ls) (\<lambda>ls'.
               Inr ((nombre, distanciaActual), ls'))))
        else bnd (resolveIndex i (\<lambda>_. Inr lugar1) ls) (\<lambda>ls'.
               Inr ((ubicacion, distanciaAlMasCercano), ls')))))))"

fun ubicar_todos :: "json \<Rightarrow> nat list \<Rightarrow> (string \<times> doble) \<times> json \<Rightarrow> ((string \<times> doble) \<times> json) res" where
  "ubicar_todos coordenadas [] e = Inr e"
| "ubicar_todos coordenadas (i # is) e = bnd (ubicar coordenadas i e) (ubicar_todos coordenadas is)"

definition calcularUbicacion :: "json \<Rightarrow> string accion" where
  "calcularUbicacion coordenadas =
     luego (consulta lugares) (\<lambda>ls.
     luego (eleva (ubicar_todos coordenadas [0..<json_size ls] ((''desconocida'', distanciaMaxima), ls)))
       (\<lambda>((ubicacion, _), ls').
     luego (modifica (\<lambda>w. w\<lparr>lugares := ls'\<rparr>)) (\<lambda>_. ret ubicacion)))"

section \<open>The nearest place whose radius covers the point\<close>

text \<open>A place as the file describes it.\<close>

record Lugar =
  lug_latitud :: doble
  lug_longitud :: doble
  lug_nombre :: string
  lug_radio :: doble

definition lugar_json :: "Lugar \<Rightarrow> json" where
  "lugar_json p = JObject [(''latitud'', JReal (lug_latitud p)), (''longitud'', JReal (lug_longitud p)),
     (''nombre'', JString (lug_nombre p)), (''radio'', JReal (lug_radio p))]"

definition coordenadas_json :: "doble \<Rightarrow> doble \<Rightarrow> json" where
  "coordenadas_json lat lon = JObject [(''latitud'', JReal lat), (''longitud'', JReal lon)]"

definition distancia :: "doble \<Rightarrow> doble \<Rightarrow> Lugar \<Rightarrow> doble" where
  "distancia lat lon p = doble_sqrt (doble_suma (doble_cuadrado (doble_resta (lug_latitud p) lat))
     (doble_cuadrado (doble_resta (lug_longitud p) lon)))"

definition cubre :: "doble \<Rightarrow> doble \<Rightarrow> Lugar \<Rightarrow> bool" where
  "cubre lat lon p \<longleftrightarrow> doble_le (distancia lat lon p) distanciaMaxima \<and> doble_le (distancia lat lon p) (lug_radio p)"

lemma miembro_lugar:
  "miembro ''latitud'' (lugar_json p) = Inr (JReal (lug_latitud p), lugar_json p)"
  "miembro ''longitud'' (lugar_json p) = Inr (JReal (lug_longitud p), lugar_json p)"
  "miembro ''nombre'' (lugar_json p) = Inr (JString (lug_nombre p), lugar_json p)"
  "miembro ''radio'' (lugar_json p) = Inr (JReal (lug_radio p), lugar_json p)"
  "miembro ''latitud'' (coordenadas_json lat lon) = Inr (JReal lat, coordenadas_json lat lon)"
  "miembro ''longitud'' (coordenadas_json lat lon) = Inr (JReal lon, coordenadas_json lat lon)"
  by (simp_all add: miembro_def lugar_json_def coordenadas_json_def resolveReference_def json_at_key_def
      json_get_def json_find_def less_char_def)

lemma calcularDistancia_lugar:
  "calcularDistancia (lugar_json p) (coordenadas_json lat lon) = Inr (distancia lat lon p)"
  by (simp add: calcularDistancia_def miembro_double_def miembro_lugar asDouble_def distancia_def Let_def)

lemma ubicar_lugar:
  assumes "i < length ps"
  shows "ubicar (coordenadas_json lat lon) i ((u, d), JArray (map lugar_json ps)) =
    Inr ((if doble_le (distancia lat lon (ps ! i)) d \<and> doble_le (distancia lat lon (ps ! i)) (lug_radio (ps ! i))
          then (lug_nombre (ps ! i), distancia lat lon (ps ! i)) else (u, d)), JArray (map lugar_json ps))"
proof -
  have "(map lugar_json ps)[i := lugar_json (ps ! i)] = map lugar_json ps"
    using assms by (simp add: list_update_same_conv)
  then show ?thesis
    using assms by (simp add: ubicar_def json_at_def calcularDistancia_lugar miembro_lugar asDouble_def
      asString_def resolveIndex_def)
qed

lemma doble_le_refl: "d \<noteq> NaN \<Longrightarrow> doble_le d d"
  by (cases d) auto

lemma doble_le_total: "a \<noteq> NaN \<Longrightarrow> b \<noteq> NaN \<Longrightarrow> doble_le a b \<or> doble_le b a"
  by (cases a; cases b) (auto simp: min.commute)

lemma doble_le_NaN: "doble_le a b \<Longrightarrow> a \<noteq> NaN \<and> b \<noteq> NaN"
  by (cases a; cases b) auto

text \<open>What the loop knows after the places with the indices of a list.\<close>

definition hasta_ahora :: "doble \<Rightarrow> doble \<Rightarrow> Lugar set \<Rightarrow> string \<times> doble \<Rightarrow> bool" where
  "hasta_ahora lat lon vistos e \<longleftrightarrow>
     (e = (''desconocida'', distanciaMaxima) \<and> (\<forall>q \<in> vistos. \<not> cubre lat lon q)) \<or>
     (\<exists>p \<in> vistos. e = (lug_nombre p, distancia lat lon p) \<and> cubre lat lon p \<and>
        (\<forall>q \<in> vistos. cubre lat lon q \<longrightarrow> doble_le (distancia lat lon p) (distancia lat lon q)))"

lemma distanciaMaxima_no_NaN: "distanciaMaxima \<noteq> NaN"
  by (simp add: distanciaMaxima_def int_a_doble_def redondear_def Let_def)

lemma hasta_ahora_paso:
  assumes "hasta_ahora lat lon vistos (u, d)"
  shows "hasta_ahora lat lon (insert q vistos)
    (if doble_le (distancia lat lon q) d \<and> doble_le (distancia lat lon q) (lug_radio q)
     then (lug_nombre q, distancia lat lon q) else (u, d))"
proof (cases "\<exists>p \<in> vistos. (u, d) = (lug_nombre p, distancia lat lon p) \<and> cubre lat lon p \<and>
        (\<forall>q \<in> vistos. cubre lat lon q \<longrightarrow> doble_le (distancia lat lon p) (distancia lat lon q))")
  case True
  then obtain p where p: "p \<in> vistos" "u = lug_nombre p" "d = distancia lat lon p" "cubre lat lon p"
    "\<forall>q \<in> vistos. cubre lat lon q \<longrightarrow> doble_le d (distancia lat lon q)" by auto
  have d: "doble_le d distanciaMaxima" "d \<noteq> NaN" using p(3,4) doble_le_NaN by (auto simp: cubre_def)
  show ?thesis
  proof (cases "doble_le (distancia lat lon q) d \<and> doble_le (distancia lat lon q) (lug_radio q)")
    case True
    then have "cubre lat lon q" using doble_le_trans [OF _ d(1)] by (auto simp: cubre_def)
    moreover have "doble_le (distancia lat lon q) (distancia lat lon x)" if "x \<in> vistos" "cubre lat lon x" for x
      using True p(5) that doble_le_trans by blast
    moreover have "doble_le (distancia lat lon q) (distancia lat lon q)"
      using True doble_le_NaN doble_le_refl by blast
    ultimately show ?thesis using True by (auto simp: hasta_ahora_def)
  next
    case False
    have "doble_le d (distancia lat lon q)" if "cubre lat lon q"
      using that False d(2) doble_le_NaN doble_le_total unfolding cubre_def by blast
    then show ?thesis using False p unfolding hasta_ahora_def by auto
  qed
next
  case False
  then have e: "u = ''desconocida''" "d = distanciaMaxima" "\<forall>q \<in> vistos. \<not> cubre lat lon q"
    using assms by (auto simp: hasta_ahora_def)
  then show ?thesis
    using doble_le_refl doble_le_NaN by (auto simp: hasta_ahora_def cubre_def)
qed

lemma ubicar_todos_lugares:
  assumes "hasta_ahora lat lon vistos e" and "\<forall>i \<in> set is. i < length ps"
  shows "\<exists>e'. ubicar_todos (coordenadas_json lat lon) is (e, JArray (map lugar_json ps))
      = Inr (e', JArray (map lugar_json ps)) \<and> hasta_ahora lat lon (vistos \<union> (\<lambda>i. ps ! i) ` set is) e'"
  using assms
proof (induction "is" arbitrary: e vistos)
  case (Cons i "is")
  obtain u d where e: "e = (u, d)" by (cases e)
  let ?e1 = "if doble_le (distancia lat lon (ps ! i)) d \<and> doble_le (distancia lat lon (ps ! i)) (lug_radio (ps ! i))
          then (lug_nombre (ps ! i), distancia lat lon (ps ! i)) else (u, d)"
  have "hasta_ahora lat lon (insert (ps ! i) vistos) ?e1"
    using Cons.prems(1) unfolding e by (rule hasta_ahora_paso)
  from Cons.IH [OF this] Cons.prems(2) show ?case
    by (simp add: e ubicar_lugar)
qed auto

lemma calcularUbicacion_lugares:
  assumes "lugares w = JArray (map lugar_json ps)"
  shows "\<exists>u d. calcularUbicacion (coordenadas_json lat lon) w = Inr (u, w) \<and> hasta_ahora lat lon (set ps) (u, d)"
proof -
  have "hasta_ahora lat lon {} (''desconocida'', distanciaMaxima)" by (simp add: hasta_ahora_def)
  from ubicar_todos_lugares [OF this, of "[0..<length ps]" ps] obtain u d where
    "ubicar_todos (coordenadas_json lat lon) [0..<length ps] ((''desconocida'', distanciaMaxima), JArray (map lugar_json ps))
      = Inr ((u, d), JArray (map lugar_json ps))"
    and "hasta_ahora lat lon ((\<lambda>i. ps ! i) ` set [0..<length ps]) (u, d)" by auto
  moreover have "(\<lambda>i. ps ! i) ` set [0..<length ps] = set ps" by (metis map_nth set_map)
  moreover have "w\<lparr>lugares := JArray (map lugar_json ps)\<rparr> = w" using assms [symmetric] by simp
  ultimately show ?thesis
    using assms by (auto simp: calcularUbicacion_def luego_def json_size_def)
qed

section \<open>Properties\<close>

text \<open>
  C33: with the places of a well-formed file loaded, \<open>calcularUbicacion\<close> answers the name of a place
  that covers the point (within its radius, and not farther than 999) and is at least as near as
  every other place that covers it; \<open>desconocida\<close> exactly when no place covers the point. The loaded
  places do not change.
\<close>
theorem calcularUbicacion_nearest:
  assumes "lugares w = JArray (map lugar_json ps)"
  shows "\<exists>u. calcularUbicacion (coordenadas_json lat lon) w = Inr (u, w) \<and>
    (u = ''desconocida'' \<and> (\<forall>q \<in> set ps. \<not> cubre lat lon q) \<or>
     (\<exists>p \<in> set ps. u = lug_nombre p \<and> cubre lat lon p \<and>
        (\<forall>q \<in> set ps. cubre lat lon q \<longrightarrow> doble_le (distancia lat lon p) (distancia lat lon q))))"
  using calcularUbicacion_lugares [OF assms, of lat lon] unfolding hasta_ahora_def by auto

lemma cero_le_redondear: "doble_le (Fin s 0 e) (redondear False n d)"
  by (simp add: redondear_def Let_def alinear_def con_signo_def)

theorem calcularUbicacion_nearest_witness:
  "\<exists>w. calcularUbicacion (coordenadas_json (Fin False 0 0) (Fin True 3 2))
      (mundo_ejemplo\<lparr>lugares := JArray (map lugar_json
        [\<lparr>lug_latitud = Fin False 0 0, lug_longitud = Fin True 3 2, lug_nombre = ''Almagro'', lug_radio = Fin False 1 0\<rparr>])\<rparr>)
      = Inr (''Almagro'', w)"
proof -
  let ?p = "\<lparr>lug_latitud = Fin False 0 0, lug_longitud = Fin True 3 2, lug_nombre = ''Almagro'', lug_radio = Fin False 1 0\<rparr>"
  have "distancia (Fin False 0 0) (Fin True 3 2) ?p = Fin False 0 (- 1074)"
    by (simp add: distancia_def doble_resta_def doble_neg_def doble_cuadrado_def doble_sqrt_def alinear_def
        con_signo_def redondear2_def redondear_def Let_def)
  then have "cubre (Fin False 0 0) (Fin True 3 2) ?p"
    using cero_le_redondear [of False "- 1074" 999 1]
    by (simp add: cubre_def distanciaMaxima_def int_a_doble_def alinear_def con_signo_def)
  then show ?thesis
    using calcularUbicacion_nearest [of "mundo_ejemplo\<lparr>lugares := JArray (map lugar_json [?p])\<rparr>" "[?p]"
        "Fin False 0 0" "Fin True 3 2"] by auto
qed

end
