(* ===== verification/Servicio.thy ===== *)
theory Servicio
  imports Conversacion Mongoose_Respuesta Localizacion
begin

text \<open>
  \<open>Servidor/Servicio\<close>: the parameters of a request, the answer, and one operation per service. The
  connection a service was created with is the argument \<open>conn\<close>; what it answers goes to the
  connection's buffer in the state.
\<close>

section \<open>Parameters and answers\<close>

definition tamanioBuffer :: nat where
  "tamanioBuffer = (1024 * 1024) * 2"

definition getParametro :: "mg_connection \<Rightarrow> string \<Rightarrow> string \<Rightarrow> string" where
  "getParametro conn nombreParametro valorDefault =
     (case mg_get_var conn nombreParametro tamanioBuffer of (resultado, buf) \<Rightarrow>
        if resultado < 1 then valorDefault else c_str buf)"

text \<open>The parameters as one JSON document; they stay null when it cannot be read.\<close>

definition parsearParametros :: "mg_connection \<Rightarrow> json res" where
  "parsearParametros conn =
     (case mg_get_var conn ''params'' tamanioBuffer of (result, buf) \<Rightarrow>
        bnd (parse (c_str buf) JNull) (\<lambda>(parseoExitoso, valorParams).
          Inr (if parseoExitoso then valorParams else JNull)))"

definition getParametroArray :: "mg_connection \<Rightarrow> string \<Rightarrow> string \<Rightarrow> json res" where
  "getParametroArray conn nombreParametro valorDefault =
     bnd (parse (getParametro conn nombreParametro valorDefault) JNull) (\<lambda>(ok, valorParams). Inr valorParams)"

text \<open>\<open>sscanf(uri, base "%s", id)\<close> for a base without white space or conversions.\<close>

definition sscanf_s :: "string \<Rightarrow> string \<Rightarrow> string option" where
  "sscanf_s base s =
     (if take (length base) s = base then
        (let ident = takeWhile (\<lambda>c. \<not> isspace c) (dropWhile isspace (drop (length base) s))
         in if ident = [] then None else Some ident)
      else None)"

definition getParametroIdMetodoGET :: "mg_connection \<Rightarrow> string \<Rightarrow> string res" where
  "getParametroIdMetodoGET conn urlBase =
     (case sscanf_s urlBase (uri conn) of
        None \<Rightarrow> Inr []
      | Some ident \<Rightarrow> if length ident < 255 then Inr ident else Inl (Indefinido ''sscanf writes past the end of id''))"

definition responder :: "string \<Rightarrow> bool \<Rightarrow> unit accion" where
  "responder mensaje success =
     luego (eleva (json_sets ([(keyPayload, JString mensaje), (keySuccess, JString ''true'')] @
        (if \<not> success then [(keySuccess, JString ''false'')] else [])) JNull)) (\<lambda>respuesta.
       mg_printf_data (toStyledString respuesta))"

definition prueba :: "unit accion" where
  "prueba = modifica (\<lambda>w. w\<lparr>consola := consola w @ ''Esto es una prueba.'' @ [LF]\<rparr>)"

section \<open>Users\<close>

definition obtenerUsuario :: "mg_connection \<Rightarrow> Usuario accion" where
  "obtenerUsuario conn = obtenerPorTelefono (getParametro conn keyTelefono keyDefault)"

definition registrarUsuario :: "mg_connection \<Rightarrow> unit accion" where
  "registrarUsuario conn =
     luego (obtenerUsuario conn) (\<lambda>user.
       if usuario_id user \<noteq> keyIdUsuarioNoEncontrado then
         luego (Loger_warn (''Se intento registrar un usuario ya existente. Id: '' @ usuario_id user)) (\<lambda>_.
           responder ''El usuario ya existe'' False)
       else
         let nombre = getParametro conn keyNombre keyDefault;
             telefono = getParametro conn keyTelefono keyDefault;
             password = getParametro conn keyPassword keyDefault
         in luego (Usuario_new nombre telefono password) (\<lambda>user.
            luego (Usuario_persistir user) (\<lambda>_.
            luego (responder ''Usuario registrado correctamente'' True) (\<lambda>_.
              Loger_info (''Se registro el usuario con Id: '' @ usuario_id user)))))"

definition administrarPerfil :: "mg_connection \<Rightarrow> unit accion" where
  "administrarPerfil conn =
     (let nombreUsuario = getParametro conn keyNombre keyDefault;
          estado = toBoolean (getParametro conn keyEstadoDeConexion keyDefault);
          foto = getParametro conn keyFotoDePerfil keyDefault;
          loc = getParametro conn keyLocalizacion keyDefault;
          pass = getParametro conn keyPassword keyDefault
      in luego (obtenerUsuario conn) (\<lambda>user.
         let tok = getParametro conn keyTokenSesion keyDefault
         in luego
           (if usuario_id user \<noteq> keyIdUsuarioNoEncontrado then
              if token user = tok then
                let user' = user\<lparr>nombre := nombreUsuario, conectado := estado, fotoDePerfil := foto,
                                 localizacion := loc, password := pass\<rparr>
                in luego (Usuario_persistir user') (\<lambda>_.
                   luego (Loger_info (''Se modificaron los datos del usuario '' @ nombre user' @ '' correctamente.'')) (\<lambda>_.
                     responder (''Se modificaron los datos del usuario '' @ nombre user' @ '' correctamente. Token:''
                       @ token user') True))
              else
                luego (Loger_warn (''El usuario '' @ nombre user @ '' no posee un token de session correcto'')) (\<lambda>_.
                  responder (''El usuario '' @ nombre user @ '' no posee un token de session correcto'') False)
            else
              luego (Loger_warn (''El usuario '' @ nombre user @ '' no se encuentra registrado en el sistema'')) (\<lambda>_.
                responder (''El usuario '' @ nombre user @ '' no se encuentra registrado en el sistema'') False))
           (\<lambda>_. guardarEstado)))"

definition consultarUsuarioOnline :: "mg_connection \<Rightarrow> unit accion" where
  "consultarUsuarioOnline conn =
     luego (eleva (getParametroIdMetodoGET conn urlBaseUsuario)) (\<lambda>tel.
     luego (obtenerPorTelefono tel) (\<lambda>user.
       let renovar = toBoolean (getParametro conn keyRenovarToken keyDefault)
       in luego
         (if usuario_id user \<noteq> keyIdUsuarioNoEncontrado then
            luego (registrarUltimaConexion user) (\<lambda>u1.
            let (tok, u2) = (if renovar then calcularTokenDeSesion u1 else (token u1, u1))
            in luego (eleva (json_sets
                  [(keyNombre, JString (nombre u2)), (keyPassword, JString (password u2)),
                   (keyTokenSesion, JString tok), (keyEstadoDeConexion, JString (toString (conectado u2))),
                   (keyFotoDePerfil, JString (fotoDePerfil u2)), (''idUsuario'', JString (usuario_id u2)),
                   (keyLocalizacion, JString (localizacion u2))] JNull)) (\<lambda>respuesta.
               luego (Usuario_persistir u2) (\<lambda>_.
               luego (responder (toStyledString respuesta) True) (\<lambda>_.
                 Loger_info (''Consulta del usuario '' @ nombre u2 @ '' exitosa.'')))))
          else
            let msj = ''No se pudo obtener el estado del usuario con numero: '' @ getParametro conn keyTelefono keyDefault
                  @ '' ya que no se encuentra registrado en el sistema.''
            in luego (Loger_warn msj) (\<lambda>_. responder msj False))
         (\<lambda>_. guardarEstado)))"

section \<open>Conversations\<close>

text \<open>
  The nested conditionals that \<open>almacenarConversacion\<close> and \<open>almacenarListaDifusion\<close> share: the
  message goes to the conversation of the two users, under either order of their identifiers, or
  to a new one.
\<close>

definition almacenarMensaje :: "Usuario \<Rightarrow> Usuario \<Rightarrow> Mensaje \<Rightarrow> unit accion" where
  "almacenarMensaje emisor receptor mensaje =
     luego (Conversacion_obtener (usuario_id emisor @ ''-'' @ usuario_id receptor)) (\<lambda>conversacion.
       if Conversacion_getId conversacion \<noteq> keyIdConversacionNoEncontrada
       then Conversacion_persistir (agregarMensaje mensaje conversacion)
       else
         luego (Conversacion_obtener (usuario_id receptor @ ''-'' @ usuario_id emisor)) (\<lambda>conversacion.
           if Conversacion_getId conversacion \<noteq> keyIdConversacionNoEncontrada
           then Conversacion_persistir (agregarMensaje mensaje conversacion)
           else Conversacion_persistir (Conversacion_new [emisor, receptor] [mensaje])))"

definition almacenarConversacion :: "mg_connection \<Rightarrow> unit accion" where
  "almacenarConversacion conn =
     luego (obtenerPorTelefono (getParametro conn keyIdUsuarioEmisor keyDefault)) (\<lambda>emisor.
     luego (obtenerPorTelefono (getParametro conn keyIdUsuarioReceptor keyDefault)) (\<lambda>receptor.
       let tok = getParametro conn keyTokenSesion keyDefault
       in if usuario_id emisor = keyIdUsuarioNoEncontrado \<or> usuario_id receptor = keyIdUsuarioNoEncontrado then
            let msj_warning = ''No se pudo almacenar la conversacion porque: '' @
                  (if usuario_id emisor = keyIdUsuarioNoEncontrado then ''el emisor no existe.'' else []) @
                  (if usuario_id receptor = keyIdUsuarioNoEncontrado then '' el receptor no existe.'' else [])
            in luego (responder msj_warning False) (\<lambda>_.
               luego (Loger_warn msj_warning) (\<lambda>_. guardarEstado))
          else if token emisor = tok then
            let mensaje = Mensaje_new (getParametro conn keyCuerpo keyDefault) (usuario_id emisor)
                  (getParametro conn keyFecha keyDefault)
            in luego (almacenarMensaje emisor receptor mensaje) (\<lambda>_.
                 responder (mensaje_id mensaje) True)
          else
            let msj = ''El usuario '' @ nombre emisor @ '' no posee un token de session correcto''
            in luego (Loger_warn msj) (\<lambda>_. responder msj False)))"

definition obtenerIdConversacion :: "mg_connection \<Rightarrow> unit accion" where
  "obtenerIdConversacion conn =
     luego (obtenerPorTelefono (getParametro conn keyTelefonoEmisor keyDefault)) (\<lambda>usuarioEmisor.
     luego (obtenerPorTelefono (getParametro conn keyTelefonoReceptor keyDefault)) (\<lambda>usuarioReceptor.
       if usuario_id usuarioEmisor \<noteq> keyIdUsuarioNoEncontrado \<and>
          usuario_id usuarioReceptor \<noteq> keyIdUsuarioNoEncontrado then
         luego (Conversacion_obtener (usuario_id usuarioEmisor @ ''-'' @ usuario_id usuarioReceptor)) (\<lambda>c.
         luego (if Conversacion_getId c = keyIdConversacionNoEncontrada
                then Conversacion_obtener (usuario_id usuarioReceptor @ ''-'' @ usuario_id usuarioEmisor)
                else ret c) (\<lambda>conversacion.
           let idConversacion = Conversacion_getId conversacion
           in if idConversacion \<noteq> keyIdUsuarioNoEncontrado then responder idConversacion True
              else responder (Conversacion_getId (Conversacion_new [usuarioEmisor, usuarioReceptor] [])) False))
       else
         let user = (if usuario_id usuarioEmisor = keyIdUsuarioNoEncontrado then usuarioEmisor else usuarioReceptor);
             msj_warn = ''Usuario '' @ nombre user @ '' no se encuentra registrado en el sistema''
         in luego (Loger_warn msj_warn) (\<lambda>_. responder msj_warn False)))"

text \<open>The loop over the messages: those after the first one with the given identifier.\<close>

fun posteriores :: "string \<Rightarrow> bool \<Rightarrow> Mensaje list \<Rightarrow> Mensaje list" where
  "posteriores idUltimoMensaje encontrado [] = []"
| "posteriores idUltimoMensaje encontrado (m # ms) =
     (if encontrado then [m] else []) @
     posteriores idUltimoMensaje (encontrado \<or> mensaje_id m = idUltimoMensaje) ms"

text \<open>\<open>respuesta[key][i] = ...\<close>, for the elements of a vector.\<close>

fun json_sets_index :: "string \<Rightarrow> nat \<Rightarrow> (json \<Rightarrow> json res) list \<Rightarrow> json \<Rightarrow> json res" where
  "json_sets_index key i [] j = Inr j"
| "json_sets_index key i (f # fs) j =
     bnd (resolveReference key (resolveIndex i f) j) (json_sets_index key (i + 1) fs)"

definition obtenerConversacion :: "mg_connection \<Rightarrow> unit accion" where
  "obtenerConversacion conn =
     luego (eleva (getParametroIdMetodoGET conn urlBaseConversacion)) (\<lambda>idConversacion.
     let idUltimoMensaje = getParametro conn keyIdUltimoMensaje keyDefault
     in luego (Conversacion_obtener idConversacion) (\<lambda>conversacion.
       if Conversacion_getId conversacion \<noteq> keyIdConversacionNoEncontrada then
         let mensajesRespuesta = (if idUltimoMensaje \<noteq> [] then posteriores idUltimoMensaje False (mensajes conversacion)
                                  else mensajes conversacion)
         in luego (eleva (mapM Mensaje_serializar mensajesRespuesta)) (\<lambda>textos.
            luego (eleva (json_sets_index ''mensajes'' 0 (map (\<lambda>t _. Inr (JString t)) textos) JNull)) (\<lambda>respuesta.
              responder (toStyledString respuesta) True))
       else
         let msj_warn = ''La conversacion '' @ idConversacion @ '' no se encuentra en el sistema''
         in luego (Loger_warn msj_warn) (\<lambda>_. responder msj_warn False)))"

text \<open>The conversations of the user that the client does not have yet.\<close>

definition nuevaConversacion :: "string list \<Rightarrow> string \<Rightarrow> Conversacion list accion" where
  "nuevaConversacion idsConversaciones idActual =
     (if \<not> vectorContiene idsConversaciones idActual then
        luego (Conversacion_obtener idActual) (\<lambda>c.
          if Conversacion_getId c \<noteq> keyIdConversacionNoEncontrada then ret [c]
          else luego (Loger_warn (''La conversacion '' @ idActual @ '' no se encuentra en el sistema'')) (\<lambda>_. ret []))
      else ret [])"

text \<open>The members of one conversation of the answer: its last message, and the other user.\<close>

definition resumenConversacion :: "Usuario \<Rightarrow> Conversacion \<Rightarrow> (json \<Rightarrow> json res) res" where
  "resumenConversacion usuario conv =
     (if mensajes conv = [] then Inl (Indefinido ''last element of an empty vector'')
      else if usuarios conv = [] then Inl OutOfRange
      else
        bnd (if usuario_id (usuarios conv ! 0) = usuario_id usuario
             then (if length (usuarios conv) < 2 then Inl OutOfRange else Inr (usuarios conv ! 1))
             else Inr (usuarios conv ! 0)) (\<lambda>usuarioContacto.
        Inr (json_sets
          [(''id'', JString (Conversacion_getId conv)),
           (''ultimoMensaje'', JString (cuerpo (last (mensajes conv)))),
           (''usuarioNombre'', JString (nombre usuarioContacto)),
           (''usuarioTelefono'', JString (telefono usuarioContacto)),
           (''usuarioFotoDePerfil'', JString (fotoDePerfil usuarioContacto))])))"

definition obtenerConversaciones :: "mg_connection \<Rightarrow> unit accion" where
  "obtenerConversaciones conn =
     luego (eleva (bnd (getParametroArray conn keyIdConversaciones keyDefault) jsonValueToVector)) (\<lambda>idsConversaciones.
     luego (eleva (getParametroIdMetodoGET conn urlBaseUsuarioConversaciones)) (\<lambda>idUsuario.
     luego (obtenerPorTelefono idUsuario) (\<lambda>usuario.
       if usuario_id usuario \<noteq> keyIdUsuarioNoEncontrado then
         luego (obtnerIdsConversaciones usuario) (\<lambda>idsConversacionesActuales.
         luego (para_cada (nuevaConversacion idsConversaciones) idsConversacionesActuales) (\<lambda>cs.
         luego (eleva (mapM (resumenConversacion usuario) (concat cs))) (\<lambda>nuevasConversaciones.
         luego (eleva (json_sets_index ''conversaciones'' 0 nuevasConversaciones JNull)) (\<lambda>respuesta.
           responder (toStyledString respuesta) True))))
       else Loger_warn (''El usuario '' @ idUsuario @ '' no se encuentra en el sistema''))))"

section \<open>Contacts\<close>

definition contactoConectado :: "string \<Rightarrow> Usuario list accion" where
  "contactoConectado telefonoActual =
     luego (obtenerPorTelefono telefonoActual) (\<lambda>usuario.
       ret (if usuario_id usuario \<noteq> keyIdUsuarioNoEncontrado \<and> conectado usuario then [usuario] else []))"

definition contacto_json :: "Usuario \<Rightarrow> json \<Rightarrow> json res" where
  "contacto_json u = json_sets
     [(keyNombre, JString (nombre u)), (keyTelefono, JString (telefono u)),
      (keyFotoDePerfil, JString (fotoDePerfil u)), (keyLocalizacion, JString (localizacion u))]"

definition obtenerContactos :: "mg_connection \<Rightarrow> unit accion" where
  "obtenerContactos conn =
     luego (eleva (bnd (getParametroArray conn keyContantosTelefono keyDefault) jsonValueToVector)) (\<lambda>contactosTelefono.
     luego (para_cada contactoConectado contactosTelefono) (\<lambda>us.
     luego (eleva (json_sets_index ''contactos'' 0 (map contacto_json (concat us)) JNull)) (\<lambda>respuesta.
       responder (toStyledString respuesta) True)))"

definition enviarAContacto :: "Usuario \<Rightarrow> Mensaje \<Rightarrow> string \<Rightarrow> unit accion" where
  "enviarAContacto emisor mensaje telefonoActual =
     luego (obtenerPorTelefono telefonoActual) (\<lambda>usuario.
       if usuario_id usuario \<noteq> keyIdUsuarioNoEncontrado \<and> conectado usuario
       then almacenarMensaje emisor usuario mensaje else ret ())"

definition almacenarListaDifusion :: "mg_connection \<Rightarrow> unit accion" where
  "almacenarListaDifusion conn =
     (let tok = getParametro conn keyTokenSesion keyDefault
      in luego (eleva (bnd (getParametroArray conn keyContantosTelefono keyDefault) jsonValueToVector)) (\<lambda>contactosTelefono.
         luego (obtenerPorTelefono (getParametro conn keyIdUsuarioEmisor keyDefault)) (\<lambda>emisor.
           if usuario_id emisor = keyIdUsuarioNoEncontrado then
             let msj_warning = ''No se pudo almacenar la lista de difusion porque el emisor no existe''
             in luego (responder msj_warning False) (\<lambda>_.
                luego (Loger_warn msj_warning) (\<lambda>_. guardarEstado))
           else if token emisor \<noteq> tok then
             luego (Loger_warn (''El usuario '' @ nombre emisor @ '' no posee un token de session correcto'')) (\<lambda>_.
               responder (''El usuario '' @ nombre emisor @ '' no posee un token de session correcto'') False)
           else
             let mensaje = Mensaje_new (getParametro conn keyCuerpo keyDefault) (usuario_id emisor)
                   (getParametro conn keyFecha keyDefault)
             in luego (para_cada (enviarAContacto emisor mensaje) contactosTelefono) (\<lambda>_.
                  responder ''Lista de difusion enviada correctamente'' True))))"

section \<open>Check-in\<close>

definition fechaYhoraActual :: "string accion" where
  "fechaYhoraActual = luego leer_reloj (\<lambda>now. ret (strftime_dmyR now))"

definition checkIn :: "mg_connection \<Rightarrow> unit accion" where
  "checkIn conn =
     luego (eleva (json_sets
        [(''latitud'', JReal (atof (getParametro conn keyLatitud keyDefault))),
         (''longitud'', JReal (atof (getParametro conn keyLongitud keyDefault)))] JNull)) (\<lambda>coordenadas.
     luego (obtenerUsuario conn) (\<lambda>usuario.
       if usuario_id usuario \<noteq> keyIdUsuarioNoEncontrado then
         luego (calcularUbicacion coordenadas) (\<lambda>lugar.
         luego fechaYhoraActual (\<lambda>ahora.
         let loc = lugar @ '' '' @ ahora
         in luego (Usuario_persistir (usuario\<lparr>localizacion := loc\<rparr>)) (\<lambda>_. responder loc True)))
       else responder ''el usuario no existe.'' False))"

end
