(* ===== verification/Servidor.thy ===== *)
theory Servidor
  imports Servicio
begin

text \<open>
  \<open>Servidor/Servidor\<close>: the choice of the service from the method and the URI, its dispatch, the
  handler the web server calls for every event, and the start of \<open>main\<close>.
\<close>

section \<open>Definitions\<close>

datatype tipoDeServicio =
    PRUEBA | REGISTRAR_USUARIO | AUTENTICAR_USUARIO | ADMINISTRAR_PERFIL | ALMACENAR_CONVERSACION
  | CONSULTAR_USUARIO_ONLINE | CHECKIN_USUARIO | DESCONECTAR_USUARIO | OBTENER_ID_CONVERSACION
  | OBTENER_CONVERSACION | OBTENER_CONVERSACIONES | OBTENER_CONTACTOS | ALMACENAR_LISTA_DIFUSION | INVALIDO

datatype mg_event =
    MG_POLL | MG_CONNECT | MG_AUTH | MG_REQUEST | MG_REPLY | MG_RECV | MG_CLOSE | MG_WS_HANDSHAKE
  | MG_WS_CONNECT | MG_HTTP_ERROR

datatype mg_result = MG_FALSE | MG_TRUE | MG_MORE

text \<open>\<open>s.find(x) != std::string::npos\<close>\<close>

fun contiene :: "string \<Rightarrow> string \<Rightarrow> bool" where
  "contiene [] x \<longleftrightarrow> x = []"
| "contiene (c # s) x \<longleftrightarrow> take (length x) (c # s) = x \<or> contiene s x"

definition parsearURI :: "mg_connection \<Rightarrow> tipoDeServicio" where
  "parsearURI conn =
     (let uri_parseada = uri conn; metodo = request_method conn
      in if metodo = ''POST'' \<and> uri_parseada = urlBaseUsuario then REGISTRAR_USUARIO
         else if metodo = ''POST'' \<and> uri_parseada = urlBaseConversacion then ALMACENAR_CONVERSACION
         else if metodo = ''POST'' \<and> uri_parseada = urlBaseListaDifusion then ALMACENAR_LISTA_DIFUSION
         else if metodo = ''GET'' \<and> contiene uri_parseada urlBaseUsuarioConversaciones then OBTENER_CONVERSACIONES
         else if metodo = ''GET'' \<and> contiene uri_parseada urlBaseUsuario then CONSULTAR_USUARIO_ONLINE
         else if metodo = ''GET'' \<and> contiene uri_parseada urlBaseConversacionId then OBTENER_ID_CONVERSACION
         else if metodo = ''GET'' \<and> contiene uri_parseada urlBaseConversacion then OBTENER_CONVERSACION
         else if metodo = ''GET'' \<and> contiene uri_parseada urlBaseContactos then OBTENER_CONTACTOS
         else if metodo = ''PUT'' \<and> uri_parseada = urlBaseUsuario then ADMINISTRAR_PERFIL
         else if metodo = ''PUT'' \<and> contiene uri_parseada urlCheckinUsuario then CHECKIN_USUARIO
         else if uri_parseada = urlPrueba then PRUEBA
         else INVALIDO)"

definition administrarServicio :: "mg_connection \<Rightarrow> unit accion" where
  "administrarServicio conn = (case parsearURI conn of
      PRUEBA \<Rightarrow> prueba
    | REGISTRAR_USUARIO \<Rightarrow> registrarUsuario conn
    | ADMINISTRAR_PERFIL \<Rightarrow> administrarPerfil conn
    | ALMACENAR_CONVERSACION \<Rightarrow> almacenarConversacion conn
    | OBTENER_ID_CONVERSACION \<Rightarrow> obtenerIdConversacion conn
    | OBTENER_CONVERSACION \<Rightarrow> obtenerConversacion conn
    | OBTENER_CONVERSACIONES \<Rightarrow> obtenerConversaciones conn
    | CONSULTAR_USUARIO_ONLINE \<Rightarrow> consultarUsuarioOnline conn
    | OBTENER_CONTACTOS \<Rightarrow> obtenerContactos conn
    | ALMACENAR_LISTA_DIFUSION \<Rightarrow> almacenarListaDifusion conn
    | CHECKIN_USUARIO \<Rightarrow> checkIn conn
    | INVALIDO \<Rightarrow> mg_printf_data ''Servicio no encontrado''
    | _ \<Rightarrow> modifica (\<lambda>w. w\<lparr>consola := consola w @ ''default.'' @ [LF]\<rparr>))"

text \<open>The thread of a request is joined before the handler returns.\<close>

definition ev_handler :: "mg_connection \<Rightarrow> mg_event \<Rightarrow> mg_result accion" where
  "ev_handler conn ev =
     (if ev = MG_REQUEST then luego (administrarServicio conn) (\<lambda>_. ret MG_TRUE)
      else if ev = MG_AUTH then ret MG_TRUE
      else ret MG_FALSE)"

text \<open>\<open>main\<close> up to the loop of the server: the path of the database and the places.\<close>

definition main_inicio :: "string option \<Rightarrow> unit accion" where
  "main_inicio archivo =
     luego (setPath path_BaseDeDatos) (\<lambda>_.
     luego (cargarLugares ''Lugares.txt'' archivo) (\<lambda>e.
       case e of Some (RuntimeError m) \<Rightarrow> Loger_warn m | _ \<Rightarrow> ret ()))"

end
