(* ===== verification/Atencion.thy ===== *)
theory Atencion
  imports Servidor
begin

text \<open>
  What a service does, seen from outside: the change of the stored data and the answer. The rules of
  \<open>sirve\<close> compose the facts on the operations a service calls into the fact on the service.
\<close>

section \<open>The answer\<close>

definition texto_respuesta :: "string \<Rightarrow> bool \<Rightarrow> string" where
  "texto_respuesta mensaje success =
     toStyledString (JObject [(keyPayload, JString mensaje), (keySuccess, JString (toString success))])"

lemma respuesta_escribible:
  "escribible 1000 (JObject [(keyPayload, JString mensaje), (keySuccess, JString s)])"
  by (simp add: escribible_numeral obj_ok_def less_char_def)

text \<open>The client reads the message and the outcome back from the text.\<close>

lemma parse_respuesta:
  "parse (texto_respuesta mensaje success) raiz =
     Inr (True, JObject [(keyPayload, JString mensaje), (keySuccess, JString (toString success))])"
  unfolding texto_respuesta_def by (rule parse_toStyledString [OF respuesta_escribible])

lemma texto_respuesta_limpio:
  "CHR ''%'' \<notin> set mensaje \<Longrightarrow> CHR ''%'' \<notin> set (texto_respuesta mensaje success)"
  "NUL \<notin> set (texto_respuesta mensaje success)"
  unfolding texto_respuesta_def
  by (rule percent_toStyledString [OF respuesta_escribible], simp add: toString_def,
      rule NUL_toStyledString [OF respuesta_escribible])

lemma responder_json:
  "responder mensaje success = mg_printf_data (texto_respuesta mensaje success)"
  by (simp add: responder_def json_set_def resolveReference_def texto_respuesta_def toString_def less_char_def)

text \<open>What an answer, or none, adds to the connection.\<close>

definition contestado :: "(string \<times> bool) option \<Rightarrow> envio \<Rightarrow> envio" where
  "contestado r e = (case r of None \<Rightarrow> e
     | Some (mensaje, success) \<Rightarrow> enviar (ns_avprintf 8192 (texto_respuesta mensaje success)) e)"

section \<open>Serving\<close>

text \<open>
  Run on \<open>w\<close>, the operation returns, answers \<open>r\<close>, and changes the stored data by \<open>f\<close>; besides the
  answer, only the log, the singletons and the number of clock readings change.
\<close>

definition sirve :: "unit accion \<Rightarrow> mundo \<Rightarrow> (string \<times> bool) option \<Rightarrow>
    ((string \<Rightarrow> string option) \<Rightarrow> string \<Rightarrow> string option) \<Rightarrow> bool" where
  "sirve m w r f \<longleftrightarrow> (\<exists>w'. m w = Inr ((), w'\<lparr>salida := contestado r (salida w)\<rparr>) \<and> cambia f w w')"

lemma sirve_responder:
  "CHR ''%'' \<notin> set mensaje \<Longrightarrow> sirve (responder mensaje success) w (Some (mensaje, success)) nada"
  by (auto simp: sirve_def responder_json mg_printf_data_run texto_respuesta_limpio contestado_def
      intro!: exI [of _ w] lee.refl)

lemma sirve_hace: "hace m w () f \<Longrightarrow> sirve m w None f"
proof (elim haceE)
  fix w' assume "m w = Inr ((), w')" and "cambia f w w'"
  moreover from this(2) have "w'\<lparr>salida := salida w\<rparr> = w'" by (simp add: cambia_def)
  ultimately show ?thesis by (auto simp: sirve_def contestado_def intro!: exI [of _ w'])
qed

lemma sirve_luego:
  assumes "hace m w x f" and "\<And>w1. m w = Inr (x, w1) \<Longrightarrow> cambia f w w1 \<Longrightarrow> sirve (k x) w1 r g"
  shows "sirve (luego m k) w r (g \<circ> f)"
proof -
  obtain w1 where w1: "m w = Inr (x, w1)" "cambia f w w1" using assms(1) by (rule haceE)
  from assms(2) [OF this] obtain w2 where
    "k x w1 = Inr ((), w2\<lparr>salida := contestado r (salida w1)\<rparr>)" "cambia g w1 w2" by (auto simp: sirve_def)
  moreover have "salida w1 = salida w" using w1(2) by (simp add: cambia_def)
  ultimately show ?thesis
    using w1 cambia_trans [of f w w1 g w2] by (auto simp: sirve_def luego_def)
qed

lemma sirve_luego_lee:
  assumes "hace m w x nada" and "\<And>w1. m w = Inr (x, w1) \<Longrightarrow> solo_lee w w1 \<Longrightarrow> sirve (k x) w1 r g"
  shows "sirve (luego m k) w r g"
  using sirve_luego [of m w x nada k r g, OF assms] by simp

text \<open>Logging after the answer.\<close>

lemma anota_salida:
  assumes "anota m"
  shows "\<exists>w'. m (w\<lparr>salida := e\<rparr>) = Inr ((), w'\<lparr>salida := e\<rparr>) \<and> solo_log w w'"
proof -
  obtain w1 where w1: "m (w\<lparr>salida := e\<rparr>) = Inr ((), w1)" "solo_log (w\<lparr>salida := e\<rparr>) w1"
    using assms by (auto simp: anota_def)
  then have "w1 = (w1\<lparr>salida := salida w\<rparr>)\<lparr>salida := e\<rparr>" by (simp add: solo_log_def)
  moreover have "solo_log w (w1\<lparr>salida := salida w\<rparr>)" using w1(2) by (simp add: solo_log_def)
  ultimately show ?thesis using w1(1) by metis
qed

lemma sirve_anota:
  assumes "sirve m w r f" and "anota m'"
  shows "sirve (luego m (\<lambda>_. m')) w r f"
proof -
  obtain w1 where w1: "m w = Inr ((), w1\<lparr>salida := contestado r (salida w)\<rparr>)" "cambia f w w1"
    using assms(1) by (auto simp: sirve_def)
  obtain w2 where w2: "m' (w1\<lparr>salida := contestado r (salida w)\<rparr>) = Inr ((), w2\<lparr>salida := contestado r (salida w)\<rparr>)"
    "solo_log w1 w2" using anota_salida [OF assms(2)] by blast
  have "cambia f w w2" using cambia_trans [OF w1(2) cambia_solo_log [OF w2(2)]] by simp
  then show ?thesis using w1(1) w2(1) by (auto simp: sirve_def luego_def)
qed

lemma sirve_anota_antes:
  "anota m \<Longrightarrow> (\<And>w1. solo_lee w w1 \<Longrightarrow> sirve m' w1 r f) \<Longrightarrow> sirve (luego m (\<lambda>_. m')) w r f"
  by (rule sirve_luego_lee [OF hace_anota])

lemma anota_luego: "anota m \<Longrightarrow> anota m' \<Longrightarrow> anota (luego m (\<lambda>_. m'))"
  unfolding anota_def
proof
  fix w assume m: "\<forall>w. \<exists>w'. m w = Inr ((), w') \<and> solo_log w w'" "\<forall>w. \<exists>w'. m' w = Inr ((), w') \<and> solo_log w w'"
  obtain w1 where w1: "m w = Inr ((), w1)" "solo_log w w1" using m(1) by blast
  obtain w2 where w2: "m' w1 = Inr ((), w2)" "solo_log w1 w2" using m(2) by blast
  show "\<exists>w'. luego m (\<lambda>_. m') w = Inr ((), w') \<and> solo_log w w'"
    using w1(1) w2(1) anotar.trans [OF w1(2) w2(2)] by (simp add: luego_def)
qed

end
