(* ===== verification/Coherencia.thy ===== *)
theory Coherencia
  imports Atencion
begin

text \<open>
  The invariant of the stored data the services keep: under a user's key is the text of the user with
  that identifier, the digest of its phone; under a conversation's key is the text of a conversation
  between two registered users with at least one message. The lookups of the services on data with
  this invariant, and the updates that keep it.
\<close>

section \<open>Texts without format directives\<close>

definition limpio :: "string \<Rightarrow> bool" where
  "limpio s \<longleftrightarrow> CHR ''%'' \<notin> set s"

lemma limpio_simps [simp]:
  "limpio []" "limpio (c # s) \<longleftrightarrow> c \<noteq> CHR ''%'' \<and> limpio s" "limpio (a @ b) \<longleftrightarrow> limpio a \<and> limpio b"
  by (auto simp: limpio_def)

lemma md5_caracteres: "c \<in> set (md5 s) \<Longrightarrow> c \<noteq> CHR ''%'' \<and> c \<noteq> CHR ''#'' \<and> c \<noteq> CHR ''-''"
  using set_md5 [of s] by (auto simp: hex_digits_def)

lemma limpio_md5 [simp]: "limpio (md5 s)"
  using md5_caracteres [of "CHR ''%''" s] by (auto simp: limpio_def)

lemma md5_distintos [simp]:
  "md5 s \<noteq> keyIdUsuarioNoEncontrado" "md5 s \<noteq> []"
proof -
  have "length (md5 s) = 32" by simp
  then show "md5 s \<noteq> keyIdUsuarioNoEncontrado" "md5 s \<noteq> []" by force+
qed

lemma limpio_digitos [simp]: "limpio (digitos n)"
  using digitos_digit [of n] by (auto simp: limpio_def list_all_iff isdigit_def)

lemma limpio_replicate [simp]: "c \<noteq> CHR ''%'' \<Longrightarrow> limpio (replicate n c)"
  by (induction n) auto

lemma limpio_nombre_en: "list_all limpio ns \<Longrightarrow> limpio (nombre_en ns i)"
  by (auto simp: nombre_en_def list_all_length)

lemma limpio_asctime [simp]: "limpio (asctime t)"
  by (simp add: asctime_def limpio_nombre_en ancho3_def dos_cifras_def)

lemma limpio_strftime [simp]: "limpio (strftime_dmyR t)"
  by (simp add: strftime_dmyR_def dos_cifras_def)

definition usuario_limpio :: "Usuario \<Rightarrow> bool" where
  "usuario_limpio u \<longleftrightarrow> limpio (nombre u) \<and> limpio (fotoDePerfil u) \<and> limpio (telefono u) \<and>
     limpio (localizacion u) \<and> limpio (ultimaConexion u) \<and> limpio (token u) \<and> limpio (password u)"

definition mensaje_limpio :: "Mensaje \<Rightarrow> bool" where
  "mensaje_limpio m \<longleftrightarrow> limpio (cuerpo m) \<and> limpio (fecha m) \<and> limpio (idUsuarioEmisor m) \<and> limpio (mensaje_id m)"

section \<open>The invariant\<close>

definition es_usuario :: "(string \<Rightarrow> string option) \<Rightarrow> string \<Rightarrow> Usuario \<Rightarrow> bool" where
  "es_usuario m k u \<longleftrightarrow> m (clave_usuario k) = Some (Usuario_texto u) \<and> usuario_id u = k \<and> k = md5 (telefono u) \<and>
     usuario_limpio u"

definition usuarios_coherentes :: "(string \<Rightarrow> string option) \<Rightarrow> bool" where
  "usuarios_coherentes m \<longleftrightarrow> (\<forall>k. m (clave_usuario k) \<noteq> None \<longrightarrow> (\<exists>u. es_usuario m k u))"

definition conv_texto :: "string \<Rightarrow> string list \<Rightarrow> Mensaje list \<Rightarrow> string" where
  "conv_texto k ids ms = toStyledString (JObject (objeto.poner_todos
     [(keyIdConversacion, JString k), (keyIdsUsuarios, JString (unir SeparadorListaBD ids)),
      (keyMensajes, JString (unir SeparadorListaBD (map Mensaje_texto ms)))] []))"

definition es_conversacion :: "(string \<Rightarrow> string option) \<Rightarrow> string \<Rightarrow> string \<Rightarrow> string \<Rightarrow> Mensaje list \<Rightarrow> bool" where
  "es_conversacion m k a b ms \<longleftrightarrow> m (clave_conversacion k) = Some (conv_texto k [a, b] ms) \<and> k = a @ ''-'' @ b \<and>
     m (clave_usuario a) \<noteq> None \<and> m (clave_usuario b) \<noteq> None \<and> ms \<noteq> [] \<and>
     (\<forall>x \<in> set ms. sin_separador x \<and> mensaje_limpio x)"

definition conversaciones_coherentes :: "(string \<Rightarrow> string option) \<Rightarrow> bool" where
  "conversaciones_coherentes m \<longleftrightarrow>
     (\<forall>k. m (clave_conversacion k) \<noteq> None \<longrightarrow> (\<exists>a b ms. es_conversacion m k a b ms))"

text \<open>The index of a user lists its conversations, each once, besides the entry \<open>NotFound\<close> it starts with.\<close>

definition indices_coherentes :: "(string \<Rightarrow> string option) \<Rightarrow> bool" where
  "indices_coherentes m \<longleftrightarrow> (\<forall>u. indice_ok m u \<and> distinct (indice m u) \<and> set (indice m u) =
     insert keyDatoNoEncontrado {k. m (clave_conversacion k) \<noteq> None \<and> u \<in> set (split k CHR ''-'')})"

text \<open>Two users share one conversation, whichever of them started it.\<close>

definition pares_unicos :: "(string \<Rightarrow> string option) \<Rightarrow> bool" where
  "pares_unicos m \<longleftrightarrow> (\<forall>a b. CHR ''-'' \<notin> set a \<and> CHR ''-'' \<notin> set b \<and> m (clave_conversacion (a @ ''-'' @ b)) \<noteq> None \<and>
     m (clave_conversacion (b @ ''-'' @ a)) \<noteq> None \<longrightarrow> a = b)"

definition datos_coherentes :: "(string \<Rightarrow> string option) \<Rightarrow> bool" where
  "datos_coherentes m \<longleftrightarrow> usuarios_coherentes m \<and> conversaciones_coherentes m \<and> indices_coherentes m \<and>
     pares_unicos m"

definition lugares_coherentes :: "json \<Rightarrow> bool" where
  "lugares_coherentes j \<longleftrightarrow> (\<exists>ps. j = JArray (map lugar_json ps) \<and> (\<forall>p \<in> set ps. limpio (lug_nombre p)))"

definition coherente :: "mundo \<Rightarrow> bool" where
  "coherente w \<longleftrightarrow> bd_sana w \<and> datos_coherentes (dato w) \<and> lugares_coherentes (lugares w)"

lemma coherente_lee: "coherente w \<Longrightarrow> solo_lee w w' \<Longrightarrow> coherente w'"
  by (simp add: coherente_def cambia_def nada_def)

lemma coherente_cambia: "coherente w \<Longrightarrow> cambia f w w' \<Longrightarrow> datos_coherentes (f (dato w)) \<Longrightarrow> coherente w'"
  by (simp add: coherente_def cambia_def)

section \<open>Lookups\<close>

lemma es_usuario_id: "es_usuario m k u \<Longrightarrow> k \<noteq> keyIdUsuarioNoEncontrado \<and> k \<noteq> [] \<and> limpio k \<and>
    SeparadorListaBD \<notin> set k \<and> CHR ''-'' \<notin> set k \<and> length k = 32"
  using md5_caracteres [of "SeparadorListaBD" "telefono u"] md5_caracteres [of "CHR ''-''" "telefono u"]
  by (auto simp: es_usuario_def)

lemma usuario_registrado:
  assumes "datos_coherentes m" and "m (clave_usuario k) \<noteq> None"
  obtains u where "es_usuario m k u"
  using assms by (auto simp: datos_coherentes_def usuarios_coherentes_def)

text \<open>A lookup of a user gives the registered user or the invalid one.\<close>

definition encontrado :: "(string \<Rightarrow> string option) \<Rightarrow> string \<Rightarrow> Usuario \<Rightarrow> bool" where
  "encontrado m k u \<longleftrightarrow> (if m (clave_usuario k) = None then u = Usuario_invalido else es_usuario m k u)"

lemma encontrado_invalido: "encontrado m k u \<Longrightarrow> usuario_id u = keyIdUsuarioNoEncontrado \<longleftrightarrow> m (clave_usuario k) = None"
  using es_usuario_id [of m k u]
  by (cases "m (clave_usuario k) = None") (auto simp: encontrado_def Usuario_invalido_def es_usuario_def)

lemma encontrado_limpio: "encontrado m k u \<Longrightarrow> usuario_limpio u \<and> limpio (usuario_id u)"
  using es_usuario_id [of m k u]
  by (auto simp: encontrado_def es_usuario_def usuario_limpio_def Usuario_invalido_def Usuario_vacio_def split: if_splits)

lemma obtener_usuario:
  assumes "coherente w"
  obtains u where "encontrado (dato w) k u" and "hace (Usuario_obtener k) w u nada"
proof (cases "dato w (clave_usuario k)")
  case None
  then show ?thesis
    using that [of Usuario_invalido] assms hace_Usuario_obtener_no [of w k] by (simp add: encontrado_def coherente_def)
next
  case (Some t)
  then obtain u where u: "es_usuario (dato w) k u"
    using assms usuario_registrado [of "dato w" k] by (auto simp: coherente_def)
  then have "hace (Usuario_obtener k) w u nada"
    using assms by (intro hace_Usuario_obtener) (auto simp: coherente_def es_usuario_def)
  then show ?thesis using that u Some by (simp add: encontrado_def)
qed

text \<open>A lookup of a conversation gives the stored one, with its users as they are stored now, or the invalid one.\<close>

definition hallada :: "(string \<Rightarrow> string option) \<Rightarrow> string \<Rightarrow> Conversacion \<Rightarrow> bool" where
  "hallada m k c \<longleftrightarrow> (if m (clave_conversacion k) = None then c = Conversacion_invalida
     else \<exists>a b ua ub ms. es_conversacion m k a b ms \<and> es_usuario m a ua \<and> es_usuario m b ub \<and>
       c = \<lparr>conversacion_id = k, mensajes = ms, usuarios = [ua, ub]\<rparr>)"

lemma Conversacion_texto_conv: "Conversacion_texto c = conv_texto (Conversacion_getId c) (map usuario_id (usuarios c)) (mensajes c)"
  by (simp add: Conversacion_texto_def Conversacion_campos_def conv_texto_def)

lemma obtener_conversacion:
  assumes "coherente w"
  obtains c where "hallada (dato w) k c" and "hace (Conversacion_obtener k) w c nada"
proof (cases "dato w (clave_conversacion k)")
  case None
  then show ?thesis
    using that [of Conversacion_invalida] assms hace_Conversacion_obtener_no [of w k]
    by (simp add: hallada_def coherente_def)
next
  case (Some t)
  then obtain a b ms where c: "es_conversacion (dato w) k a b ms"
    using assms by (auto simp: coherente_def datos_coherentes_def conversaciones_coherentes_def)
  have d: "datos_coherentes (dato w)" "bd_sana w" using assms by (auto simp: coherente_def)
  obtain ua where ua: "es_usuario (dato w) a ua" using usuario_registrado [OF d(1), of a] c by (auto simp: es_conversacion_def)
  obtain ub where ub: "es_usuario (dato w) b ub" using usuario_registrado [OF d(1), of b] c by (auto simp: es_conversacion_def)
  let ?c = "\<lparr>conversacion_id = k, mensajes = ms, usuarios = [ua, ub]\<rparr>"
  have g: "Conversacion_getId ?c = k" using c by (simp add: Conversacion_getId_def es_conversacion_def)
  have "conversacion_ok w ?c"
    using c ua ub es_usuario_id [OF ua] es_usuario_id [OF ub]
    by (auto simp: conversacion_ok_def guardado_def es_conversacion_def es_usuario_def)
  moreover have "dato w (clave_conversacion k) = Some (Conversacion_texto ?c)"
  proof -
    have "map usuario_id (usuarios ?c) = [a, b]" using ua ub by (simp add: es_usuario_def)
    then show ?thesis using c unfolding Conversacion_texto_conv g by (auto simp: es_conversacion_def)
  qed
  ultimately have "hace (Conversacion_obtener k) w (?c\<lparr>conversacion_id := Conversacion_getId ?c\<rparr>) nada"
    by (intro hace_Conversacion_obtener [OF d(2)])
  then show ?thesis using that [of ?c] g Some c ua ub by (auto simp: hallada_def)
qed

lemma guion_id: "a @ ''-'' @ b \<noteq> keyIdConversacionNoEncontrada" "a @ ''-'' @ b \<noteq> keyIdUsuarioNoEncontrado"
    "a @ ''-'' @ b \<noteq> keyDatoNoEncontrado"
proof -
  have "CHR ''-'' \<in> set (a @ ''-'' @ b)" by simp
  moreover have "CHR ''-'' \<notin> set keyIdConversacionNoEncontrada" "CHR ''-'' \<notin> set keyIdUsuarioNoEncontrado"
    "CHR ''-'' \<notin> set keyDatoNoEncontrado" by simp_all
  ultimately show "a @ ''-'' @ b \<noteq> keyIdConversacionNoEncontrada" "a @ ''-'' @ b \<noteq> keyIdUsuarioNoEncontrado"
    "a @ ''-'' @ b \<noteq> keyDatoNoEncontrado" by metis+
qed

lemma hallada_invalida: "hallada m k c \<Longrightarrow> Conversacion_getId c = keyIdConversacionNoEncontrada \<longleftrightarrow> m (clave_conversacion k) = None"
  using guion_id(1)
  by (cases "m (clave_conversacion k) = None")
    (auto simp: hallada_def Conversacion_getId_def Conversacion_invalida_def es_conversacion_def)

section \<open>Updates that keep the invariant\<close>

lemma split_guion:
  "CHR ''-'' \<notin> set a \<Longrightarrow> CHR ''-'' \<notin> set b \<Longrightarrow> b \<noteq> [] \<Longrightarrow> split (a @ ''-'' @ b) CHR ''-'' = [a, b]"
  using split_append_delim [of "CHR ''-''" a b] split_single [of "CHR ''-''" b] by simp

lemma guion_inj:
  assumes "CHR ''-'' \<notin> set a" and "CHR ''-'' \<notin> set c" and "a @ ''-'' @ b = c @ ''-'' @ d"
  shows "a = c \<and> b = d"
proof -
  have "takeWhile (\<lambda>x. x \<noteq> CHR ''-'') (s @ ''-'' @ t) = s" if "CHR ''-'' \<notin> set s" for s t
    using that by (induction s) auto
  then have "a = c" using assms by metis
  then show ?thesis using assms(3) by simp
qed

lemma datos_usuario:
  assumes "datos_coherentes m" and "usuario_id u = md5 (telefono u)" and "usuario_limpio u"
  shows "datos_coherentes (m(clave_usuario (usuario_id u) \<mapsto> Usuario_texto u))" (is "datos_coherentes ?m")
proof -
  have "\<exists>v. es_usuario ?m k v" if "?m (clave_usuario k) \<noteq> None" for k
  proof (cases "k = usuario_id u")
    case True
    then show ?thesis using assms(2,3) by (auto simp: es_usuario_def)
  next
    case False
    then show ?thesis
      using that usuario_registrado [OF assms(1), of k] by (fastforce simp: es_usuario_def)
  qed
  then have "usuarios_coherentes ?m" by (simp add: usuarios_coherentes_def)
  moreover have "es_conversacion m k a b ms \<Longrightarrow> es_conversacion ?m k a b ms" for k a b ms
    by (auto simp: es_conversacion_def)
  then have "conversaciones_coherentes ?m"
    using assms(1) unfolding datos_coherentes_def conversaciones_coherentes_def by fastforce
  moreover have "indices_coherentes ?m"
    using assms(1) by (simp add: datos_coherentes_def indices_coherentes_def indice_ok_def indice_def texto_indice_def)
  moreover have "pares_unicos ?m" using assms(1) by (simp add: datos_coherentes_def pares_unicos_def)
  ultimately show ?thesis by (simp add: datos_coherentes_def)
qed

lemma datos_conversacion:
  assumes "datos_coherentes m" and "Conversacion_getId c = a @ ''-'' @ b" and "map usuario_id (usuarios c) = [a, b]"
    and "es_usuario m a ua" and "es_usuario m b ub"
    and "mensajes c \<noteq> []" and "\<forall>x \<in> set (mensajes c). sin_separador x \<and> mensaje_limpio x"
    and "m (clave_conversacion (b @ ''-'' @ a)) \<noteq> None \<Longrightarrow> m (clave_conversacion (a @ ''-'' @ b)) \<noteq> None"
  shows "datos_coherentes (guarda_conversacion c m)" (is "datos_coherentes ?m")
proof -
  have es: "es_usuario ?m k v \<longleftrightarrow> es_usuario m k v" for k v by (simp add: es_usuario_def)
  then have "usuarios_coherentes ?m"
    using assms(1) by (simp add: datos_coherentes_def usuarios_coherentes_def)
  moreover have "\<exists>a b ms. es_conversacion ?m k a b ms" if "?m (clave_conversacion k) \<noteq> None" for k
  proof (cases "k = Conversacion_getId c")
    case True
    then have "es_conversacion ?m k a b (mensajes c)"
      using assms(2-7) by (auto simp: es_conversacion_def Conversacion_texto_conv es_usuario_def)
    then show ?thesis by blast
  next
    case False
    then have "m (clave_conversacion k) \<noteq> None" using that by simp
    then obtain a b ms where "es_conversacion m k a b ms"
      using assms(1) unfolding datos_coherentes_def conversaciones_coherentes_def by blast
    then have "es_conversacion ?m k a b ms" using False by (auto simp: es_conversacion_def)
    then show ?thesis by blast
  qed
  then have "conversaciones_coherentes ?m" by (simp add: conversaciones_coherentes_def)
  moreover have "indices_coherentes ?m"
    unfolding indices_coherentes_def
  proof
    fix u
    have ids: "a \<noteq> []" "SeparadorListaBD \<notin> set a" "SeparadorListaBD \<notin> set b" "CHR ''-'' \<notin> set a"
      "CHR ''-'' \<notin> set b" "b \<noteq> []"
      using es_usuario_id [OF assms(4)] es_usuario_id [OF assms(5)] by auto
    have "id_ok (Conversacion_getId c)" using ids by (simp add: assms(2) id_ok_def)
    moreover have "indice_ok m u" and dist: "distinct (indice m u)" and s: "set (indice m u) =
        insert keyDatoNoEncontrado {k. m (clave_conversacion k) \<noteq> None \<and> u \<in> set (split k CHR ''-'')}"
      using assms(1) unfolding datos_coherentes_def indices_coherentes_def by blast+
    ultimately have i: "indice_ok ?m u" "indice ?m u =
      (if u \<in> usuario_id ` set (usuarios c) \<and> Conversacion_getId c \<notin> set (indice m u)
       then indice m u @ [Conversacion_getId c] else indice m u)"
      using guarda_conversacion_indice [of m u c] by blast+
    have u: "u \<in> usuario_id ` set (usuarios c) \<longleftrightarrow> u \<in> set (split (Conversacion_getId c) CHR ''-'')"
      using arg_cong [OF assms(3), of set] split_guion [OF ids(4-6)] by (simp add: assms(2))
    have "set (indice ?m u) = (if u \<in> set (split (Conversacion_getId c) CHR ''-'')
        then insert (Conversacion_getId c) (set (indice m u)) else set (indice m u))"
      using i(2) u by auto
    moreover have "distinct (indice ?m u)" using i(2) dist by simp
    ultimately show "indice_ok ?m u \<and> distinct (indice ?m u) \<and> set (indice ?m u) = insert keyDatoNoEncontrado
        {k. ?m (clave_conversacion k) \<noteq> None \<and> u \<in> set (split k CHR ''-'')}"
      using i(1) s by auto
  qed
  moreover have "pares_unicos ?m"
    using assms(1,8) guion_inj es_usuario_id [OF assms(4)] es_usuario_id [OF assms(5)]
    unfolding datos_coherentes_def pares_unicos_def guarda_conversacion_otros assms(2)
    by (metis option.distinct(1))
  ultimately show ?thesis by (simp add: datos_coherentes_def)
qed

end
