(* ===== verification/Servicio_Usuarios.thy ===== *)
theory Servicio_Usuarios
  imports Coherencia
begin

text \<open>
  The services on users: registration, profile, query, check-in and contacts. Each is shown to answer
  and to change the stored data as intended, on data that satisfies the invariant.
\<close>

section \<open>Steps the services share\<close>

text \<open>The parameters the services store or answer.\<close>

definition parametros :: "string list" where
  "parametros = [keyNombre, keyTelefono, keyFotoDePerfil, keyLocalizacion, keyPassword, keyCuerpo, keyFecha]"

definition peticion_limpia :: "mg_connection \<Rightarrow> bool" where
  "peticion_limpia conn \<longleftrightarrow> list_all (\<lambda>n. limpio (getParametro conn n [])) parametros"

lemma sirve_luego_escribe:
  assumes "hace m w x f" and "\<And>w1. m w = Inr (x, w1) \<Longrightarrow> cambia f w w1 \<Longrightarrow> sirve (k x) w1 r nada"
  shows "sirve (luego m k) w r f"
  using sirve_luego [of m w x f k r nada, OF assms] by simp

lemma sirve_responder': "limpio mensaje \<Longrightarrow> sirve (responder mensaje success) w (Some (mensaje, success)) nada"
  by (rule sirve_responder) (simp add: limpio_def)

lemma sirve_aviso: "limpio mensaje \<Longrightarrow> anota m \<Longrightarrow> sirve (luego m (\<lambda>_. responder mensaje success)) w (Some (mensaje, success)) nada"
  by (rule sirve_anota_antes) (simp_all add: sirve_responder')

lemma sirve_si: "P \<Longrightarrow> sirve a w r f \<Longrightarrow> sirve (if P then a else b) w r f"
  by simp

lemma sirve_no: "\<not> P \<Longrightarrow> sirve b w r f \<Longrightarrow> sirve (if P then a else b) w r f"
  by simp

lemma obtener_por_telefono:
  assumes "coherente w"
  obtains u where "encontrado (dato w) (md5 tel) u" and "hace (obtenerPorTelefono tel) w u nada"
  using obtener_usuario [OF assms, of "md5 tel"] unfolding obtenerPorTelefono_eq by blast

lemma es_usuario_encontrado: "es_usuario m k u \<Longrightarrow> encontrado m k v \<Longrightarrow> v = u"
  using usuario.texto_inj by (auto simp: es_usuario_def encontrado_def)

lemma hace_por_telefono:
  "coherente w \<Longrightarrow> es_usuario (dato w) (md5 tel) u \<Longrightarrow> hace (obtenerPorTelefono tel) w u nada"
  by (elim obtener_por_telefono [of w tel]) (auto dest: es_usuario_encontrado)

lemma hace_por_telefono_no:
  "coherente w \<Longrightarrow> dato w (clave_usuario (md5 tel)) = None \<Longrightarrow> hace (obtenerPorTelefono tel) w Usuario_invalido nada"
  by (elim obtener_por_telefono [of w tel]) (simp add: encontrado_def)

lemma hace_encontrado:
  assumes "coherente w" and "encontrado (dato w) (md5 tel) u" and "solo_lee w w1"
  shows "hace (obtenerPorTelefono tel) w1 u nada"
proof -
  have "coherente w1" using assms(1,3) by (rule coherente_lee)
  moreover have "dato w1 = dato w" using assms(1,3) by (simp add: coherente_def solo_lee_dato)
  ultimately show ?thesis
    using assms(2) hace_por_telefono [of w1 tel] hace_por_telefono_no [of w1 tel]
    by (auto simp: encontrado_def split: if_splits)
qed

lemma es_usuario_es_encontrado: "es_usuario m k u \<Longrightarrow> encontrado m k u"
  by (auto simp: es_usuario_def encontrado_def)

lemma invalido_simps [simp]: "usuario_id Usuario_invalido = keyIdUsuarioNoEncontrado" "nombre Usuario_invalido = []"
  by (simp_all add: Usuario_invalido_def Usuario_vacio_def)

lemma es_usuario_valido: "es_usuario m k u \<Longrightarrow> usuario_id u \<noteq> keyIdUsuarioNoEncontrado"
  using es_usuario_id [of m k u] by (auto simp: es_usuario_def)

lemma hace_ultima_conexion:
  "hace (registrarUltimaConexion u) w (u\<lparr>ultimaConexion := proximo_ctime w\<rparr>) nada"
  by (auto simp: hace_def registrarUltimaConexion_def luego_def cambia_def nada_def bd_sana_def dato_def)

lemma limpio_ctime [simp]: "limpio (proximo_ctime w)"
  by (simp add: proximo_ctime_def)

section \<open>Registration\<close>

definition usuario_nuevo :: "mg_connection \<Rightarrow> string \<Rightarrow> Usuario" where
  "usuario_nuevo conn t =
     \<lparr>nombre = getParametro conn keyNombre [], fotoDePerfil = fotoDePerfilDefault,
      usuario_id = md5 (getParametro conn keyTelefono []), telefono = getParametro conn keyTelefono [],
      conectado = True, localizacion = ''desconocida'', ultimaConexion = t, token = [],
      password = getParametro conn keyPassword []\<rparr>"

lemma hace_Usuario_new:
  "hace (Usuario_new (getParametro conn keyNombre []) (getParametro conn keyTelefono []) (getParametro conn keyPassword []))
     w (usuario_nuevo conn (proximo_ctime w)) nada"
  unfolding Usuario_new_def
  by (rule hace_luego_lee [OF hace_ultima_conexion]) (simp add: usuario_nuevo_def Usuario_vacio_def hace_ret)

lemma registrar_nuevo:
  assumes "coherente w" and "dato w (clave_usuario (md5 (getParametro conn keyTelefono []))) = None"
  shows "\<exists>t. limpio t \<and> sirve (registrarUsuario conn) w (Some (''Usuario registrado correctamente'', True))
    (\<lambda>m. m(clave_usuario (md5 (getParametro conn keyTelefono [])) \<mapsto> Usuario_texto (usuario_nuevo conn t)))"
proof -
  let ?tel = "getParametro conn keyTelefono []"
  note h = hace_por_telefono_no [OF assms]
  obtain w1 where w1: "obtenerPorTelefono ?tel w = Inr (Usuario_invalido, w1)" "solo_lee w w1"
    using h by (rule haceE)
  let ?u = "usuario_nuevo conn (proximo_ctime w1)"
  have s1: "bd_sana w1" using assms(1) w1(2) by (auto simp: coherente_def intro: cambia_sana)
  have "hace (Usuario_persistir ?u) w2 () (\<lambda>m. m(clave_usuario (md5 ?tel) \<mapsto> Usuario_texto ?u))" if "solo_lee w1 w2" for w2
    using hace_Usuario_persistir [OF cambia_sana [OF that s1], of ?u] by (simp add: usuario_nuevo_def)
  then have "sirve (registrarUsuario conn) w (Some (''Usuario registrado correctamente'', True))
      (\<lambda>m. m(clave_usuario (md5 ?tel) \<mapsto> Usuario_texto ?u))"
    unfolding registrarUsuario_def obtenerUsuario_def
    using w1
    by (intro sirve_luego_lee [OF h])
      (simp add: sirve_luego_lee [OF hace_Usuario_new] sirve_luego_escribe sirve_anota sirve_responder')
  then show ?thesis by (intro exI [of _ "proximo_ctime w1"]) simp
qed

lemma registrar_existente:
  assumes "coherente w" and "es_usuario (dato w) (md5 (getParametro conn keyTelefono [])) u"
  shows "sirve (registrarUsuario conn) w (Some (''El usuario ya existe'', False)) nada"
  unfolding registrarUsuario_def obtenerUsuario_def
  using es_usuario_valido [OF assms(2)]
  by (intro sirve_luego_lee [OF hace_por_telefono [OF assms]]) (simp add: sirve_aviso)

section \<open>Profile\<close>

definition perfil_nuevo :: "mg_connection \<Rightarrow> Usuario \<Rightarrow> Usuario" where
  "perfil_nuevo conn u =
     u\<lparr>nombre := getParametro conn keyNombre [], conectado := toBoolean (getParametro conn keyEstadoDeConexion []),
       fotoDePerfil := getParametro conn keyFotoDePerfil [], localizacion := getParametro conn keyLocalizacion [],
       password := getParametro conn keyPassword []\<rparr>"

definition rechazo_token :: "Usuario \<Rightarrow> string" where
  "rechazo_token u = ''El usuario '' @ nombre u @ '' no posee un token de session correcto''"

lemma limpio_rechazo: "es_usuario m k u \<Longrightarrow> limpio (rechazo_token u)"
  by (simp add: rechazo_token_def es_usuario_def usuario_limpio_def)

lemma perfil_autorizado:
  assumes "coherente w" and "peticion_limpia conn"
    and u: "es_usuario (dato w) (md5 (getParametro conn keyTelefono [])) u"
    and "token u = getParametro conn keyTokenSesion []"
  shows "sirve (administrarPerfil conn) w
    (Some (''Se modificaron los datos del usuario '' @ getParametro conn keyNombre [] @ '' correctamente. Token:''
       @ token u, True))
    (\<lambda>m. m(clave_usuario (usuario_id u) \<mapsto> Usuario_texto (perfil_nuevo conn u)))"
proof -
  let ?u = "perfil_nuevo conn u"
  have lim: "limpio (token u)" "limpio (getParametro conn keyNombre [])"
    using u assms(2) by (auto simp: es_usuario_def usuario_limpio_def peticion_limpia_def parametros_def)
  have s: "bd_sana w" using assms(1) by (simp add: coherente_def)
  have pers: "hace (Usuario_persistir ?u) w1 () (\<lambda>m. m(clave_usuario (usuario_id u) \<mapsto> Usuario_texto ?u))"
    if "solo_lee w w1" for w1
    using hace_Usuario_persistir [OF cambia_sana [OF that s], of ?u] by (simp add: perfil_nuevo_def)
  have "sirve (administrarPerfil conn) w
      (Some (''Se modificaron los datos del usuario '' @ nombre ?u @ '' correctamente. Token:'' @ token ?u, True))
      (\<lambda>m. m(clave_usuario (usuario_id u) \<mapsto> Usuario_texto ?u))"
    unfolding administrarPerfil_def obtenerUsuario_def Let_def perfil_nuevo_def
    by (rule sirve_luego_lee [OF hace_por_telefono [OF assms(1) u]], rule sirve_anota,
        rule sirve_si [OF es_usuario_valido [OF u]], rule sirve_si [OF assms(4)],
        rule sirve_luego_escribe [OF pers [unfolded perfil_nuevo_def]], assumption, rule sirve_aviso)
      (simp_all add: lim)
  then show ?thesis by (simp add: perfil_nuevo_def)
qed

lemma perfil_rechazado:
  assumes "coherente w" and u: "es_usuario (dato w) (md5 (getParametro conn keyTelefono [])) u"
    and "token u \<noteq> getParametro conn keyTokenSesion []"
  shows "sirve (administrarPerfil conn) w (Some (rechazo_token u, False)) nada"
  unfolding administrarPerfil_def obtenerUsuario_def Let_def rechazo_token_def [symmetric]
  using assms(3) es_usuario_valido [OF u] limpio_rechazo [OF u]
  by (intro sirve_luego_lee [OF hace_por_telefono [OF assms(1) u]]) (simp add: sirve_anota sirve_aviso)

lemma perfil_desconocido:
  assumes "coherente w" and "dato w (clave_usuario (md5 (getParametro conn keyTelefono []))) = None"
  shows "sirve (administrarPerfil conn) w (Some (''El usuario  no se encuentra registrado en el sistema'', False)) nada"
  unfolding administrarPerfil_def obtenerUsuario_def Let_def
  by (intro sirve_luego_lee [OF hace_por_telefono_no [OF assms]]) (simp add: sirve_anota sirve_aviso)

section \<open>Query\<close>

text \<open>Answers that are objects of texts.\<close>

lemma limpio_registro:
  assumes "registro_ok kvs" and "\<forall>(k, v) \<in> set kvs. limpio k \<and> \<not> aparece CHR ''%'' v"
  shows "limpio (toStyledString (JObject (objeto.poner_todos kvs [])))"
proof -
  have "\<not> aparece CHR ''%'' (JObject (objeto.poner_todos kvs []))"
    using assms(2) set_poner_todos [of kvs "[]"] by (fastforce simp: list_ex_iff limpio_def)
  then show ?thesis
    unfolding limpio_def by (rule percent_toStyledString [OF escribible_registro [OF assms(1)]])
qed

definition consulta_campos :: "Usuario \<Rightarrow> (string \<times> json) list" where
  "consulta_campos u =
     [(keyNombre, JString (nombre u)), (keyPassword, JString (password u)),
      (keyTokenSesion, JString (token u)), (keyEstadoDeConexion, JString (toString (conectado u))),
      (keyFotoDePerfil, JString (fotoDePerfil u)), (''idUsuario'', JString (usuario_id u)),
      (keyLocalizacion, JString (localizacion u))]"

definition consulta_texto :: "Usuario \<Rightarrow> string" where
  "consulta_texto u = toStyledString (JObject (objeto.poner_todos (consulta_campos u) []))"

lemma limpio_consulta: "usuario_limpio u \<Longrightarrow> limpio (usuario_id u) \<Longrightarrow> limpio (consulta_texto u)"
  unfolding consulta_texto_def
  by (rule limpio_registro)
    (auto simp: registro_ok_def consulta_campos_def usuario_limpio_def toString_def limpio_def [symmetric])

lemma sirve_consulta:
  assumes "p = (token u, u)" and "bd_sana w" and "limpio (consulta_texto u)"
  shows "sirve (case p of (tok, u2) \<Rightarrow> luego (eleva (json_sets
            [(keyNombre, JString (nombre u2)), (keyPassword, JString (password u2)), (keyTokenSesion, JString tok),
             (keyEstadoDeConexion, JString (toString (conectado u2))), (keyFotoDePerfil, JString (fotoDePerfil u2)),
             (''idUsuario'', JString (usuario_id u2)), (keyLocalizacion, JString (localizacion u2))] JNull))
          (\<lambda>respuesta. luego (Usuario_persistir u2) (\<lambda>_. luego (responder (toStyledString respuesta) True)
            (\<lambda>_. Loger_info (''Consulta del usuario '' @ nombre u2 @ '' exitosa.'')))))
        w (Some (consulta_texto u, True)) (\<lambda>m. m(clave_usuario (usuario_id u) \<mapsto> Usuario_texto u))"
proof -
  have js: "json_sets (consulta_campos u) JNull = Inr (JObject (objeto.poner_todos (consulta_campos u) []))"
    by (rule json_sets_JNull) (simp add: consulta_campos_def)
  show ?thesis
    unfolding assms(1) prod.case consulta_campos_def [symmetric] js luego_eleva consulta_texto_def [symmetric]
    by (rule sirve_luego_escribe [OF hace_Usuario_persistir [OF assms(2)]],
        rule sirve_anota [OF sirve_responder' [OF assms(3)]]) simp
qed

text \<open>The queried user: the time of the query is recorded and the session token renewed on demand.\<close>

definition consultado :: "bool \<Rightarrow> string \<Rightarrow> Usuario \<Rightarrow> Usuario" where
  "consultado renovar t u = (let u1 = u\<lparr>ultimaConexion := t\<rparr> in if renovar then snd (calcularTokenDeSesion u1) else u1)"

lemma consultado_simps [simp]:
  "usuario_id (consultado b t u) = usuario_id u" "telefono (consultado b t u) = telefono u"
  "usuario_limpio u \<Longrightarrow> limpio t \<Longrightarrow> usuario_limpio (consultado b t u)"
  by (simp_all add: consultado_def calcularTokenDeSesion_def Let_def usuario_limpio_def)

lemma consulta_registrado:
  assumes "coherente w" and tel: "getParametroIdMetodoGET conn urlBaseUsuario = Inr tel"
    and u: "es_usuario (dato w) (md5 tel) u"
  shows "\<exists>t. limpio t \<and>
    (let u' = consultado (toBoolean (getParametro conn keyRenovarToken [])) t u
     in sirve (consultarUsuarioOnline conn) w (Some (consulta_texto u', True))
       (\<lambda>m. m(clave_usuario (usuario_id u) \<mapsto> Usuario_texto u')))"
proof -
  note h = hace_por_telefono [OF assms(1) u]
  obtain w1 where w1: "obtenerPorTelefono tel w = Inr (u, w1)" "solo_lee w w1" using h by (rule haceE)
  let ?t = "proximo_ctime w1" and ?b = "toBoolean (getParametro conn keyRenovarToken [])"
  let ?u = "consultado ?b ?t u"
  have par: "(if ?b then calcularTokenDeSesion (u\<lparr>ultimaConexion := ?t\<rparr>)
      else (token (u\<lparr>ultimaConexion := ?t\<rparr>), u\<lparr>ultimaConexion := ?t\<rparr>)) = (token ?u, ?u)"
    by (simp add: consultado_def calcularTokenDeSesion_def Let_def)
  have s1: "bd_sana w1" using assms(1) w1(2) by (auto simp: coherente_def intro: cambia_sana)
  have lim: "limpio (consulta_texto ?u)"
    using u es_usuario_id [OF u] by (intro limpio_consulta) (auto simp: es_usuario_def)
  have "sirve (consultarUsuarioOnline conn) w (Some (consulta_texto ?u, True))
      (\<lambda>m. m(clave_usuario (usuario_id ?u) \<mapsto> Usuario_texto ?u))"
    unfolding consultarUsuarioOnline_def tel luego_eleva Let_def
    by (rule sirve_luego_lee [OF h], rule sirve_anota, rule sirve_si [OF es_usuario_valido [OF u]],
        rule sirve_luego_lee [OF hace_ultima_conexion], rule sirve_consulta [OF _ _ lim])
      (use par w1(1) in simp, use s1 w1(1) in \<open>auto intro: cambia_sana\<close>)
  then show ?thesis by (intro exI [of _ ?t]) (simp add: Let_def)
qed

lemma consulta_desconocido:
  assumes "coherente w" and "getParametroIdMetodoGET conn urlBaseUsuario = Inr tel" and "peticion_limpia conn"
    and "dato w (clave_usuario (md5 tel)) = None"
  shows "sirve (consultarUsuarioOnline conn) w
    (Some (''No se pudo obtener el estado del usuario con numero: '' @ getParametro conn keyTelefono []
       @ '' ya que no se encuentra registrado en el sistema.'', False)) nada"
  unfolding consultarUsuarioOnline_def assms(2) luego_eleva Let_def
  using assms(3)
  by (intro sirve_luego_lee [OF hace_por_telefono_no [OF assms(1,4)]])
    (simp add: sirve_anota sirve_aviso peticion_limpia_def parametros_def)

section \<open>Check-in\<close>

lemma hace_fechaYhoraActual: "\<exists>t. limpio t \<and> hace fechaYhoraActual w t nada"
  by (auto simp: hace_def fechaYhoraActual_def luego_def leer_reloj_def cambia_def nada_def bd_sana_def dato_def)

text \<open>The place a check-in records: the nearest one that covers the point.\<close>

definition lugar_de :: "mundo \<Rightarrow> doble \<Rightarrow> doble \<Rightarrow> string \<Rightarrow> bool" where
  "lugar_de w lat lon l \<longleftrightarrow> (\<exists>ps d. lugares w = JArray (map lugar_json ps) \<and> hasta_ahora lat lon (set ps) (l, d))"

lemma hace_calcularUbicacion:
  assumes "lugares_coherentes (lugares w)"
  shows "\<exists>l. limpio l \<and> lugar_de w lat lon l \<and> hace (calcularUbicacion (coordenadas_json lat lon)) w l nada"
proof -
  obtain ps where ps: "lugares w = JArray (map lugar_json ps)" "\<forall>p \<in> set ps. limpio (lug_nombre p)"
    using assms by (auto simp: lugares_coherentes_def)
  obtain l d where l: "calcularUbicacion (coordenadas_json lat lon) w = Inr (l, w)" "hasta_ahora lat lon (set ps) (l, d)"
    using calcularUbicacion_lugares [OF ps(1)] by blast
  then show ?thesis
    using ps lee.refl [of w] by (intro exI [of _ l]) (auto simp: hace_def lugar_de_def hasta_ahora_def)
qed

lemma coordenadas_json_sets:
  "json_sets [(''latitud'', JReal lat), (''longitud'', JReal lon)] JNull = Inr (coordenadas_json lat lon)"
  by (simp add: json_set_def resolveReference_def coordenadas_json_def less_char_def)

lemma checkIn_registrado:
  assumes "coherente w" and u: "es_usuario (dato w) (md5 (getParametro conn keyTelefono [])) u"
  shows "\<exists>l t. limpio l \<and> limpio t \<and>
    lugar_de w (atof (getParametro conn keyLatitud [])) (atof (getParametro conn keyLongitud [])) l \<and>
    sirve (checkIn conn) w (Some (l @ '' '' @ t, True))
      (\<lambda>m. m(clave_usuario (usuario_id u) \<mapsto> Usuario_texto (u\<lparr>localizacion := l @ '' '' @ t\<rparr>)))"
proof -
  let ?c = "coordenadas_json (atof (getParametro conn keyLatitud [])) (atof (getParametro conn keyLongitud []))"
  note h = hace_por_telefono [OF assms]
  obtain w1 where w1: "obtenerPorTelefono (getParametro conn keyTelefono []) w = Inr (u, w1)" "solo_lee w w1"
    using h by (rule haceE)
  have c1: "coherente w1" and lug: "lugares w1 = lugares w"
    using assms(1) w1(2) by (auto intro: coherente_lee simp: cambia_def)
  obtain l where l: "limpio l" "lugar_de w (atof (getParametro conn keyLatitud [])) (atof (getParametro conn keyLongitud [])) l"
      "hace (calcularUbicacion ?c) w1 l nada"
    using hace_calcularUbicacion [of w1] c1 lug unfolding coherente_def lugar_de_def by metis
  obtain w2 where w2: "calcularUbicacion ?c w1 = Inr (l, w2)" "solo_lee w1 w2" using l(3) by (rule haceE)
  obtain t where t: "limpio t" "hace fechaYhoraActual w2 t nada" using hace_fechaYhoraActual by blast
  let ?u = "u\<lparr>localizacion := l @ '' '' @ t\<rparr>"
  have pers: "hace (Usuario_persistir ?u) w3 () (\<lambda>m. m(clave_usuario (usuario_id u) \<mapsto> Usuario_texto ?u))"
    if "solo_lee w2 w3" for w3
    using hace_Usuario_persistir [of w3 ?u] cambia_sana [OF that cambia_sana [OF w2(2)]] c1 by (simp add: coherente_def)
  have "sirve (checkIn conn) w (Some (l @ '' '' @ t, True)) (\<lambda>m. m(clave_usuario (usuario_id u) \<mapsto> Usuario_texto ?u))"
    unfolding checkIn_def coordenadas_json_sets luego_eleva obtenerUsuario_def Let_def
  proof (rule sirve_luego_lee [OF h], rule sirve_si [OF es_usuario_valido [OF u]])
    fix w1' assume "obtenerPorTelefono (getParametro conn keyTelefono []) w = Inr (u, w1')"
    then have [simp]: "w1' = w1" using w1(1) by simp
    show "sirve (luego (calcularUbicacion ?c) (\<lambda>lugar. luego fechaYhoraActual (\<lambda>ahora.
        luego (Usuario_persistir (u\<lparr>localizacion := lugar @ '' '' @ ahora\<rparr>)) (\<lambda>_. responder (lugar @ '' '' @ ahora) True))))
        w1' (Some (l @ '' '' @ t, True)) (\<lambda>m. m(clave_usuario (usuario_id u) \<mapsto> Usuario_texto ?u))"
      unfolding \<open>w1' = w1\<close>
      by (rule sirve_luego_lee [OF l(3)], rule sirve_luego_lee, use t(2) w2(1) in simp, rule sirve_luego_escribe [OF pers])
        (use w2(1) l(1) t(1) in \<open>simp_all add: sirve_responder'\<close>)
  qed
  then show ?thesis using l t by blast
qed

lemma checkIn_desconocido:
  assumes "coherente w" and "dato w (clave_usuario (md5 (getParametro conn keyTelefono []))) = None"
  shows "sirve (checkIn conn) w (Some (''el usuario no existe.'', False)) nada"
  unfolding checkIn_def coordenadas_json_sets luego_eleva obtenerUsuario_def Let_def
  by (intro sirve_luego_lee [OF hace_por_telefono_no [OF assms]]) (simp add: sirve_responder')

section \<open>Contacts\<close>

text \<open>An answer that is an array of values, built by assigning each index in turn.\<close>

definition arreglo :: "string \<Rightarrow> json list \<Rightarrow> json" where
  "arreglo key vs = (if vs = [] then JNull else JObject [(key, JArray vs)])"

lemma json_sets_index_desde:
  "list_all2 (\<lambda>f v. f JNull = Inr v) fs vs \<Longrightarrow>
     json_sets_index key (length us) fs (arreglo key us) = Inr (arreglo key (us @ vs))"
proof (induction fs vs arbitrary: us rule: list_all2_induct)
  case (Cons f fs v vs)
  have "resolveReference key (resolveIndex (length us) f) (arreglo key us) = Inr (arreglo key (us @ [v]))"
    using Cons.hyps(1) by (auto simp: arreglo_def resolveReference_def resolveIndex_def Let_def)
  then show ?case using Cons.IH [of "us @ [v]"] by simp
qed simp

lemma json_sets_index_JNull:
  "list_all2 (\<lambda>f v. f JNull = Inr v) fs vs \<Longrightarrow> json_sets_index key 0 fs JNull = Inr (arreglo key vs)"
  using json_sets_index_desde [of fs vs key "[]"] by (simp add: arreglo_def)

lemma limpio_arreglo:
  assumes "limpio key" "NUL \<notin> set key" "\<forall>v \<in> set vs. escribible 998 v \<and> \<not> aparece CHR ''%'' v"
  shows "limpio (toStyledString (arreglo key vs))"
proof -
  have "escribible 1000 (arreglo key vs)"
    using assms(2,3) by (auto simp: arreglo_def escribible_numeral list_all_iff obj_ok_def)
  moreover have "\<not> aparece CHR ''%'' (arreglo key vs)"
    using assms(1,3) by (auto simp: arreglo_def list_ex_iff limpio_def)
  ultimately show ?thesis unfolding limpio_def by (rule percent_toStyledString)
qed

definition contacto_campos :: "Usuario \<Rightarrow> (string \<times> json) list" where
  "contacto_campos u = [(keyNombre, JString (nombre u)), (keyTelefono, JString (telefono u)),
      (keyFotoDePerfil, JString (fotoDePerfil u)), (keyLocalizacion, JString (localizacion u))]"

definition contactos_texto :: "Usuario list \<Rightarrow> string" where
  "contactos_texto us =
     toStyledString (arreglo ''contactos'' (map (\<lambda>u. JObject (objeto.poner_todos (contacto_campos u) [])) us))"

lemma contacto_json_eq: "contacto_json u JNull = Inr (JObject (objeto.poner_todos (contacto_campos u) []))"
  unfolding contacto_json_def contacto_campos_def [symmetric] by (rule json_sets_JNull) (simp add: contacto_campos_def)

lemma limpio_contactos: "\<forall>u \<in> set us. usuario_limpio u \<Longrightarrow> limpio (contactos_texto us)"
  unfolding contactos_texto_def
proof (rule limpio_arreglo)
  assume us: "\<forall>u \<in> set us. usuario_limpio u"
  have "escribible 998 (JObject (objeto.poner_todos (contacto_campos u) []))" for u
    using objeto.inv_poner_todos [of "[]" "contacto_campos u"] set_poner_todos [of "contacto_campos u" "[]"]
    by (auto simp: escribible_numeral list_all_iff contacto_campos_def)
  moreover have "\<not> aparece CHR ''%'' (JObject (objeto.poner_todos (contacto_campos u) []))" if "u \<in> set us" for u
    using us that set_poner_todos [of "contacto_campos u" "[]"]
    by (auto simp: list_ex_iff contacto_campos_def usuario_limpio_def limpio_def)
  ultimately show "\<forall>v \<in> set (map (\<lambda>u. JObject (objeto.poner_todos (contacto_campos u) [])) us).
      escribible 998 v \<and> \<not> aparece CHR ''%'' v" by auto
qed simp_all

text \<open>
  The users of the given telephones that are registered and connected, in the order of the
  telephones; \<open>us\<close> gives the lookup of each.
\<close>

definition conectados :: "(string \<Rightarrow> Usuario) \<Rightarrow> string list \<Rightarrow> Usuario list" where
  "conectados us tels = filter (\<lambda>u. usuario_id u \<noteq> keyIdUsuarioNoEncontrado \<and> conectado u) (map us tels)"

lemma buscador:
  assumes "coherente w"
  obtains us where "\<forall>tel. encontrado (dato w) (md5 tel) (us tel)"
    and "\<And>tel w1. solo_lee w w1 \<Longrightarrow> hace (obtenerPorTelefono tel) w1 (us tel) nada"
proof -
  have "\<exists>u. encontrado (dato w) (md5 tel) u" for tel using obtener_por_telefono [OF assms, of tel] by blast
  then obtain us where us: "\<forall>tel. encontrado (dato w) (md5 tel) (us tel)" by metis
  then show ?thesis using that hace_encontrado [OF assms] by blast
qed

lemma contactos_servicio:
  assumes "coherente w" and tels: "bnd (getParametroArray conn keyContantosTelefono []) jsonValueToVector = Inr tels"
  shows "\<exists>us. (\<forall>tel. encontrado (dato w) (md5 tel) (us tel)) \<and>
    sirve (obtenerContactos conn) w (Some (contactos_texto (conectados us tels), True)) nada"
proof -
  obtain us where us: "\<forall>tel. encontrado (dato w) (md5 tel) (us tel)"
      "\<And>tel w1. solo_lee w w1 \<Longrightarrow> hace (obtenerPorTelefono tel) w1 (us tel) nada"
    using buscador [OF assms(1)] by blast
  define c where "c tel = (if usuario_id (us tel) \<noteq> keyIdUsuarioNoEncontrado \<and> conectado (us tel) then [us tel] else [])" for tel
  have "hace (para_cada contactoConectado (map (\<lambda>t. t) tels)) w (map c tels) nada"
    by (rule hace_para_cada_map) (auto simp: contactoConectado_def c_def intro!: hace_luego_lee [OF us(2)] hace_ret)
  then have h: "hace (para_cada contactoConectado tels) w (map c tels) nada" by simp
  have c: "concat (map c tels) = conectados us tels"
    by (induction tels) (simp_all add: c_def conectados_def)
  have js: "json_sets_index ''contactos'' 0 (map contacto_json vs) JNull =
      Inr (arreglo ''contactos'' (map (\<lambda>u. JObject (objeto.poner_todos (contacto_campos u) [])) vs))" for vs
    by (rule json_sets_index_JNull) (simp add: list_all2_map1 list_all2_map2 contacto_json_eq list.rel_refl)
  have "limpio (contactos_texto (conectados us tels))"
    using us(1) by (intro limpio_contactos) (auto simp: conectados_def dest: encontrado_limpio)
  then have "sirve (obtenerContactos conn) w (Some (contactos_texto (conectados us tels), True)) nada"
    unfolding obtenerContactos_def tels luego_eleva js
    by (intro sirve_luego_lee [OF h]) (simp add: c contactos_texto_def [symmetric] sirve_responder')
  then show ?thesis using us(1) by blast
qed

end
