(* ===== verification/Servicio_Conversaciones.thy ===== *)
theory Servicio_Conversaciones
  imports Servicio_Usuarios
begin

text \<open>
  The services on conversations. Storing a message is shown to refine the abstract operation on what
  two users have told each other, whichever of the two started the conversation and whoever writes;
  the queries answer what is stored and change nothing.
\<close>

section \<open>What two users have told each other\<close>

definition charla :: "(string \<Rightarrow> string option) \<Rightarrow> string \<Rightarrow> string \<Rightarrow> Mensaje list \<Rightarrow> bool" where
  "charla m a b ms \<longleftrightarrow> es_conversacion m (a @ ''-'' @ b) a b ms \<or> es_conversacion m (b @ ''-'' @ a) b a ms \<or>
     m (clave_conversacion (a @ ''-'' @ b)) = None \<and> m (clave_conversacion (b @ ''-'' @ a)) = None \<and> ms = []"

lemma charla_sim: "charla m a b ms = charla m b a ms"
  by (auto simp: charla_def)

lemma conv_texto_inj:
  assumes "conv_texto k ids ms = conv_texto k' ids' ms'"
    and "\<forall>x \<in> set ms. sin_separador x" and "\<forall>x \<in> set ms'. sin_separador x"
  shows "ms = ms'"
proof -
  define kvs where "kvs k ids ms = [(keyIdConversacion, JString k), (keyIdsUsuarios, JString (unir SeparadorListaBD ids)),
      (keyMensajes, JString (unir SeparadorListaBD (map Mensaje_texto ms)))]" for k ids ms
  have ok: "registro_ok (kvs k ids ms)" for k ids ms by (simp add: registro_ok_def kvs_def)
  have "JObject (objeto.poner_todos (kvs k ids ms) []) = JObject (objeto.poner_todos (kvs k' ids' ms') [])"
    using assms(1) parse_registro [OF ok, of k ids ms JNull] parse_registro [OF ok, of k' ids' ms' JNull]
    by (simp add: conv_texto_def kvs_def)
  moreover have "getString (JObject (objeto.poner_todos (kvs k ids ms) [])) keyMensajes
      = Inr (unir SeparadorListaBD (map Mensaje_texto ms))" for k ids ms
    by (subst getString_registro [OF ok], simp add: kvs_def, simp add: asString_def)
  ultimately have "unir SeparadorListaBD (map Mensaje_texto ms) = unir SeparadorListaBD (map Mensaje_texto ms')"
    by (metis Inr_inject)
  moreover have "split (unir SeparadorListaBD (map Mensaje_texto xs)) SeparadorListaBD = map Mensaje_texto xs"
    if "\<forall>x \<in> set xs. sin_separador x" for xs
    using that Mensaje_texto_separador by (intro split_unir) auto
  ultimately have "map Mensaje_texto ms = map Mensaje_texto ms'" using assms(2,3) by metis
  then show ?thesis using mensaje.texto_inj by (auto simp: inj_map_eq_map inj_def)
qed

lemma es_conversacion_unica: "es_conversacion m k a b ms \<Longrightarrow> es_conversacion m k a' b' ms' \<Longrightarrow> ms = ms'"
  using conv_texto_inj by (fastforce simp: es_conversacion_def)

lemma es_conversacion_guarda:
  "es_conversacion (guarda_conversacion c m) k a b ms \<longleftrightarrow>
     (if k = Conversacion_getId c then conv_texto k [a, b] ms = Conversacion_texto c \<and> k = a @ ''-'' @ b \<and>
        m (clave_usuario a) \<noteq> None \<and> m (clave_usuario b) \<noteq> None \<and> ms \<noteq> [] \<and> (\<forall>x \<in> set ms. sin_separador x \<and> mensaje_limpio x)
      else es_conversacion m k a b ms)"
  by (auto simp: es_conversacion_def)

text \<open>Two registered users have told each other exactly one list of messages.\<close>

lemma charla_existe:
  assumes "datos_coherentes m" and "es_usuario m a ua" and "es_usuario m b ub"
  shows "\<exists>!ms. charla m a b ms"
proof -
  have g: "CHR ''-'' \<notin> set a" "CHR ''-'' \<notin> set b" using es_usuario_id assms(2,3) by blast+
  have ex: "\<exists>ms. es_conversacion m (c @ ''-'' @ d) c d ms"
    if k: "m (clave_conversacion (c @ ''-'' @ d)) \<noteq> None" "CHR ''-'' \<notin> set c" for c d
  proof -
    obtain c' d' ms where e: "es_conversacion m (c @ ''-'' @ d) c' d' ms"
      using assms(1) k(1) unfolding datos_coherentes_def conversaciones_coherentes_def by blast
    then obtain uc where "es_usuario m c' uc" using usuario_registrado [OF assms(1)] by (auto simp: es_conversacion_def)
    then have "CHR ''-'' \<notin> set c'" using es_usuario_id by blast
    then have "c' = c \<and> d' = d" using e k(2) guion_inj [of c c' d d'] by (auto simp: es_conversacion_def)
    then show ?thesis using e by blast
  qed
  have no: "m (clave_conversacion k) \<noteq> None" if "es_conversacion m k c d ms" for k c d ms
    using that by (auto simp: es_conversacion_def)
  have "a = b" if "m (clave_conversacion (a @ ''-'' @ b)) \<noteq> None" "m (clave_conversacion (b @ ''-'' @ a)) \<noteq> None"
    using assms(1) that g by (auto simp: datos_coherentes_def pares_unicos_def)
  then have "ms = ms'" if "charla m a b ms" "charla m a b ms'" for ms ms'
    using that es_conversacion_unica no unfolding charla_def by metis
  moreover have "\<exists>ms. charla m a b ms" using ex g unfolding charla_def by blast
  ultimately show ?thesis by blast
qed

text \<open>
  What a message \<open>x\<close> from \<open>a\<close> to \<open>b\<close> does to the data: it is added at the end of what the two have told
  each other, no other conversation and no user changes, and the invariant is kept.
\<close>

definition recibe :: "string \<Rightarrow> string \<Rightarrow> Mensaje \<Rightarrow> (string \<Rightarrow> string option) \<Rightarrow> (string \<Rightarrow> string option) \<Rightarrow> bool" where
  "recibe a b x m m' \<longleftrightarrow> datos_coherentes m' \<and> (\<forall>k. m' (clave_usuario k) = m (clave_usuario k)) \<and>
     (\<forall>ms. charla m a b ms \<longrightarrow> charla m' a b (ms @ [x])) \<and>
     (\<forall>c d ms. CHR ''-'' \<notin> set c \<union> set d \<and> {c, d} \<noteq> {a, b} \<longrightarrow> charla m' c d ms = charla m c d ms)"

lemma recibe_guarda:
  assumes "datos_coherentes m" and "es_usuario m a ua" and "es_usuario m b ub"
    and c: "Conversacion_getId c = a @ ''-'' @ b" "map usuario_id (usuarios c) = [a, b]" "mensajes c = ms @ [x]"
    and ms: "charla m a b ms"
    and b: "m (clave_conversacion (b @ ''-'' @ a)) \<noteq> None \<Longrightarrow> m (clave_conversacion (a @ ''-'' @ b)) \<noteq> None"
    and x: "sin_separador x" "mensaje_limpio x"
  shows "recibe a b x m (guarda_conversacion c m)"
proof -
  have g: "CHR ''-'' \<notin> set a" "CHR ''-'' \<notin> set b" using es_usuario_id assms(2,3) by blast+
  have limpios: "\<forall>x \<in> set (mensajes c). sin_separador x \<and> mensaje_limpio x"
    using ms c(3) x by (auto simp: charla_def es_conversacion_def)
  have reg: "m (clave_usuario a) \<noteq> None" "m (clave_usuario b) \<noteq> None" using assms(2,3) by (auto simp: es_usuario_def)
  have "es_conversacion (guarda_conversacion c m) (a @ ''-'' @ b) a b (ms @ [x])"
    using c limpios reg by (simp add: es_conversacion_guarda Conversacion_texto_conv)
  then have nueva: "charla (guarda_conversacion c m) a b (ms' @ [x])" if "charla m a b ms'" for ms'
    using that ms charla_existe [OF assms(1-3)] unfolding charla_def by blast
  have otras: "charla (guarda_conversacion c m) p q ns = charla m p q ns"
    if pq: "CHR ''-'' \<notin> set p \<union> set q \<and> {p, q} \<noteq> {a, b}" for p q ns
  proof -
    have "p @ ''-'' @ q \<noteq> Conversacion_getId c" "q @ ''-'' @ p \<noteq> Conversacion_getId c"
      using pq g guion_inj [of p a q b] guion_inj [of q a p b] c(1) by auto
    then show ?thesis unfolding charla_def es_conversacion_guarda by simp
  qed
  have "datos_coherentes (guarda_conversacion c m)"
    using datos_conversacion [OF assms(1) c(1,2) assms(2,3) _ limpios b] c(3) by simp
  then show ?thesis using nueva otras by (simp add: recibe_def)
qed

lemma recibe_sim: "recibe a b x m m' = recibe b a x m m'"
  by (simp add: recibe_def charla_sim [of _ a b] insert_commute)

section \<open>Storing a message\<close>

lemma es_usuario_unico: "es_usuario m k u \<Longrightarrow> es_usuario m k u' \<Longrightarrow> u = u'"
  using usuario.texto_inj by (auto simp: es_usuario_def)

lemma hallada_unica:
  assumes "hallada m k c" and "hallada m k c'"
  shows "c = c'"
proof (cases "m (clave_conversacion k) = None")
  case False
  obtain a b ua ub ms where 1: "es_conversacion m k a b ms" "es_usuario m a ua" "es_usuario m b ub"
      "c = \<lparr>conversacion_id = k, mensajes = ms, usuarios = [ua, ub]\<rparr>"
    using assms(1) False by (auto simp: hallada_def)
  obtain a' b' ua' ub' ms' where 2: "es_conversacion m k a' b' ms'" "es_usuario m a' ua'" "es_usuario m b' ub'"
      "c' = \<lparr>conversacion_id = k, mensajes = ms', usuarios = [ua', ub']\<rparr>"
    using assms(2) False by (auto simp: hallada_def)
  have "a @ ''-'' @ b = a' @ ''-'' @ b'" using 1(1) 2(1) unfolding es_conversacion_def by metis
  then have "a = a' \<and> b = b'"
    using guion_inj [of a a' b b'] es_usuario_id [OF 1(2)] es_usuario_id [OF 2(2)] by blast
  then show ?thesis using 1 2 es_usuario_unico es_conversacion_unica [OF 1(1) 2(1)] by blast
qed (use assms in \<open>simp add: hallada_def\<close>)

lemma obtener_conversacion_lee:
  assumes "coherente w"
  obtains c where "hallada (dato w) k c" and "\<And>w1. solo_lee w w1 \<Longrightarrow> hace (Conversacion_obtener k) w1 c nada"
proof -
  obtain c where c: "hallada (dato w) k c" by (rule obtener_conversacion [OF assms])
  have "hace (Conversacion_obtener k) w1 c nada" if w1: "solo_lee w w1" for w1
  proof -
    have "dato w1 = dato w" using assms w1 by (simp add: coherente_def solo_lee_dato)
    then show ?thesis using obtener_conversacion [OF coherente_lee [OF assms w1], of k] hallada_unica [OF c] by metis
  qed
  then show ?thesis using that c by blast
qed

lemma hallada_par:
  assumes "datos_coherentes m" and "es_usuario m a ua" and "es_usuario m b ub"
    and "hallada m (a @ ''-'' @ b) c" and "m (clave_conversacion (a @ ''-'' @ b)) \<noteq> None"
  shows "Conversacion_getId c = a @ ''-'' @ b" "map usuario_id (usuarios c) = [a, b]" "charla m a b (mensajes c)"
proof -
  obtain p q up uq ms where p: "es_conversacion m (a @ ''-'' @ b) p q ms" "es_usuario m p up" "es_usuario m q uq"
      "c = \<lparr>conversacion_id = a @ ''-'' @ b, mensajes = ms, usuarios = [up, uq]\<rparr>"
    using assms(4,5) by (auto simp: hallada_def)
  have "a @ ''-'' @ b = p @ ''-'' @ q" using p(1) unfolding es_conversacion_def by blast
  then have "p = a \<and> q = b"
    using guion_inj [of a p b q] es_usuario_id [OF assms(2)] es_usuario_id [OF p(2)] by blast
  then have "es_conversacion m (a @ ''-'' @ b) a b ms" "usuario_id up = a" "usuario_id uq = b"
    using p(1-3) by (auto simp: es_usuario_def)
  then show "Conversacion_getId c = a @ ''-'' @ b" "map usuario_id (usuarios c) = [a, b]" "charla m a b (mensajes c)"
    using p(4) by (simp_all add: Conversacion_getId_def charla_def)
qed

lemma agregarMensaje_simps [simp]:
  "Conversacion_getId (agregarMensaje x c) = Conversacion_getId c" "usuarios (agregarMensaje x c) = usuarios c"
  "mensajes (agregarMensaje x c) = mensajes c @ [x]"
  by (simp_all add: agregarMensaje_def Conversacion_getId_def)

lemma Conversacion_new_simps [simp]:
  "usuarios (Conversacion_new us ms) = us" "mensajes (Conversacion_new us ms) = ms"
  "Conversacion_getId (Conversacion_new us ms) = unir CHR ''-'' (map usuario_id us)"
  by (simp_all add: Conversacion_new_def Conversacion_getId_def Let_def)

lemma unir_guion: "a \<noteq> [] \<Longrightarrow> unir CHR ''-'' [a, b] = a @ ''-'' @ b"
  by simp

lemma hace_almacenarMensaje:
  assumes "coherente w" and a: "es_usuario (dato w) a ua" and b: "es_usuario (dato w) b ub"
    and x: "sin_separador x" "mensaje_limpio x"
  shows "\<exists>c. (\<forall>w1. solo_lee w w1 \<longrightarrow> hace (almacenarMensaje ua ub x) w1 () (guarda_conversacion c)) \<and>
    recibe a b x (dato w) (guarda_conversacion c (dato w))"
proof -
  let ?k = "a @ ''-'' @ b" and ?k' = "b @ ''-'' @ a" and ?m = "dato w"
  have d: "datos_coherentes ?m" and s: "bd_sana w" using assms(1) by (auto simp: coherente_def)
  have ids [simp]: "usuario_id ua = a" "usuario_id ub = b" using a b by (auto simp: es_usuario_def)
  have pers: "hace (Conversacion_persistir c) w1 () (guarda_conversacion c)" if "solo_lee w w1" for c w1
    using hace_Conversacion_persistir [OF cambia_sana [OF that s]] .
  obtain c where c: "hallada ?m ?k c" "\<And>w1. solo_lee w w1 \<Longrightarrow> hace (Conversacion_obtener ?k) w1 c nada"
    using obtener_conversacion_lee [OF assms(1)] by blast
  obtain c' where c': "hallada ?m ?k' c'" "\<And>w1. solo_lee w w1 \<Longrightarrow> hace (Conversacion_obtener ?k') w1 c' nada"
    using obtener_conversacion_lee [OF assms(1)] by blast
  let ?f = "if ?m (clave_conversacion ?k) \<noteq> None then agregarMensaje x c
    else if ?m (clave_conversacion ?k') \<noteq> None then agregarMensaje x c' else Conversacion_new [ua, ub] [x]"
  have "hace (luego (Conversacion_obtener ?k') (\<lambda>conversacion.
      if Conversacion_getId conversacion \<noteq> keyIdConversacionNoEncontrada
      then Conversacion_persistir (agregarMensaje x conversacion)
      else Conversacion_persistir (Conversacion_new [ua, ub] [x]))) w1 ()
      (guarda_conversacion (if ?m (clave_conversacion ?k') \<noteq> None then agregarMensaje x c' else Conversacion_new [ua, ub] [x]))"
    if w1: "solo_lee w w1" for w1
    using hallada_invalida [OF c'(1)] pers lee.trans [OF w1] by (intro hace_luego_lee [OF c'(2) [OF w1]]) auto
  then have "hace (almacenarMensaje ua ub x) w1 () (guarda_conversacion ?f)" if w1: "solo_lee w w1" for w1
    unfolding almacenarMensaje_def ids
    using hallada_invalida [OF c(1)] pers lee.trans [OF w1] by (intro hace_luego_lee [OF c(2) [OF w1]]) simp
  moreover have "recibe a b x ?m (guarda_conversacion ?f ?m)"
  proof (cases "?m (clave_conversacion ?k) = None")
    case False
    then show ?thesis
      using hallada_par [OF d a b c(1) False] x
      by (simp, intro recibe_guarda [OF d a b, where ms = "mensajes c"]) simp_all
  next
    case no: True
    show ?thesis
    proof (cases "?m (clave_conversacion ?k') = None")
      case True
      then show ?thesis
        using no x es_usuario_id [OF a]
        by (simp, intro recibe_guarda [OF d a b, where ms = "[]"]) (simp_all add: charla_def)
    next
      case False
      then have "recibe b a x ?m (guarda_conversacion (agregarMensaje x c') ?m)"
        using hallada_par [OF d b a c'(1) False] x
        by (intro recibe_guarda [OF d b a, where ms = "mensajes c'"]) simp_all
      then show ?thesis using False no recibe_sim by auto
    qed
  qed
  ultimately show ?thesis by blast
qed

section \<open>Sending a message\<close>

text \<open>Parameters of a request that can be stored in a conversation.\<close>

definition peticion_mensaje :: "mg_connection \<Rightarrow> bool" where
  "peticion_mensaje conn \<longleftrightarrow> peticion_limpia conn \<and> SeparadorListaBD \<notin> set (getParametro conn keyCuerpo []) \<and>
     SeparadorListaBD \<notin> set (getParametro conn keyFecha [])"

definition mensaje_pedido :: "mg_connection \<Rightarrow> Usuario \<Rightarrow> Mensaje" where
  "mensaje_pedido conn u = Mensaje_new (getParametro conn keyCuerpo []) (usuario_id u) (getParametro conn keyFecha [])"

lemma mensaje_pedido_ok:
  assumes "es_usuario m k u" and "peticion_mensaje conn"
  shows "sin_separador (mensaje_pedido conn u)" "mensaje_limpio (mensaje_pedido conn u)"
    "limpio (mensaje_id (mensaje_pedido conn u))"
  using assms es_usuario_id [OF assms(1)] md5_caracteres [of SeparadorListaBD]
  by (auto simp: peticion_mensaje_def peticion_limpia_def parametros_def mensaje_pedido_def Mensaje_new_def sin_separador_def
      mensaje_limpio_def es_usuario_def)

lemma conversacion_enviada:
  assumes "coherente w" and a: "es_usuario (dato w) (md5 (getParametro conn keyIdUsuarioEmisor [])) ua"
    and b: "es_usuario (dato w) (md5 (getParametro conn keyIdUsuarioReceptor [])) ub"
    and "token ua = getParametro conn keyTokenSesion []" and "peticion_mensaje conn"
  shows "\<exists>f. sirve (almacenarConversacion conn) w (Some (mensaje_id (mensaje_pedido conn ua), True)) f \<and>
    recibe (usuario_id ua) (usuario_id ub) (mensaje_pedido conn ua) (dato w) (f (dato w))"
proof -
  let ?x = "mensaje_pedido conn ua"
  note x = mensaje_pedido_ok [OF a assms(5)]
  have ids: "md5 (getParametro conn keyIdUsuarioEmisor []) = usuario_id ua"
    "md5 (getParametro conn keyIdUsuarioReceptor []) = usuario_id ub" using a b by (auto simp: es_usuario_def)
  note ha = hace_encontrado [OF assms(1) es_usuario_es_encontrado [OF a]]
    and hb = hace_encontrado [OF assms(1) es_usuario_es_encontrado [OF b]]
  obtain c where c: "\<And>w1. solo_lee w w1 \<Longrightarrow> hace (almacenarMensaje ua ub ?x) w1 () (guarda_conversacion c)"
      "recibe (usuario_id ua) (usuario_id ub) ?x (dato w) (guarda_conversacion c (dato w))"
    using hace_almacenarMensaje [OF assms(1) a [unfolded ids] b [unfolded ids] x(1,2)] by blast
  have "sirve (almacenarConversacion conn) w (Some (mensaje_id ?x, True)) (guarda_conversacion c)"
    unfolding almacenarConversacion_def Let_def mensaje_pedido_def [symmetric]
    by (rule sirve_luego_lee [OF ha [OF lee.refl]], rule sirve_luego_lee [OF hb], assumption,
        rule sirve_no, use es_usuario_valido [OF a] es_usuario_valido [OF b] in simp, rule sirve_si [OF assms(4)],
        rule sirve_luego_escribe [OF c(1)], erule (1) lee.trans, rule sirve_responder' [OF x(3)])
  then show ?thesis using c(2) by blast
qed

lemma conversacion_rechazada:
  assumes "coherente w" and a: "es_usuario (dato w) (md5 (getParametro conn keyIdUsuarioEmisor [])) ua"
    and b: "es_usuario (dato w) (md5 (getParametro conn keyIdUsuarioReceptor [])) ub"
    and "token ua \<noteq> getParametro conn keyTokenSesion []"
  shows "sirve (almacenarConversacion conn) w (Some (rechazo_token ua, False)) nada"
  unfolding almacenarConversacion_def Let_def rechazo_token_def [symmetric]
  by (rule sirve_luego_lee [OF hace_encontrado [OF assms(1) es_usuario_es_encontrado [OF a] lee.refl]],
      rule sirve_luego_lee [OF hace_encontrado [OF assms(1) es_usuario_es_encontrado [OF b]]], assumption,
      rule sirve_no, use es_usuario_valido [OF a] es_usuario_valido [OF b] in simp, rule sirve_no [OF assms(4)],
      rule sirve_aviso [OF limpio_rechazo [OF a]]) simp

lemma conversacion_desconocida:
  assumes "coherente w" and "encontrado (dato w) (md5 (getParametro conn keyIdUsuarioEmisor [])) ua"
    and "encontrado (dato w) (md5 (getParametro conn keyIdUsuarioReceptor [])) ub"
    and "usuario_id ua = keyIdUsuarioNoEncontrado \<or> usuario_id ub = keyIdUsuarioNoEncontrado"
  shows "sirve (almacenarConversacion conn) w (Some (''No se pudo almacenar la conversacion porque: '' @
      (if usuario_id ua = keyIdUsuarioNoEncontrado then ''el emisor no existe.'' else []) @
      (if usuario_id ub = keyIdUsuarioNoEncontrado then '' el receptor no existe.'' else []), False)) nada"
  unfolding almacenarConversacion_def Let_def
  by (rule sirve_luego_lee [OF hace_encontrado [OF assms(1,2) lee.refl]],
      rule sirve_luego_lee [OF hace_encontrado [OF assms(1,3)]], assumption, rule sirve_si [OF assms(4)],
      rule sirve_anota [OF sirve_responder']) (simp_all add: anota_luego)

section \<open>Broadcast\<close>

text \<open>The same message from \<open>a\<close> to each of the users in turn.\<close>

fun reciben :: "string \<Rightarrow> string list \<Rightarrow> Mensaje \<Rightarrow> (string \<Rightarrow> string option) \<Rightarrow> (string \<Rightarrow> string option) \<Rightarrow> bool" where
  "reciben a [] x m m' \<longleftrightarrow> m' = m"
| "reciben a (b # bs) x m m' \<longleftrightarrow> (\<exists>m1. recibe a b x m m1 \<and> reciben a bs x m1 m')"

lemma reciben_datos:
  "reciben a bs x m m' \<Longrightarrow> datos_coherentes m \<Longrightarrow> datos_coherentes m' \<and> (\<forall>k. m' (clave_usuario k) = m (clave_usuario k))"
  by (induction bs arbitrary: m) (auto simp: recibe_def)

lemma es_usuario_cong: "\<forall>k. m' (clave_usuario k) = m (clave_usuario k) \<Longrightarrow> es_usuario m' = es_usuario m"
  by (simp add: fun_eq_iff es_usuario_def)

lemma encontrado_cong: "\<forall>k. m' (clave_usuario k) = m (clave_usuario k) \<Longrightarrow> encontrado m' = encontrado m"
  by (simp add: fun_eq_iff encontrado_def es_usuario_def)

lemma hace_enviarAContacto:
  assumes "coherente w" and a: "es_usuario (dato w) a ua" and u: "encontrado (dato w) (md5 tel) u"
    and "sin_separador x" "mensaje_limpio x"
  shows "\<exists>f. hace (enviarAContacto ua x tel) w () f \<and>
    reciben a (if usuario_id u \<noteq> keyIdUsuarioNoEncontrado \<and> conectado u then [usuario_id u] else []) x (dato w) (f (dato w))"
proof (cases "usuario_id u \<noteq> keyIdUsuarioNoEncontrado \<and> conectado u")
  case True
  then have "es_usuario (dato w) (usuario_id u) u"
    using u encontrado_invalido [OF u] by (auto simp: encontrado_def es_usuario_def)
  from hace_almacenarMensaje [OF assms(1) a this assms(4,5)] obtain c where
    c: "\<And>w1. solo_lee w w1 \<Longrightarrow> hace (almacenarMensaje ua u x) w1 () (guarda_conversacion c)"
      "recibe a (usuario_id u) x (dato w) (guarda_conversacion c (dato w))" by blast
  have "hace (enviarAContacto ua x tel) w () (guarda_conversacion c)"
    unfolding enviarAContacto_def
    using True c(1) by (intro hace_luego_lee [OF hace_encontrado [OF assms(1) u lee.refl]]) simp
  then show ?thesis using True c(2) by auto
next
  case False
  then have "hace (enviarAContacto ua x tel) w () nada"
    unfolding enviarAContacto_def
    by (intro hace_luego_lee [OF hace_encontrado [OF assms(1) u lee.refl]]) (auto simp: hace_ret)
  then show ?thesis using False by (intro exI [of _ nada]) (auto simp: nada_def)
qed

lemma reciben_append: "reciben a (bs @ cs) x m m' \<longleftrightarrow> (\<exists>m1. reciben a bs x m m1 \<and> reciben a cs x m1 m')"
  by (induction bs arbitrary: m) auto

lemma hace_difundir:
  assumes "coherente w" and "es_usuario (dato w) a ua" and "\<forall>tel. encontrado (dato w) (md5 tel) (us tel)"
    and "sin_separador x" "mensaje_limpio x"
  shows "\<exists>f. hace (para_cada (enviarAContacto ua x) tels) w (map (\<lambda>_. ()) tels) f \<and>
    reciben a (map usuario_id (conectados us tels)) x (dato w) (f (dato w))"
  using assms(1-3)
proof (induction tels arbitrary: w)
  case Nil
  show ?case
  proof (intro exI conjI)
    show "hace (para_cada (enviarAContacto ua x) []) w (map (\<lambda>_. ()) []) nada"
      unfolding para_cada.simps list.map by (rule hace_ret)
  qed (simp add: conectados_def nada_def)
next
  case (Cons tel tels)
  let ?bs = "if usuario_id (us tel) \<noteq> keyIdUsuarioNoEncontrado \<and> conectado (us tel) then [usuario_id (us tel)] else []"
  obtain f where f: "hace (enviarAContacto ua x tel) w () f" "reciben a ?bs x (dato w) (f (dato w))"
    using hace_enviarAContacto [OF Cons.prems(1,2) _ assms(4,5), of tel "us tel"] Cons.prems(3) by blast
  obtain w1 where w1: "enviarAContacto ua x tel w = Inr ((), w1)" "cambia f w w1" using f(1) by (rule haceE)
  have d: "datos_coherentes (f (dato w))" "\<forall>k. f (dato w) (clave_usuario k) = dato w (clave_usuario k)"
    using reciben_datos [OF f(2)] Cons.prems(1) by (auto simp: coherente_def)
  have dato1: "dato w1 = f (dato w)" using cambia_dato [OF w1(2)] Cons.prems(1) by (simp add: coherente_def)
  have "coherente w1" using coherente_cambia [OF Cons.prems(1) w1(2) d(1)] .
  moreover have "es_usuario (dato w1) a ua" using Cons.prems(2) es_usuario_cong [OF d(2)] by (simp add: dato1)
  moreover have "\<forall>tel. encontrado (dato w1) (md5 tel) (us tel)" using Cons.prems(3) encontrado_cong [OF d(2)] by (simp add: dato1)
  ultimately obtain g where g: "hace (para_cada (enviarAContacto ua x) tels) w1 (map (\<lambda>_. ()) tels) g"
      "reciben a (map usuario_id (conectados us tels)) x (dato w1) (g (dato w1))"
    using Cons.IH by blast
  have "hace (para_cada (enviarAContacto ua x) (tel # tels)) w (map (\<lambda>_. ()) (tel # tels)) (g \<circ> f)"
    using g(1) w1 cambia_trans [OF w1(2)] by (auto simp: hace_def luego_def)
  moreover have "map usuario_id (conectados us (tel # tels)) = ?bs @ map usuario_id (conectados us tels)"
    by (simp add: conectados_def)
  moreover have "reciben a (?bs @ map usuario_id (conectados us tels)) x (dato w) ((g \<circ> f) (dato w))"
    unfolding reciben_append comp_def using f(2) g(2) [unfolded dato1] by blast
  ultimately show ?case by metis
qed

lemma sirve_luego_en:
  assumes "m w = Inr (x, w1)" and "solo_lee w w1" and "sirve (k x) w1 r g"
  shows "sirve (luego m k) w r g"
proof (rule sirve_luego_lee)
  show "hace m w x nada" using assms(1,2) by (auto simp: hace_def)
qed (use assms in simp)

lemma difusion_enviada:
  assumes "coherente w" and tels: "bnd (getParametroArray conn keyContantosTelefono []) jsonValueToVector = Inr tels"
    and a: "es_usuario (dato w) (md5 (getParametro conn keyIdUsuarioEmisor [])) ua"
    and "token ua = getParametro conn keyTokenSesion []" and "peticion_mensaje conn"
  shows "\<exists>us f. (\<forall>tel. encontrado (dato w) (md5 tel) (us tel)) \<and>
    sirve (almacenarListaDifusion conn) w (Some (''Lista de difusion enviada correctamente'', True)) f \<and>
    reciben (usuario_id ua) (map usuario_id (conectados us tels)) (mensaje_pedido conn ua) (dato w) (f (dato w))"
proof -
  let ?x = "mensaje_pedido conn ua" and ?tel = "getParametro conn keyIdUsuarioEmisor []"
  have ida: "md5 ?tel = usuario_id ua" using a by (simp add: es_usuario_def)
  obtain us where us: "\<forall>tel. encontrado (dato w) (md5 tel) (us tel)" by (rule buscador [OF assms(1)])
  note ha = hace_encontrado [OF assms(1) es_usuario_es_encontrado [OF a] lee.refl]
  obtain w1 where w1: "obtenerPorTelefono ?tel w = Inr (ua, w1)" "solo_lee w w1" by (rule haceE [OF ha])
  have c1: "coherente w1" using coherente_lee [OF assms(1) w1(2)] .
  have dato1: "dato w1 = dato w" using assms(1) w1(2) by (simp add: coherente_def solo_lee_dato)
  obtain f where f: "hace (para_cada (enviarAContacto ua ?x) tels) w1 (map (\<lambda>_. ()) tels) f"
      "reciben (usuario_id ua) (map usuario_id (conectados us tels)) ?x (dato w) (f (dato w))"
    using hace_difundir [OF c1, unfolded dato1, OF a [unfolded ida] us mensaje_pedido_ok(1,2) [OF a assms(5)]] by blast
  have "sirve (almacenarListaDifusion conn) w (Some (''Lista de difusion enviada correctamente'', True)) f"
    unfolding almacenarListaDifusion_def Let_def tels luego_eleva mensaje_pedido_def [symmetric]
    by (rule sirve_luego_en, rule w1(1), rule w1(2), rule sirve_no [OF es_usuario_valido [OF a]], rule sirve_no,
        use assms(4) in simp, rule sirve_luego_escribe [OF f(1)], rule sirve_responder') simp
  then show ?thesis using us f(2) by blast
qed

lemma difusion_rechazada:
  assumes "coherente w" and tels: "bnd (getParametroArray conn keyContantosTelefono []) jsonValueToVector = Inr tels"
    and a: "es_usuario (dato w) (md5 (getParametro conn keyIdUsuarioEmisor [])) ua"
    and "token ua \<noteq> getParametro conn keyTokenSesion []"
  shows "sirve (almacenarListaDifusion conn) w (Some (rechazo_token ua, False)) nada"
  unfolding almacenarListaDifusion_def Let_def tels luego_eleva rechazo_token_def [symmetric]
  by (rule sirve_luego_lee [OF hace_encontrado [OF assms(1) es_usuario_es_encontrado [OF a] lee.refl]],
      rule sirve_no [OF es_usuario_valido [OF a]], rule sirve_si [OF assms(4)], rule sirve_aviso [OF limpio_rechazo [OF a]]) simp

lemma difusion_desconocida:
  assumes "coherente w" and tels: "bnd (getParametroArray conn keyContantosTelefono []) jsonValueToVector = Inr tels"
    and "dato w (clave_usuario (md5 (getParametro conn keyIdUsuarioEmisor []))) = None"
  shows "sirve (almacenarListaDifusion conn) w
    (Some (''No se pudo almacenar la lista de difusion porque el emisor no existe'', False)) nada"
  unfolding almacenarListaDifusion_def Let_def tels luego_eleva
  by (rule sirve_luego_lee [OF hace_por_telefono_no [OF assms(1,3)]], rule sirve_si, simp,
      rule sirve_anota [OF sirve_responder']) (simp_all add: anota_luego)

section \<open>The identifier of a conversation\<close>

lemma id_conversacion:
  assumes "coherente w" and a: "es_usuario (dato w) (md5 (getParametro conn keyTelefonoEmisor [])) ua"
    and b: "es_usuario (dato w) (md5 (getParametro conn keyTelefonoReceptor [])) ub"
  defines "k \<equiv> usuario_id ua @ ''-'' @ usuario_id ub" and "k' \<equiv> usuario_id ub @ ''-'' @ usuario_id ua"
  shows "sirve (obtenerIdConversacion conn) w (Some
    (if dato w (clave_conversacion k) \<noteq> None then k
     else if dato w (clave_conversacion k') \<noteq> None then k' else keyIdConversacionNoEncontrada, True)) nada"
proof -
  obtain c where c: "hallada (dato w) k c" "\<And>w1. solo_lee w w1 \<Longrightarrow> hace (Conversacion_obtener k) w1 c nada"
    using obtener_conversacion_lee [OF assms(1)] by blast
  obtain c' where c': "hallada (dato w) k' c'" "\<And>w1. solo_lee w w1 \<Longrightarrow> hace (Conversacion_obtener k') w1 c' nada"
    using obtener_conversacion_lee [OF assms(1)] by blast
  let ?c = "if dato w (clave_conversacion k) \<noteq> None then c else c'"
  let ?i = "if dato w (clave_conversacion k) \<noteq> None then k
     else if dato w (clave_conversacion k') \<noteq> None then k' else keyIdConversacionNoEncontrada"
  have h: "hace (if Conversacion_getId c = keyIdConversacionNoEncontrada then Conversacion_obtener k' else ret c) w1 ?c nada"
    if "solo_lee w w1" for w1
    using c'(2) [OF that] hallada_invalida [OF c(1)] by (auto intro: hace_ret)
  have lim: "limpio k" "limpio k'" using es_usuario_id [OF a] es_usuario_id [OF b] a b
    by (auto simp: k_def k'_def es_usuario_def)
  have gid: "Conversacion_getId d = (if dato w (clave_conversacion l) \<noteq> None then l else keyIdConversacionNoEncontrada)"
    if "hallada (dato w) l d" "l \<noteq> []" for l d
    using that by (auto simp: hallada_def Conversacion_getId_def Conversacion_invalida_def)
  have i: "Conversacion_getId ?c = ?i" using gid [OF c(1)] gid [OF c'(1)] by (simp add: k_def k'_def)
  have v: "?i \<noteq> keyIdUsuarioNoEncontrado" using guion_id(2) unfolding k_def k'_def by simp
  show ?thesis
    unfolding obtenerIdConversacion_def Let_def
    by (rule sirve_luego_lee [OF hace_encontrado [OF assms(1) es_usuario_es_encontrado [OF a] lee.refl]],
        rule sirve_luego_lee [OF hace_encontrado [OF assms(1) es_usuario_es_encontrado [OF b]]], assumption,
        rule sirve_si, use es_usuario_valido [OF a] es_usuario_valido [OF b] in simp, fold k_def k'_def,
        rule sirve_luego_lee [OF c(2)], erule (1) lee.trans, rule sirve_luego_lee [OF h],
        erule (1) lee.trans [OF lee.trans], assumption, unfold i, rule sirve_si [OF v], rule sirve_responder')
      (simp add: lim)
qed

lemma id_conversacion_desconocida:
  assumes "coherente w" and a: "encontrado (dato w) (md5 (getParametro conn keyTelefonoEmisor [])) ua"
    and b: "encontrado (dato w) (md5 (getParametro conn keyTelefonoReceptor [])) ub"
    and "usuario_id ua = keyIdUsuarioNoEncontrado \<or> usuario_id ub = keyIdUsuarioNoEncontrado"
  shows "sirve (obtenerIdConversacion conn) w
    (Some (''Usuario  no se encuentra registrado en el sistema'', False)) nada"
proof -
  have n: "nombre u = []" if "encontrado (dato w) l u" "usuario_id u = keyIdUsuarioNoEncontrado" for l u
    using that encontrado_invalido [OF that(1)] by (simp add: encontrado_def)
  have msj: "''Usuario '' @ nombre (if usuario_id ua = keyIdUsuarioNoEncontrado then ua else ub) @
      '' no se encuentra registrado en el sistema'' = ''Usuario  no se encuentra registrado en el sistema''"
    using n [OF a] n [OF b] assms(4) by auto
  show ?thesis
    unfolding obtenerIdConversacion_def Let_def
    by (rule sirve_luego_lee [OF hace_encontrado [OF assms(1) a lee.refl]],
        rule sirve_luego_lee [OF hace_encontrado [OF assms(1) b]], assumption,
        rule sirve_no, use assms(4) in blast, unfold msj, rule sirve_aviso) simp_all
qed

section \<open>Reading a conversation\<close>

text \<open>The messages after the one the client already has.\<close>

lemma posteriores_eq: "posteriores i False ms = tl (dropWhile (\<lambda>x. mensaje_id x \<noteq> i) ms)"
proof -
  have "posteriores i True ms = ms" for ms by (induction ms) simp_all
  then show ?thesis by (induction ms) simp_all
qed

definition mensajes_texto :: "Mensaje list \<Rightarrow> string" where
  "mensajes_texto ms = toStyledString (arreglo ''mensajes'' (map (\<lambda>x. JString (Mensaje_texto x)) ms))"

lemma limpio_mensaje: "mensaje_limpio x \<Longrightarrow> limpio (Mensaje_texto x)"
  unfolding Mensaje_texto_def
  by (rule limpio_registro [OF Mensaje_registro_ok]) (auto simp: Mensaje_campos_def mensaje_limpio_def limpio_def)

lemma limpio_mensajes: "\<forall>x \<in> set ms. mensaje_limpio x \<Longrightarrow> limpio (mensajes_texto ms)"
  unfolding mensajes_texto_def
  by (rule limpio_arreglo) (auto simp: escribible_numeral limpio_def [symmetric] limpio_mensaje)

lemma in_tl: "x \<in> set (tl xs) \<Longrightarrow> x \<in> set xs"
  by (cases xs) simp_all

lemma conversacion_leida:
  assumes "coherente w" and k: "getParametroIdMetodoGET conn urlBaseConversacion = Inr k"
    and e: "es_conversacion (dato w) k a b ms"
  defines "i \<equiv> getParametro conn keyIdUltimoMensaje []"
  shows "sirve (obtenerConversacion conn) w (Some (mensajes_texto
    (if i = [] then ms else tl (dropWhile (\<lambda>x. mensaje_id x \<noteq> i) ms)), True)) nada"
proof -
  obtain c where c: "hallada (dato w) k c" "hace (Conversacion_obtener k) w c nada"
    by (rule obtener_conversacion [OF assms(1)])
  have no: "dato w (clave_conversacion k) \<noteq> None" using e by (auto simp: es_conversacion_def)
  then have mc: "mensajes c = ms" using c(1) es_conversacion_unica [OF e] by (auto simp: hallada_def)
  let ?ms = "if i \<noteq> [] then posteriores i False (mensajes c) else mensajes c"
  have "set ?ms \<subseteq> set ms" using mc set_dropWhileD [of _ "\<lambda>x. mensaje_id x \<noteq> i" ms]
    by (auto simp: posteriores_eq dest: in_tl)
  then have lim: "limpio (mensajes_texto ?ms)" using e by (intro limpio_mensajes) (auto simp: es_conversacion_def)
  have ser: "mapM Mensaje_serializar ns = Inr (map Mensaje_texto ns)" for ns
    by (simp add: mensaje.serializa [abs_def] cong: mapM_cong)
  have js: "json_sets_index ''mensajes'' 0 (map (\<lambda>t _. Inr (JString t)) (map Mensaje_texto ns)) JNull =
      Inr (arreglo ''mensajes'' (map (\<lambda>x. JString (Mensaje_texto x)) ns))" for ns
    by (rule json_sets_index_JNull) (simp add: list_all2_map1 list_all2_map2 list.rel_refl)
  have "sirve (obtenerConversacion conn) w (Some (mensajes_texto ?ms, True)) nada"
    unfolding obtenerConversacion_def k luego_eleva Let_def
    by (rule sirve_luego_lee [OF c(2)], rule sirve_si, use no hallada_invalida [OF c(1)] in simp,
        unfold ser js luego_eleva mensajes_texto_def [symmetric] i_def [symmetric], rule sirve_responder' [OF lim])
  moreover have "?ms = (if i = [] then ms else tl (dropWhile (\<lambda>x. mensaje_id x \<noteq> i) ms))"
    by (simp add: mc posteriores_eq)
  ultimately show ?thesis by (simp only:)
qed

lemma conversacion_no_leida:
  assumes "coherente w" and k: "getParametroIdMetodoGET conn urlBaseConversacion = Inr k"
    and "dato w (clave_conversacion k) = None" and "limpio k"
  shows "sirve (obtenerConversacion conn) w
    (Some (''La conversacion '' @ k @ '' no se encuentra en el sistema'', False)) nada"
proof -
  obtain c where c: "hallada (dato w) k c" "hace (Conversacion_obtener k) w c nada"
    by (rule obtener_conversacion [OF assms(1)])
  show ?thesis
    unfolding obtenerConversacion_def k luego_eleva Let_def
    by (rule sirve_luego_lee [OF c(2)], rule sirve_no, use assms(3) hallada_invalida [OF c(1)] in simp,
        rule sirve_aviso) (simp_all add: assms(4))
qed

section \<open>The conversations of a user\<close>

definition resumen_campos :: "Usuario \<Rightarrow> Conversacion \<Rightarrow> (string \<times> json) list" where
  "resumen_campos u c =
     (let otro = if usuario_id (usuarios c ! 0) = usuario_id u then usuarios c ! 1 else usuarios c ! 0
      in [(''id'', JString (Conversacion_getId c)), (''ultimoMensaje'', JString (cuerpo (last (mensajes c)))),
          (''usuarioNombre'', JString (nombre otro)), (''usuarioTelefono'', JString (telefono otro)),
          (''usuarioFotoDePerfil'', JString (fotoDePerfil otro))])"

definition conversaciones_texto :: "Usuario \<Rightarrow> Conversacion list \<Rightarrow> string" where
  "conversaciones_texto u cs =
     toStyledString (arreglo ''conversaciones'' (map (\<lambda>c. JObject (objeto.poner_todos (resumen_campos u c) [])) cs))"

text \<open>A stored conversation: two users and at least one message.\<close>

definition completa :: "Conversacion \<Rightarrow> bool" where
  "completa c \<longleftrightarrow> mensajes c \<noteq> [] \<and> (\<forall>x \<in> set (mensajes c). mensaje_limpio x) \<and> limpio (Conversacion_getId c) \<and>
     (\<exists>ua ub. usuarios c = [ua, ub] \<and> usuario_limpio ua \<and> usuario_limpio ub)"

lemma hallada_completa:
  assumes "hallada m k c" and "m (clave_conversacion k) \<noteq> None"
  shows "completa c"
proof -
  obtain a b ua ub ms where c: "es_conversacion m k a b ms" "es_usuario m a ua" "es_usuario m b ub"
      "c = \<lparr>conversacion_id = k, mensajes = ms, usuarios = [ua, ub]\<rparr>"
    using assms by (auto simp: hallada_def)
  have "limpio a" "limpio b" using es_usuario_id c(2,3) by blast+
  then have "limpio k" "k \<noteq> []" using c(1) by (auto simp: es_conversacion_def)
  then show ?thesis
    using c by (simp add: completa_def Conversacion_getId_def es_usuario_def es_conversacion_def)
qed

lemma resumenConversacion_eq:
  "completa c \<Longrightarrow> resumenConversacion u c = Inr (json_sets (resumen_campos u c))"
  by (auto simp: completa_def resumenConversacion_def resumen_campos_def Let_def)

lemma resumenes_eq:
  assumes "\<forall>c \<in> set cs. completa c"
  shows "bnd (mapM (resumenConversacion u) cs) (\<lambda>fs. json_sets_index ''conversaciones'' 0 fs JNull) =
    Inr (arreglo ''conversaciones'' (map (\<lambda>c. JObject (objeto.poner_todos (resumen_campos u c) [])) cs))"
proof -
  have "mapM (resumenConversacion u) cs = Inr (map (\<lambda>c. json_sets (resumen_campos u c)) cs)"
    using assms by (induction cs) (simp_all add: resumenConversacion_eq)
  moreover have "json_sets (resumen_campos u c) JNull = Inr (JObject (objeto.poner_todos (resumen_campos u c) []))" for c
    by (rule json_sets_JNull) (simp add: resumen_campos_def Let_def)
  then have "json_sets_index ''conversaciones'' 0 (map (\<lambda>c. json_sets (resumen_campos u c)) cs) JNull =
    Inr (arreglo ''conversaciones'' (map (\<lambda>c. JObject (objeto.poner_todos (resumen_campos u c) [])) cs))"
    by (intro json_sets_index_JNull) (simp add: list_all2_map1 list_all2_map2 list.rel_refl)
  ultimately show ?thesis by simp
qed

lemma resumen_limpio:
  assumes "completa c" and "(k, v) \<in> set (resumen_campos u c)"
  shows "limpio k \<and> \<not> aparece CHR ''%'' v"
proof -
  let ?otro = "if usuario_id (usuarios c ! 0) = usuario_id u then usuarios c ! 1 else usuarios c ! 0"
  have "usuario_limpio ?otro" "mensaje_limpio (last (mensajes c))" "limpio (Conversacion_getId c)"
    using assms(1) by (auto simp: completa_def)
  then show ?thesis
    using assms(2) unfolding resumen_campos_def Let_def
    by (auto simp: usuario_limpio_def mensaje_limpio_def limpio_def simp del: if_split)
qed

lemma limpio_conversaciones:
  assumes "\<forall>c \<in> set cs. completa c"
  shows "limpio (conversaciones_texto u cs)"
  unfolding conversaciones_texto_def
proof (rule limpio_arreglo)
  have "escribible 998 (JObject (objeto.poner_todos (resumen_campos u c) []))" for c
    using objeto.inv_poner_todos [of "[]" "resumen_campos u c"] set_poner_todos [of "resumen_campos u c" "[]"]
    by (auto simp: escribible_numeral list_all_iff resumen_campos_def Let_def)
  moreover have "\<not> aparece CHR ''%'' (JObject (objeto.poner_todos (resumen_campos u c) []))" if "c \<in> set cs" for c
    using assms that resumen_limpio set_poner_todos [of "resumen_campos u c" "[]"]
    by (fastforce simp: list_ex_iff limpio_def)
  ultimately show "\<forall>v \<in> set (map (\<lambda>c. JObject (objeto.poner_todos (resumen_campos u c) [])) cs).
      escribible 998 v \<and> \<not> aparece CHR ''%'' v" by auto
qed simp_all

lemma hace_nuevas:
  assumes "coherente w" and cs: "\<And>k. hallada (dato w) k (cs k)"
    "\<And>k w1. solo_lee w w1 \<Longrightarrow> hace (Conversacion_obtener k) w1 (cs k) nada"
  shows "hace (para_cada (nuevaConversacion ids) ks) w
    (map (\<lambda>k. if k \<notin> set ids \<and> dato w (clave_conversacion k) \<noteq> None then [cs k] else []) ks) nada"
proof -
  have "hace (nuevaConversacion ids k) w1
      (if k \<notin> set ids \<and> dato w (clave_conversacion k) \<noteq> None then [cs k] else []) nada" if "solo_lee w w1" for k w1
  proof (cases "k \<in> set ids")
    case False
    then show ?thesis
      using hallada_invalida [OF cs(1), of k] unfolding nuevaConversacion_def vectorContiene_iff
      by (auto intro!: hace_luego_lee [OF cs(2) [OF that]] hace_ret hace_luego_lee [OF hace_anota])
  qed (simp add: nuevaConversacion_def vectorContiene_iff hace_ret)
  then show ?thesis
    using hace_para_cada_map [of ks w "nuevaConversacion ids" "\<lambda>k. k"] by simp
qed

lemma conversaciones_leidas:
  assumes "coherente w" and ids: "bnd (getParametroArray conn keyIdConversaciones []) jsonValueToVector = Inr ids"
    and tel: "getParametroIdMetodoGET conn urlBaseUsuarioConversaciones = Inr tel"
    and u: "es_usuario (dato w) (md5 tel) u"
  shows "\<exists>cs. (\<forall>k. hallada (dato w) k (cs k)) \<and>
    sirve (obtenerConversaciones conn) w (Some (conversaciones_texto u (map cs (filter
       (\<lambda>k. k \<notin> set ids \<and> dato w (clave_conversacion k) \<noteq> None) (indice (dato w) (usuario_id u)))), True)) nada"
proof -
  have "\<exists>c. hallada (dato w) k c \<and> (\<forall>w1. solo_lee w w1 \<longrightarrow> hace (Conversacion_obtener k) w1 c nada)" for k
    using obtener_conversacion_lee [OF assms(1), of k] by metis
  then obtain cs where cs: "\<And>k. hallada (dato w) k (cs k)"
      "\<And>k w1. solo_lee w w1 \<Longrightarrow> hace (Conversacion_obtener k) w1 (cs k) nada" by metis
  let ?i = "indice (dato w) (usuario_id u)" and ?p = "\<lambda>k. k \<notin> set ids \<and> dato w (clave_conversacion k) \<noteq> None"
  let ?cs = "map cs (filter ?p ?i)"
  have s: "bd_sana w" using assms(1) by (simp add: coherente_def)
  have hi: "hace (obtnerIdsConversaciones u) w1 ?i nada" if w1: "solo_lee w w1" for w1
    using hace_obtenerIds [OF cambia_sana [OF w1 s]] solo_lee_dato [OF w1 s] by (simp add: obtnerIdsConversaciones_def)
  have hn: "hace (para_cada (nuevaConversacion ids) ?i) w1 (map (\<lambda>k. if ?p k then [cs k] else []) ?i) nada"
    if w1: "solo_lee w w1" for w1
    using hace_nuevas [OF coherente_lee [OF assms(1) w1], of cs ids ?i] cs lee.trans [OF w1] solo_lee_dato [OF w1 s] by simp
  have cc: "concat (map (\<lambda>k. if ?p k then [cs k] else []) ks) = map cs (filter ?p ks)" for ks by (induction ks) simp_all
  have comp: "\<forall>c \<in> set ?cs. completa c" using hallada_completa [OF cs(1)] by auto
  obtain fs where fs: "mapM (resumenConversacion u) ?cs = Inr fs"
      "json_sets_index ''conversaciones'' 0 fs JNull =
         Inr (arreglo ''conversaciones'' (map (\<lambda>c. JObject (objeto.poner_todos (resumen_campos u c) [])) ?cs))"
    using resumenes_eq [OF comp, of u] by (auto simp: bnd_eq_Inr_iff)
  have "sirve (obtenerConversaciones conn) w (Some (conversaciones_texto u ?cs, True)) nada"
    unfolding obtenerConversaciones_def ids tel luego_eleva
    by (rule sirve_luego_lee [OF hace_por_telefono [OF assms(1) u]], rule sirve_si [OF es_usuario_valido [OF u]],
        rule sirve_luego_lee [OF hi], assumption, rule sirve_luego_lee [OF hn], erule (1) lee.trans,
        unfold cc fs luego_eleva conversaciones_texto_def [symmetric],
        rule sirve_responder' [OF limpio_conversaciones [OF comp]])
  then show ?thesis using cs(1) by blast
qed

lemma conversaciones_desconocido:
  assumes "coherente w" and ids: "bnd (getParametroArray conn keyIdConversaciones []) jsonValueToVector = Inr ids"
    and tel: "getParametroIdMetodoGET conn urlBaseUsuarioConversaciones = Inr tel"
    and "dato w (clave_usuario (md5 tel)) = None"
  shows "sirve (obtenerConversaciones conn) w None nada"
  unfolding obtenerConversaciones_def ids tel luego_eleva
  by (rule sirve_luego_lee [OF hace_por_telefono_no [OF assms(1,4)]], rule sirve_no, simp, rule sirve_hace, rule hace_anota) simp

end
