(* ===== verification/Sistema.thy ===== *)
theory Sistema
  imports Servicio_Conversaciones
begin

text \<open>
  The server as a whole: every request it can read is served, and the invariant of the stored data
  holds in every state the server reaches.
\<close>

section \<open>Requests the server can serve\<close>

definition es_arreglo :: "mg_connection \<Rightarrow> string \<Rightarrow> bool" where
  "es_arreglo conn n \<longleftrightarrow>
     (case bnd (getParametroArray conn n []) jsonValueToVector of Inr _ \<Rightarrow> True | Inl _ \<Rightarrow> False)"

text \<open>
  No \<open>%\<close> in what is stored or answered (\<open>responder\<close> uses its text as a format), no separator in the
  message, a URI that fits the buffer of \<open>getParametroIdMetodoGET\<close>, and arrays where arrays are read.
\<close>

definition admisible :: "mg_connection \<Rightarrow> bool" where
  "admisible conn \<longleftrightarrow> peticion_mensaje conn \<and> limpio (uri conn) \<and> length (uri conn) < 255 \<and>
     es_arreglo conn keyContantosTelefono \<and> es_arreglo conn keyIdConversaciones"

lemma admisible_arreglo:
  assumes "es_arreglo conn n"
  obtains vs where "bnd (getParametroArray conn n []) jsonValueToVector = Inr vs"
  using assms by (auto simp: es_arreglo_def split: sum.splits)

lemma admisible_id:
  assumes "admisible conn"
  obtains t where "getParametroIdMetodoGET conn base = Inr t" and "limpio t"
proof -
  let ?t = "takeWhile (\<lambda>c. \<not> isspace c) (dropWhile isspace (drop (length base) (uri conn)))"
  have "length ?t \<le> length (uri conn)"
    using length_takeWhile_le [of "\<lambda>c. \<not> isspace c" "dropWhile isspace (drop (length base) (uri conn))"]
      length_dropWhile_le [of isspace "drop (length base) (uri conn)"] by simp
  moreover have "set ?t \<subseteq> set (uri conn)"
    by (auto dest!: set_takeWhileD set_dropWhileD in_set_dropD)
  ultimately have "length ?t < 255" "limpio ?t" using assms by (auto simp: admisible_def limpio_def)
  then show ?thesis
    using that by (cases "sscanf_s base (uri conn)")
      (auto simp: getParametroIdMetodoGET_def sscanf_s_def Let_def split: if_splits)
qed

section \<open>Every service answers and keeps the invariant\<close>

definition atiende :: "unit accion \<Rightarrow> mundo \<Rightarrow> bool" where
  "atiende m w \<longleftrightarrow> (\<exists>w'. m w = Inr ((), w') \<and> coherente w')"

lemma coherente_salida [simp]: "coherente (w\<lparr>salida := e\<rparr>) = coherente w"
  by (simp add: coherente_def bd_sana_def dato_def)

lemma sirve_atiende: "sirve m w r f \<Longrightarrow> coherente w \<Longrightarrow> datos_coherentes (f (dato w)) \<Longrightarrow> atiende m w"
  unfolding sirve_def atiende_def using coherente_cambia coherente_salida by blast

lemma sirve_lee: "sirve m w r nada \<Longrightarrow> coherente w \<Longrightarrow> atiende m w"
  by (erule sirve_atiende) (simp_all add: coherente_def nada_def)

text \<open>The two cases of every lookup.\<close>

lemma buscar_usuario:
  assumes "coherente w"
  obtains "dato w (clave_usuario k) = None" | u where "es_usuario (dato w) k u"
  using assms usuario_registrado [of "dato w" k] by (auto simp: coherente_def)

lemma sirve_usuario:
  assumes "coherente w" and "es_usuario (dato w) k u"
    and "sirve m w r (\<lambda>d. d(clave_usuario (usuario_id u) \<mapsto> Usuario_texto v))"
    and "usuario_id v = usuario_id u" "telefono v = telefono u" "usuario_limpio v"
  shows "atiende m w"
  using sirve_atiende [OF assms(3,1)] datos_usuario [of "dato w" v] assms by (auto simp: coherente_def es_usuario_def)

lemma registrarUsuario_atiende:
  assumes w: "coherente w" and c: "admisible conn"
  shows "atiende (registrarUsuario conn) w"
proof (cases rule: buscar_usuario [OF w, of "md5 (getParametro conn keyTelefono [])"])
  case 1
  from registrar_nuevo [OF w 1] obtain t where t: "limpio t"
    "sirve (registrarUsuario conn) w (Some (''Usuario registrado correctamente'', True))
      (\<lambda>m. m(clave_usuario (md5 (getParametro conn keyTelefono [])) \<mapsto> Usuario_texto (usuario_nuevo conn t)))" by blast
  have "usuario_limpio (usuario_nuevo conn t)"
    using c t(1) by (simp add: admisible_def peticion_mensaje_def peticion_limpia_def parametros_def usuario_nuevo_def
        usuario_limpio_def)
  then have "datos_coherentes ((dato w)(clave_usuario (usuario_id (usuario_nuevo conn t)) \<mapsto> Usuario_texto (usuario_nuevo conn t)))"
    using w by (intro datos_usuario) (simp_all add: coherente_def usuario_nuevo_def)
  then show ?thesis by (intro sirve_atiende [OF t(2) w]) (simp add: usuario_nuevo_def)
qed (use sirve_lee [OF registrar_existente [OF w] w] in blast)

lemma administrarPerfil_atiende:
  assumes w: "coherente w" and c: "admisible conn"
  shows "atiende (administrarPerfil conn) w"
proof (cases rule: buscar_usuario [OF w, of "md5 (getParametro conn keyTelefono [])"])
  case (2 u)
  have l: "peticion_limpia conn" using c by (simp add: admisible_def peticion_mensaje_def)
  then have "usuario_limpio (perfil_nuevo conn u)"
    using 2 by (auto simp: es_usuario_def usuario_limpio_def perfil_nuevo_def peticion_limpia_def parametros_def)
  then show ?thesis
    using sirve_usuario [OF w 2 perfil_autorizado [OF w l 2]] sirve_lee [OF perfil_rechazado [OF w 2] w]
    by (cases "token u = getParametro conn keyTokenSesion []") (auto simp: perfil_nuevo_def)
qed (use sirve_lee [OF perfil_desconocido [OF w] w] in blast)

lemma consultarUsuarioOnline_atiende:
  assumes w: "coherente w" and c: "admisible conn"
  shows "atiende (consultarUsuarioOnline conn) w"
proof -
  obtain t where t: "getParametroIdMetodoGET conn urlBaseUsuario = Inr t" by (rule admisible_id [OF c])
  have l: "peticion_limpia conn" using c by (simp add: admisible_def peticion_mensaje_def)
  show ?thesis
  proof (cases rule: buscar_usuario [OF w, of "md5 t"])
    case 1
    then show ?thesis using sirve_lee [OF consulta_desconocido [OF w t l] w] by blast
  next
    case (2 u)
    then show ?thesis
      using consulta_registrado [OF w t 2] sirve_usuario [OF w 2]
      by (auto simp: Let_def es_usuario_def)
  qed
qed

lemma checkIn_atiende:
  assumes w: "coherente w"
  shows "atiende (checkIn conn) w"
proof (cases rule: buscar_usuario [OF w, of "md5 (getParametro conn keyTelefono [])"])
  case (2 u)
  obtain l t where l: "limpio l" "limpio t" "sirve (checkIn conn) w (Some (l @ '' '' @ t, True))
      (\<lambda>m. m(clave_usuario (usuario_id u) \<mapsto> Usuario_texto (u\<lparr>localizacion := l @ '' '' @ t\<rparr>)))"
    using checkIn_registrado [OF w 2] by blast
  show ?thesis using 2 l(1,2) by (intro sirve_usuario [OF w 2 l(3)]) (auto simp: es_usuario_def usuario_limpio_def)
qed (use sirve_lee [OF checkIn_desconocido [OF w] w] in blast)

lemma obtenerContactos_atiende:
  assumes w: "coherente w" and c: "admisible conn"
  shows "atiende (obtenerContactos conn) w"
proof -
  obtain tels where "bnd (getParametroArray conn keyContantosTelefono []) jsonValueToVector = Inr tels"
    using c by (auto simp: admisible_def elim: admisible_arreglo)
  from contactos_servicio [OF w this] show ?thesis using sirve_lee [OF _ w] by blast
qed

lemma almacenarConversacion_atiende:
  assumes w: "coherente w" and c: "admisible conn"
  shows "atiende (almacenarConversacion conn) w"
proof -
  have p: "peticion_mensaje conn" using c by (simp add: admisible_def)
  obtain ua where ua: "encontrado (dato w) (md5 (getParametro conn keyIdUsuarioEmisor [])) ua"
    by (rule obtener_por_telefono [OF w])
  obtain ub where ub: "encontrado (dato w) (md5 (getParametro conn keyIdUsuarioReceptor [])) ub"
    by (rule obtener_por_telefono [OF w])
  show ?thesis
  proof (cases "usuario_id ua = keyIdUsuarioNoEncontrado \<or> usuario_id ub = keyIdUsuarioNoEncontrado")
    case True
    then show ?thesis by (rule sirve_lee [OF conversacion_desconocida [OF w ua ub] w])
  next
    case False
    then have a: "es_usuario (dato w) (md5 (getParametro conn keyIdUsuarioEmisor [])) ua"
      and b: "es_usuario (dato w) (md5 (getParametro conn keyIdUsuarioReceptor [])) ub"
      using ua ub by (auto simp: encontrado_def split: if_splits)
    show ?thesis
    proof (cases "token ua = getParametro conn keyTokenSesion []")
      case True
      then show ?thesis
        using conversacion_enviada [OF w a b _ p] sirve_atiende [OF _ w] unfolding recibe_def by blast
    qed (rule sirve_lee [OF conversacion_rechazada [OF w a b] w])
  qed
qed

lemma almacenarListaDifusion_atiende:
  assumes w: "coherente w" and c: "admisible conn"
  shows "atiende (almacenarListaDifusion conn) w"
proof -
  have p: "peticion_mensaje conn" using c by (simp add: admisible_def)
  obtain tels where tels: "bnd (getParametroArray conn keyContantosTelefono []) jsonValueToVector = Inr tels"
    using c by (auto simp: admisible_def elim: admisible_arreglo)
  have d: "datos_coherentes (dato w)" using w by (simp add: coherente_def)
  show ?thesis
  proof (cases rule: buscar_usuario [OF w, of "md5 (getParametro conn keyIdUsuarioEmisor [])"])
    case 1
    then show ?thesis using sirve_lee [OF difusion_desconocida [OF w tels] w] by blast
  next
    case (2 u)
    show ?thesis
    proof (cases "token u = getParametro conn keyTokenSesion []")
      case True
      then show ?thesis
        using difusion_enviada [OF w tels 2 _ p] sirve_atiende [OF _ w] reciben_datos [OF _ d] by blast
    qed (rule sirve_lee [OF difusion_rechazada [OF w tels 2] w])
  qed
qed

lemma obtenerIdConversacion_atiende:
  assumes w: "coherente w"
  shows "atiende (obtenerIdConversacion conn) w"
proof -
  obtain ua where ua: "encontrado (dato w) (md5 (getParametro conn keyTelefonoEmisor [])) ua"
    by (rule obtener_por_telefono [OF w])
  obtain ub where ub: "encontrado (dato w) (md5 (getParametro conn keyTelefonoReceptor [])) ub"
    by (rule obtener_por_telefono [OF w])
  show ?thesis
  proof (cases "usuario_id ua = keyIdUsuarioNoEncontrado \<or> usuario_id ub = keyIdUsuarioNoEncontrado")
    case True
    then show ?thesis by (rule sirve_lee [OF id_conversacion_desconocida [OF w ua ub] w])
  next
    case False
    then have "es_usuario (dato w) (md5 (getParametro conn keyTelefonoEmisor [])) ua"
      and "es_usuario (dato w) (md5 (getParametro conn keyTelefonoReceptor [])) ub"
      using ua ub by (auto simp: encontrado_def split: if_splits)
    then show ?thesis by (rule sirve_lee [OF id_conversacion [OF w] w])
  qed
qed

lemma obtenerConversacion_atiende:
  assumes w: "coherente w" and c: "admisible conn"
  shows "atiende (obtenerConversacion conn) w"
proof -
  obtain k where k: "getParametroIdMetodoGET conn urlBaseConversacion = Inr k" "limpio k" by (rule admisible_id [OF c])
  show ?thesis
  proof (cases "dato w (clave_conversacion k) = None")
    case True
    then show ?thesis using sirve_lee [OF conversacion_no_leida [OF w k(1) _ k(2)] w] by blast
  next
    case False
    then obtain a b ms where "es_conversacion (dato w) k a b ms"
      using w unfolding coherente_def datos_coherentes_def conversaciones_coherentes_def by blast
    then show ?thesis by (rule sirve_lee [OF conversacion_leida [OF w k(1)] w])
  qed
qed

lemma obtenerConversaciones_atiende:
  assumes w: "coherente w" and c: "admisible conn"
  shows "atiende (obtenerConversaciones conn) w"
proof -
  obtain t where t: "getParametroIdMetodoGET conn urlBaseUsuarioConversaciones = Inr t" by (rule admisible_id [OF c])
  obtain ids where ids: "bnd (getParametroArray conn keyIdConversaciones []) jsonValueToVector = Inr ids"
    using c by (auto simp: admisible_def elim: admisible_arreglo)
  show ?thesis
  proof (cases rule: buscar_usuario [OF w, of "md5 t"])
    case 1
    then show ?thesis using sirve_lee [OF conversaciones_desconocido [OF w ids t] w] by blast
  next
    case (2 u)
    then show ?thesis using conversaciones_leidas [OF w ids t 2] sirve_lee [OF _ w] by blast
  qed
qed

lemmas servicios_atienden = registrarUsuario_atiende administrarPerfil_atiende consultarUsuarioOnline_atiende
  checkIn_atiende obtenerContactos_atiende almacenarConversacion_atiende almacenarListaDifusion_atiende
  obtenerIdConversacion_atiende obtenerConversacion_atiende obtenerConversaciones_atiende

lemma coherente_consola [simp]: "coherente (w\<lparr>consola := t\<rparr>) = coherente w"
  by (simp add: coherente_def bd_sana_def dato_def)

lemma administrarServicio_atiende:
  assumes "coherente w" and "admisible conn"
  shows "atiende (administrarServicio conn) w"
proof (cases "parsearURI conn")
  case PRUEBA
  then show ?thesis using assms by (simp add: administrarServicio_def atiende_def prueba_def)
next
  case INVALIDO
  have "mg_printf_data ''Servicio no encontrado'' w = Inr ((), w\<lparr>salida := enviar (ns_avprintf 8192 ''Servicio no encontrado'') (salida w)\<rparr>)"
    by (rule mg_printf_data_run) simp_all
  then show ?thesis using assms INVALIDO by (simp add: administrarServicio_def atiende_def)
qed (use assms servicios_atienden in \<open>simp_all add: administrarServicio_def, simp_all add: atiende_def\<close>)

section \<open>The states the server reaches\<close>

text \<open>One event of the web server, on a connection that has not been answered yet.\<close>

inductive paso :: "mundo \<Rightarrow> mundo \<Rightarrow> bool" where
  evento: "admisible conn \<Longrightarrow> ev_handler conn ev (w\<lparr>salida := envio_nuevo\<rparr>) = Inr (r, w') \<Longrightarrow> paso w w'"

inductive_cases pasoE: "paso w w'"

lemma ev_handler_atiende:
  assumes "coherente w" and "admisible conn"
  shows "\<exists>r w'. ev_handler conn ev (w\<lparr>salida := envio_nuevo\<rparr>) = Inr (r, w') \<and> coherente w'"
proof -
  obtain w' where "administrarServicio conn (w\<lparr>salida := envio_nuevo\<rparr>) = Inr ((), w')" "coherente w'"
    using administrarServicio_atiende [of "w\<lparr>salida := envio_nuevo\<rparr>" conn] assms by (auto simp: atiende_def)
  then show ?thesis using assms(1) by (simp add: ev_handler_def luego_def)
qed

lemma paso_coherente: "paso w w' \<Longrightarrow> coherente w \<Longrightarrow> coherente w'"
  by (erule pasoE) (metis ev_handler_atiende Inr_inject prod.inject)

lemma pasos_coherente: "paso\<^sup>*\<^sup>* w w' \<Longrightarrow> coherente w \<Longrightarrow> coherente w'"
  by (induction rule: rtranclp_induct) (auto intro: paso_coherente)

text \<open>The start: the data is what an earlier run left, and the file of places is missing or is well formed.\<close>

definition archivo_ok :: "string option \<Rightarrow> bool" where
  "archivo_ok archivo \<longleftrightarrow> (case archivo of None \<Rightarrow> True | Some t \<Rightarrow>
     (\<exists>ls. parse (takeWhile (\<lambda>c. c \<noteq> CHR 0xFF) t) (JArray []) = Inr (True, ls) \<and> lugares_coherentes ls))"

lemma main_inicio_coherente:
  assumes "coherente w" and "lugares w = JArray []" and "archivo_ok archivo"
  shows "\<exists>w'. main_inicio archivo w = Inr ((), w') \<and> coherente w'"
proof -
  have path: "coherente (w\<lparr>bd_path := p\<rparr>)" "coherente (w\<lparr>bd_path := p, lugares := ls\<rparr>)" if "lugares_coherentes ls" for p ls
    using assms(1) that by (simp_all add: coherente_def bd_sana_def dato_def)
  show ?thesis
  proof (cases archivo)
    case None
    have c: "coherente (w\<lparr>bd_path := path_BaseDeDatos\<rparr>)" using assms(1) by (simp add: coherente_def bd_sana_def dato_def)
    have "hace (Loger_warn (''No se pudo abrir el archivo: '' @ ''Lugares.txt'')) (w\<lparr>bd_path := path_BaseDeDatos\<rparr>) () nada"
      by (rule hace_anota) simp
    then obtain w' where "Loger_warn (''No se pudo abrir el archivo: '' @ ''Lugares.txt'') (w\<lparr>bd_path := path_BaseDeDatos\<rparr>) = Inr ((), w')"
      "solo_lee (w\<lparr>bd_path := path_BaseDeDatos\<rparr>) w'" by (rule haceE)
    then show ?thesis
      using None coherente_lee [OF c] by (simp add: main_inicio_def cargarLugares_def setPath_def luego_def)
  next
    case (Some t)
    then show ?thesis
      using assms(2,3) path by (auto simp: archivo_ok_def main_inicio_def cargarLugares_def setPath_def luego_def)
  qed
qed

section \<open>Examples\<close>

text \<open>A server whose database holds the given data, and a request.\<close>

definition mundo_con :: "(string \<Rightarrow> string option) \<Rightarrow> mundo" where
  "mundo_con m = mundo_ejemplo\<lparr>bd := DBImpl_nueva\<lparr>archivos := m\<rparr>\<rparr>"

definition pedido :: "string \<Rightarrow> string \<Rightarrow> (string \<times> string) list \<Rightarrow> mg_connection" where
  "pedido metodo u kvs = \<lparr>request_method = metodo, uri = u, http_version = ''1.1'', query_string = None,
     http_headers = [], content = form_encode kvs, request_status = 0\<rparr>"

lemma mundo_con_dato [simp]: "dato (mundo_con m) = m" "bd_sana (mundo_con m)" "lugares (mundo_con m) = JArray []"
proof -
  have "contenido (DBImpl_nueva\<lparr>archivos := m\<rparr>) = m" and "sano (DBImpl_nueva\<lparr>archivos := m\<rparr>)"
    by (simp_all add: contenido_def fun_eq_iff nueva_def DBImpl_nueva_def MemTable_vacia_def
        sano_def rocksdb_ok_def mem_ok_def ordenada_def)
  then show "dato (mundo_con m) = m" "bd_sana (mundo_con m)" "lugares (mundo_con m) = JArray []"
    by (auto simp: mundo_con_def mundo_ejemplo_def mundo_inicial_def bd_sana_def dato_def)
qed

lemma coherente_mundo_con: "datos_coherentes m \<Longrightarrow> coherente (mundo_con m)"
  by (simp add: coherente_def lugares_coherentes_def)

lemma datos_vacios: "datos_coherentes Map.empty"
  by (simp add: datos_coherentes_def usuarios_coherentes_def conversaciones_coherentes_def indices_coherentes_def
      pares_unicos_def indice_def indice_ok_def texto_indice_def split_single)

definition usuario_de_ejemplo :: "string \<Rightarrow> Usuario" where
  "usuario_de_ejemplo tel =
     Usuario_vacio\<lparr>usuario_id := md5 tel, telefono := tel, nombre := ''Ana'', conectado := True, token := ''abc''\<rparr>"

definition datos_ejemplo :: "string \<Rightarrow> string option" where
  "datos_ejemplo = [clave_usuario (md5 ''11'') \<mapsto> Usuario_texto (usuario_de_ejemplo ''11''),
     clave_usuario (md5 ''22'') \<mapsto> Usuario_texto (usuario_de_ejemplo ''22'')]"

lemma usuario_de_ejemplo_simps [simp]:
  "usuario_id (usuario_de_ejemplo tel) = md5 tel" "telefono (usuario_de_ejemplo tel) = tel"
  "token (usuario_de_ejemplo tel) = ''abc''" "nombre (usuario_de_ejemplo tel) = ''Ana''" "conectado (usuario_de_ejemplo tel)"
  "usuario_limpio (usuario_de_ejemplo tel) = limpio tel"
  by (simp_all add: usuario_de_ejemplo_def usuario_limpio_def Usuario_vacio_def)

lemma coherente_ejemplo: "coherente (mundo_con datos_ejemplo)"
proof (rule coherente_mundo_con)
  show "datos_coherentes datos_ejemplo"
    using datos_usuario [OF datos_usuario [OF datos_vacios, of "usuario_de_ejemplo ''11''"], of "usuario_de_ejemplo ''22''"]
    by (simp add: datos_ejemplo_def)
qed

lemma usuarios_ejemplo:
  obtains ua where "es_usuario datos_ejemplo (md5 ''11'') ua" and "token ua = ''abc''" and "conectado ua" and "nombre ua = ''Ana''"
    and "es_usuario datos_ejemplo (md5 ''22'') (usuario_de_ejemplo ''22'')"
proof (cases "md5 ''11'' = md5 ''22''")
  case True
  then show ?thesis using that [of "usuario_de_ejemplo ''22''"] by (simp add: es_usuario_def datos_ejemplo_def)
next
  case False
  then show ?thesis using that [of "usuario_de_ejemplo ''11''"] by (simp add: es_usuario_def datos_ejemplo_def)
qed

text \<open>The parameters of such a request, where they are computed.\<close>

definition valor_pedido :: "(string \<times> string) list \<Rightarrow> string \<Rightarrow> string" where
  "valor_pedido kvs n = (case primera n kvs of None \<Rightarrow> [] | Some (k, v) \<Rightarrow> v)"

definition pedido_ok :: "(string \<times> string) list \<Rightarrow> bool" where
  "pedido_ok kvs \<longleftrightarrow> list_all (\<lambda>(k, v). nombre_ok k \<and> NUL \<notin> set v \<and> length v < 100) kvs"

lemma getParametro_pedido:
  assumes "pedido_ok kvs" and "nombre_ok n"
  shows "getParametro (pedido metodo u kvs) n [] = valor_pedido kvs n"
proof -
  have "\<forall>(k, v) \<in> set kvs. nombre_ok k \<and> length v < tamanioBuffer"
    using assms(1) by (fastforce simp: pedido_ok_def tamanioBuffer_def list_all_iff)
  from get_var_form [OF assms(2) this] have
    g: "mg_get_var (pedido metodo u kvs) n tamanioBuffer =
      (case primera n kvs of None \<Rightarrow> (- 1, []) | Some (k, v) \<Rightarrow> (int (length v), v))"
    by (simp add: mg_get_var_def get_var_def pedido_def tamanioBuffer_def)
  have "(k, v) \<in> set kvs" if "primera n kvs = Some (k, v)" for k v
    using that unfolding primera_def by (metis find_Some_iff nth_mem)
  then have "NUL \<notin> set v" if "primera n kvs = Some (k, v)" for k v
    using assms(1) that by (fastforce simp: pedido_ok_def list_all_iff)
  then show ?thesis
    unfolding getParametro_def g valor_pedido_def by (auto simp: c_str_def split: option.splits)
qed

definition admisible_calculo :: "string \<Rightarrow> (string \<times> string) list \<Rightarrow> bool" where
  "admisible_calculo u kvs \<longleftrightarrow> pedido_ok kvs \<and> list_all (\<lambda>n. limpio (valor_pedido kvs n)) parametros \<and>
     SeparadorListaBD \<notin> set (valor_pedido kvs keyCuerpo) \<and> SeparadorListaBD \<notin> set (valor_pedido kvs keyFecha) \<and>
     limpio u \<and> length u < 255 \<and>
     list_all (\<lambda>n. (case bnd (bnd (parse (valor_pedido kvs n) JNull) (\<lambda>(ok, v). Inr v)) jsonValueToVector of
        Inr _ \<Rightarrow> True | Inl _ \<Rightarrow> False)) [keyContantosTelefono, keyIdConversaciones]"

lemma admisible_pedido: "admisible_calculo u kvs \<Longrightarrow> admisible (pedido metodo u kvs)"
  using getParametro_pedido [of kvs _ metodo u]
  by (simp add: admisible_calculo_def admisible_def peticion_mensaje_def peticion_limpia_def parametros_def
      es_arreglo_def getParametroArray_def nombre_ok_def) (simp add: pedido_def)

lemma limpia_pedido:
  "pedido_ok kvs \<and> list_all (\<lambda>n. limpio (valor_pedido kvs n)) parametros \<Longrightarrow> peticion_limpia (pedido metodo u kvs)"
  using getParametro_pedido [of kvs _ metodo u] by (simp add: peticion_limpia_def parametros_def nombre_ok_def)

lemma parametro_pedido:
  "pedido_ok kvs \<and> nombre_ok n \<and> valor_pedido kvs n = v \<Longrightarrow> getParametro (pedido metodo u kvs) n [] = v"
  using getParametro_pedido by blast

end
