(* ===== verification/Defectos.thy ===== *)
theory Defectos
  imports Sistema "HOL-Library.Sublist"
begin

text \<open>
  Requests the server does not serve as it means to: what happens outside the hypotheses of the
  invariant (a separator in a message, a conversion in an answer, an object where an array is read),
  and answers that are not the intended ones.
\<close>

section \<open>What the writer has written stays\<close>

definition crece :: "StyledWriter \<Rightarrow> StyledWriter \<Rightarrow> bool" where
  "crece w w' \<longleftrightarrow> prefix (document w) (document w')"

lemma crece_trans: "crece w w' \<Longrightarrow> crece w' w'' \<Longrightarrow> crece w w''"
  by (auto simp: crece_def intro: prefix_order.trans)

lemma crece_refl: "crece w w"
  by (simp add: crece_def)

lemma crece_pasos:
  assumes "crece w w'"
  shows "crece w (emitir s w')" "crece w (writeWithIndent s w')" "crece w (unindent w')"
proof -
  have "crece w' (emitir s w')" "crece w' (writeWithIndent s w')" "crece w' (unindent w')"
    by (simp_all add: crece_def emitir_def writeWithIndent_def writeIndent_def unindent_def)
  then show "crece w (emitir s w')" "crece w (writeWithIndent s w')" "crece w (unindent w')"
    using assms crece_trans by blast+
qed

lemmas crece_intros = crece_refl crece_pasos

lemma writeMembers_crece:
  "list_all (\<lambda>(k, v). \<exists>s. v = JString s) ms \<Longrightarrow> \<not> addChildValues w \<Longrightarrow> crece w (writeMembers ms w)"
proof (induction ms arbitrary: w)
  case (Cons kv ms)
  obtain k s where kv: "kv = (k, JString s)" using Cons.prems(1) by (cases kv) auto
  let ?w = "emitir (valueToQuotedStringN s) (emitir '' : '' (writeWithIndent (valueToQuotedString k) w))"
  have w: "crece w ?w" "crece ?w (emitir '','' ?w)" by (intro crece_intros)+
  have "\<not> addChildValues (emitir '','' ?w)" using Cons.prems(2) by (simp add: emitir_def writeWithIndent_def writeIndent_def)
  then have ih: "crece (emitir '','' ?w) (writeMembers ms (emitir '','' ?w))" using Cons.prems(1) by (intro Cons.IH) simp_all
  have e: "writeMembers (kv # ms) w = (if ms = [] then ?w else writeMembers ms (emitir '','' ?w))"
    using Cons.prems(2) by (simp add: kv pushValue_def emitir_def writeWithIndent_def writeIndent_def)
  have "crece w (writeMembers ms (emitir '','' ?w))" by (rule crece_trans [OF w(1) crece_trans [OF w(2) ih]])
  then show ?case using w(1) unfolding e by (simp only: if_split simp_thms)
qed (simp add: crece_refl)

lemma toStyledString_prefijo:
  assumes "list_all (\<lambda>(k, v). \<exists>s. v = JString s) ms"
  obtains t where "toStyledString (JObject ((k, JString s) # ms)) =
    ''{'' @ [LF] @ ''   '' @ valueToQuotedString k @ '' : '' @ valueToQuotedStringN s @ t"
proof -
  let ?ini = "\<lparr>document = [], indentString = [], childValues = [], addChildValues = False\<rparr>"
  let ?abre = "indent (writeWithIndent ''{'' ?ini)"
  let ?par = "emitir (valueToQuotedStringN s) (emitir '' : '' (writeWithIndent (valueToQuotedString k) ?abre))"
  have w1: "document ?par = ''{'' @ [LF] @ ''   '' @ valueToQuotedString k @ '' : '' @ valueToQuotedStringN s"
    by (simp add: emitir_def writeWithIndent_def writeIndent_def indent_def indentSize_def numeral_eq_Suc)
  have "\<not> addChildValues (emitir '','' ?par)" by (simp add: emitir_def writeWithIndent_def writeIndent_def indent_def)
  then have "crece ?par (writeMembers ms (emitir '','' ?par))"
    by (intro crece_trans [OF crece_pasos(1) [OF crece_refl] writeMembers_crece [OF assms]])
  moreover have "writeMembers ((k, JString s) # ms) ?abre = (if ms = [] then ?par else writeMembers ms (emitir '','' ?par))"
    by (simp add: pushValue_def emitir_def writeWithIndent_def writeIndent_def indent_def)
  ultimately have "crece ?par (writeMembers ((k, JString s) # ms) ?abre)" by (simp add: crece_refl)
  then have "crece ?par (emitir [LF] (writeValue (JObject ((k, JString s) # ms)) ?ini))"
    by (simp add: crece_pasos del: writeMembers.simps)
  then show ?thesis
    using that unfolding crece_def w1 toStyledString_def StyledWriter_write_def by (auto simp: prefix_def)
qed

section \<open>An answer is used as a format\<close>

lemma escapar_percent: "CHR ''%'' \<in> set (escapar c) \<longleftrightarrow> c = CHR ''%''" "escapar CHR ''%'' = ''%''"
  "escapar c \<noteq> []" "c \<noteq> CHR ''%'' \<Longrightarrow> hd (escapar c) \<noteq> CHR ''%''"
proof -
  show p: "escapar CHR ''%'' = ''%''" by code_simp
  have "ajeno CHR ''%'' (\<lambda>c. c = CHR ''%'')" by (rule ajeno_literal) code_simp
  then show "CHR ''%'' \<in> set (escapar c) \<longleftrightarrow> c = CHR ''%''" using p by (auto simp: ajeno_def)
  then show "c \<noteq> CHR ''%'' \<Longrightarrow> hd (escapar c) \<noteq> CHR ''%''" by (auto simp: escapar_def)
  show "escapar c \<noteq> []" by (simp add: escapar_def)
qed

lemma responder_conversion:
  assumes "CHR ''%'' \<notin> set a" and "b = [] \<or> hd b \<noteq> CHR ''%''"
  shows "responder (a @ CHR ''%'' # b) ok w = Inl (Indefinido ''conversion without argument'')"
proof -
  let ?m = "a @ CHR ''%'' # b"
  obtain t where t: "texto_respuesta ?m ok = ''{'' @ [LF] @ ''   '' @ valueToQuotedString keyPayload @ '' : '' @ valueToQuotedStringN ?m @ t"
    unfolding texto_respuesta_def
    by (rule toStyledString_prefijo [of "[(keySuccess, JString (toString ok))]" keyPayload ?m]) (simp, blast)
  define pre where "pre = ''{'' @ [LF] @ ''   '' @ valueToQuotedString keyPayload @ '' : '' @ DQ # concat (map escapar a)"
  define pos where "pos = concat (map escapar b) @ DQ # t"
  have 1: "texto_respuesta ?m ok = pre @ CHR ''%'' # pos"
    by (simp add: t pre_def pos_def valueToQuotedStringN_eq escapar_percent)
  have "valueToQuotedString keyPayload = DQ # keyPayload @ [DQ]" by code_simp
  then have 2: "CHR ''%'' \<notin> set pre" using assms(1) by (auto simp: pre_def escapar_percent)
  have "hd pos \<noteq> CHR ''%''" using assms(2) escapar_percent(3,4) by (cases b) (auto simp: pos_def hd_append)
  moreover have "pos \<noteq> []" by (simp add: pos_def)
  ultimately obtain d p where "pos = d # p" "d \<noteq> CHR ''%''" by (cases pos) auto
  then have "vsnprintf_sin_args (texto_respuesta ?m ok) = Inl (Indefinido ''conversion without argument'')"
    unfolding 1 using vsnprintf_conversion [OF 2] by blast
  moreover have "NUL \<notin> set (texto_respuesta ?m ok)" by (rule texto_respuesta_limpio(2))
  ultimately show ?thesis
    by (simp add: responder_json mg_printf_data_def luego_def terminate_headers_run)
qed

section \<open>A message with the separator\<close>

definition inicio_mensaje :: string where
  "inicio_mensaje = ''{'' @ [LF] @ ''   '' @ [DQ] @ keyCuerpo @ [DQ] @ '' : '' @ [DQ]"

lemma Mensaje_texto_cuerpo:
  obtains t where "Mensaje_texto x = inicio_mensaje @ concat (map escapar (cuerpo x)) @ t"
proof -
  have "objeto.poner_todos (Mensaje_campos x) [] = [(keyCuerpo, JString (cuerpo x)), (keyFecha, JString (fecha x)),
      (keyId, JString (mensaje_id x)), (keyIdUsuarioEmisor, JString (idUsuarioEmisor x))]"
    by (simp add: Mensaje_campos_def less_char_def)
  then have 1: "Mensaje_texto x = toStyledString (JObject ((keyCuerpo, JString (cuerpo x)) # [(keyFecha, JString (fecha x)),
      (keyId, JString (mensaje_id x)), (keyIdUsuarioEmisor, JString (idUsuarioEmisor x))]))" unfolding Mensaje_texto_def by simp
  have l: "list_all (\<lambda>(k, v). \<exists>s. v = JString s) [(keyFecha, JString (fecha x)), (keyId, JString (mensaje_id x)),
      (keyIdUsuarioEmisor, JString (idUsuarioEmisor x))]" by simp
  have "valueToQuotedString keyCuerpo = DQ # keyCuerpo @ [DQ]" by code_simp
  moreover obtain t where "Mensaje_texto x = ''{'' @ [LF] @ ''   '' @ valueToQuotedString keyCuerpo @ '' : '' @
      valueToQuotedStringN (cuerpo x) @ t"
    unfolding 1 by (rule toStyledString_prefijo [OF l])
  ultimately show ?thesis using that [of "DQ # t"] by (simp add: inicio_mensaje_def valueToQuotedStringN_eq)
qed

text \<open>The first piece is no document; the second one is a literal, and has no members.\<close>

lemma Mensaje_de_texto_pieza: "\<exists>w'. Mensaje_de_texto inicio_mensaje w = Inr (Mensaje_vacio, w')"
proof -
  have "\<exists>v. parse inicio_mensaje JNull = Inr (False, v)"
  proof -
    have "(case parse inicio_mensaje JNull of Inr (ok, v) \<Rightarrow> \<not> ok | Inl _ \<Rightarrow> False)" by code_simp
    then show ?thesis by (auto split: sum.splits prod.splits)
  qed
  then obtain v where "parse inicio_mensaje JNull = Inr (False, v)" by blast
  then show ?thesis by (simp add: Mensaje_de_texto_def Mensaje_deserealizar_def luego_def)
qed

lemma Mensaje_de_texto_literal:
  "Mensaje_de_texto ''true'' w = Inl (LogicError ''in Json::Value::find(key, end, found): requires objectValue or nullValue'')"
proof -
  have "parse ''true'' JNull = Inr (True, JBool True)" by code_simp
  then show ?thesis
    by (simp add: Mensaje_de_texto_def Mensaje_deserealizar_def getString_def json_get_def json_find_def luego_def)
qed

lemma luego_falla: "hace m w x g \<Longrightarrow> (\<And>w1. cambia g w w1 \<Longrightarrow> k x w1 = Inl e) \<Longrightarrow> luego m k w = Inl e"
  by (auto simp: hace_def luego_def)

lemma para_cada_separador:
  assumes "cuerpo x = ''#true#''"
  shows "para_cada Mensaje_de_texto (split (Mensaje_texto x) SeparadorListaBD) w =
    Inl (LogicError ''in Json::Value::find(key, end, found): requires objectValue or nullValue'')"
proof -
  obtain t where "Mensaje_texto x = inicio_mensaje @ concat (map escapar (cuerpo x)) @ t" by (rule Mensaje_texto_cuerpo)
  moreover have "concat (map escapar ''#true#'') = ''#true#''" by code_simp
  ultimately have mt: "Mensaje_texto x = inicio_mensaje @ CHR ''#'' # ''true'' @ CHR ''#'' # t" by (simp add: assms)
  have "SeparadorListaBD \<notin> set inicio_mensaje" by (simp add: inicio_mensaje_def)
  then have "split (Mensaje_texto x) SeparadorListaBD = inicio_mensaje # ''true'' # split t SeparadorListaBD"
    unfolding mt using split_append_delim [of SeparadorListaBD inicio_mensaje] split_append_delim [of SeparadorListaBD "''true''" t] by simp
  moreover obtain w1 where "Mensaje_de_texto inicio_mensaje w = Inr (Mensaje_vacio, w1)"
    using Mensaje_de_texto_pieza by blast
  ultimately show ?thesis by (simp add: luego_def Mensaje_de_texto_literal)
qed

lemma Conversacion_obtener_separador:
  assumes s: "bd_sana w" and c: "usuarios c = [ua, ub]" "mensajes c = [x]" "cuerpo x = ''#true#''"
    and u: "guardado w ua" "guardado w ub"
    and k: "dato w (clave_conversacion k) = Some (Conversacion_texto c)"
  shows "Conversacion_obtener k w = Inl (LogicError ''in Json::Value::find(key, end, found): requires objectValue or nullValue'')"
proof -
  let ?e = "LogicError ''in Json::Value::find(key, end, found): requires objectValue or nullValue''"
  have ids: "split (unir SeparadorListaBD (map usuario_id (usuarios c))) SeparadorListaBD = [usuario_id ua, usuario_id ub]"
    using u by (subst split_unir) (auto simp: c guardado_def)
  have us: "hace (para_cada Usuario_obtener [usuario_id ua, usuario_id ub]) w1 [ua, ub] nada" if w1: "solo_lee w w1" for w1
  proof -
    have "hace (para_cada Usuario_obtener (map usuario_id [ua, ub])) w1 [ua, ub] nada"
    proof (rule hace_para_cada)
      fix v w2 assume "v \<in> set [ua, ub]" and w2: "solo_lee w1 w2"
      then show "hace (Usuario_obtener (usuario_id v)) w2 v nada"
        using u guardado_lee [OF lee.trans [OF w1 w2] s] cambia_sana [OF lee.trans [OF w1 w2] s]
        by (auto simp: hace_obtener_guardado)
    qed
    then show ?thesis by (simp only: list.map)
  qed
  have "Conversacion_de_texto (Conversacion_texto c) w1 = Inl ?e" if w1: "solo_lee w w1" for w1
    using luego_falla [OF us [OF w1], of "\<lambda>us. luego (para_cada Mensaje_de_texto (split (Mensaje_texto x) SeparadorListaBD))
        (\<lambda>ms. ret (True, \<lparr>conversacion_id = Conversacion_getId c, mensajes = ms, usuarios = us\<rparr>))" ?e]
    unfolding Conversacion_de_texto_def Conversacion_deserealizar_def Conversacion_texto_def
    by (simp add: parse_registro [OF Conversacion_registro_ok] Conversacion_getString ids)
       (simp add: luego_def para_cada_separador [OF c(3)] c(2))
  then show ?thesis
    unfolding Conversacion_obtener_def getConversacion_def
    using k cambia_sana [OF _ s] solo_lee_dato [OF _ s]
    by (intro luego_falla [OF hace_getInstance [OF s]] luego_falla [OF hace_getDato]) (auto intro: lee.trans)
qed

section \<open>Properties\<close>

lemma sirve_resultado:
  "sirve m w r f \<Longrightarrow> bd_sana w \<Longrightarrow> \<exists>w'. m w = Inr ((), w') \<and> dato w' = f (dato w) \<and> salida w' = contestado r (salida w)"
  by (fastforce simp: sirve_def cambia_def dato_def)

lemma hace_almacenarMensaje_nueva:
  assumes "coherente w" and no: "dato w (clave_conversacion (usuario_id ua @ ''-'' @ usuario_id ub)) = None"
      "dato w (clave_conversacion (usuario_id ub @ ''-'' @ usuario_id ua)) = None"
  shows "hace (almacenarMensaje ua ub x) w () (guarda_conversacion (Conversacion_new [ua, ub] [x]))"
proof -
  have s: "bd_sana w" using assms(1) by (simp add: coherente_def)
  have h: "hace (Conversacion_obtener k) w1 Conversacion_invalida nada"
    if "solo_lee w w1" "dato w (clave_conversacion k) = None" for k w1
    using hace_Conversacion_obtener_no [of w1 k] cambia_sana [OF that(1) s] solo_lee_dato [OF that(1) s] that(2) by simp
  have i: "Conversacion_getId Conversacion_invalida = keyIdConversacionNoEncontrada"
    by (simp add: Conversacion_getId_def Conversacion_invalida_def)
  show ?thesis
    unfolding almacenarMensaje_def
    by (rule hace_luego_lee [OF h [OF lee.refl no(1)]], unfold i if_not_P [OF not_not [THEN iffD2, OF refl]],
        rule hace_luego_lee [OF h [OF _ no(2)]], assumption, unfold i if_not_P [OF not_not [THEN iffD2, OF refl]],
        rule hace_Conversacion_persistir [OF cambia_sana [OF _ s]], erule (1) lee.trans)
qed





text \<open>
  C37: a user that has just registered has the empty session token, and a request without the
  parameter \<open>Token\<close> has it too: before the first query that renews the token anyone can change the
  profile of the user, and so lock the user out by setting another password.
\<close>
theorem empty_token_accepted:
  assumes "coherente w" and "dato w (clave_usuario (md5 (getParametro conn keyTelefono []))) = None"
    and "peticion_limpia conn" and "peticion_limpia conn'"
    and "getParametro conn' keyTelefono [] = getParametro conn keyTelefono []" and "getParametro conn' keyTokenSesion [] = []"
  shows "\<exists>w1 w2 u. registrarUsuario conn w = Inr ((), w1) \<and> administrarPerfil conn' w1 = Inr ((), w2) \<and>
    es_usuario (dato w2) (md5 (getParametro conn keyTelefono [])) u \<and> password u = getParametro conn' keyPassword []"
proof -
  let ?k = "md5 (getParametro conn keyTelefono [])"
  obtain t where t: "limpio t" "sirve (registrarUsuario conn) w (Some (''Usuario registrado correctamente'', True))
      (\<lambda>m. m(clave_usuario ?k \<mapsto> Usuario_texto (usuario_nuevo conn t)))" using registrar_nuevo [OF assms(1,2)] by blast
  let ?u = "usuario_nuevo conn t"
  have s: "bd_sana w" using assms(1) by (simp add: coherente_def)
  obtain w1 where w1: "registrarUsuario conn w = Inr ((), w1)" "dato w1 = (dato w)(clave_usuario ?k \<mapsto> Usuario_texto ?u)"
    using sirve_resultado [OF t(2) s] by blast
  have u: "usuario_id ?u = ?k" "telefono ?u = getParametro conn keyTelefono []" "token ?u = []" "usuario_limpio ?u"
    using t(1) assms(3) by (simp_all add: usuario_nuevo_def usuario_limpio_def peticion_limpia_def parametros_def)
  have "atiende (registrarUsuario conn) w"
    using sirve_atiende [OF t(2) assms(1)] datos_usuario [of "dato w" ?u] assms(1) u by (simp add: coherente_def)
  then have c1: "coherente w1" using w1(1) by (auto simp: atiende_def)
  have e: "es_usuario (dato w1) (md5 (getParametro conn' keyTelefono [])) ?u" using u by (simp add: es_usuario_def w1(2) assms(5))
  note p = perfil_autorizado [OF c1 assms(4) e]
  obtain w2 where w2: "administrarPerfil conn' w1 = Inr ((), w2)"
      "dato w2 = (dato w1)(clave_usuario ?k \<mapsto> Usuario_texto (perfil_nuevo conn' ?u))"
    using sirve_resultado [OF p] c1 u(1,3) assms(6) by (fastforce simp: coherente_def)
  moreover have "es_usuario (dato w2) ?k (perfil_nuevo conn' ?u)"
    using u assms(4) by (simp add: es_usuario_def w2(2) perfil_nuevo_def usuario_limpio_def peticion_limpia_def parametros_def)
  ultimately show ?thesis using w1(1) by (auto simp: perfil_nuevo_def)
qed

theorem empty_token_accepted_witness:
  "\<exists>w1 w2 u. registrarUsuario (pedido ''POST'' urlBaseUsuario [(keyTelefono, ''33''), (keyPassword, ''mia'')])
      (mundo_con Map.empty) = Inr ((), w1) \<and>
    administrarPerfil (pedido ''PUT'' urlBaseUsuario [(keyTelefono, ''33''), (keyPassword, ''ajena'')]) w1 = Inr ((), w2) \<and>
    es_usuario (dato w2) (md5 ''33'') u \<and> password u = ''ajena''"
proof -
  let ?a = "[(keyTelefono, ''33''), (keyPassword, ''mia'')]" and ?b = "[(keyTelefono, ''33''), (keyPassword, ''ajena'')]"
  have l: "peticion_limpia (pedido ''POST'' urlBaseUsuario ?a)" "peticion_limpia (pedido ''PUT'' urlBaseUsuario ?b)"
    by (rule limpia_pedido, code_simp)+
  have t: "getParametro (pedido ''POST'' urlBaseUsuario ?a) keyTelefono [] = ''33''"
    "getParametro (pedido ''PUT'' urlBaseUsuario ?b) keyTelefono [] = ''33''"
    "getParametro (pedido ''PUT'' urlBaseUsuario ?b) keyTokenSesion [] = []"
    "getParametro (pedido ''PUT'' urlBaseUsuario ?b) keyPassword [] = ''ajena''"
    by (rule parametro_pedido, code_simp)+
  show ?thesis
    using empty_token_accepted [OF coherente_mundo_con [OF datos_vacios] _ l] by (simp add: t)
qed

text \<open>
  C38: for two registered users that have no conversation, \<open>obtenerIdConversacion\<close> answers the name of
  the invalid conversation as a success: it compares the identifier with that of the invalid user,
  which no conversation has, so the branch for a missing conversation is never taken.
\<close>
theorem missing_conversation_id:
  assumes "coherente w" and "es_usuario (dato w) (md5 (getParametro conn keyTelefonoEmisor [])) ua"
    and "es_usuario (dato w) (md5 (getParametro conn keyTelefonoReceptor [])) ub"
    and "dato w (clave_conversacion (usuario_id ua @ ''-'' @ usuario_id ub)) = None"
    and "dato w (clave_conversacion (usuario_id ub @ ''-'' @ usuario_id ua)) = None"
  shows "\<exists>w'. obtenerIdConversacion conn w = Inr ((), w') \<and> dato w' = dato w \<and>
    salida w' = contestado (Some (''ConversacionInvalida'', True)) (salida w)"
  using sirve_resultado [OF id_conversacion [OF assms(1-3)]] assms(1,4,5) by (simp add: coherente_def nada_def)

theorem missing_conversation_id_witness:
  "\<exists>w'. obtenerIdConversacion (pedido ''GET'' urlBaseConversacionId [(keyTelefonoEmisor, ''11''), (keyTelefonoReceptor, ''22'')])
      (mundo_con datos_ejemplo) = Inr ((), w') \<and> dato w' = datos_ejemplo"
proof -
  let ?kvs = "[(keyTelefonoEmisor, ''11''), (keyTelefonoReceptor, ''22'')]"
  have t: "getParametro (pedido ''GET'' urlBaseConversacionId ?kvs) keyTelefonoEmisor [] = ''11''"
    "getParametro (pedido ''GET'' urlBaseConversacionId ?kvs) keyTelefonoReceptor [] = ''22''"
    by (rule parametro_pedido, code_simp)+
  have no: "datos_ejemplo (clave_conversacion k) = None" for k by (simp add: datos_ejemplo_def)
  obtain ua where "es_usuario datos_ejemplo (md5 ''11'') ua" "es_usuario datos_ejemplo (md5 ''22'') (usuario_de_ejemplo ''22'')"
    by (rule usuarios_ejemplo)
  then show ?thesis
    using missing_conversation_id [OF coherente_ejemplo, of "pedido ''GET'' urlBaseConversacionId ?kvs" ua "usuario_de_ejemplo ''22''"]
    by (auto simp: t no)
qed

text \<open>
  C39: \<open>obtenerConversaciones\<close> never answers when the user is not registered: it writes to the log
  and returns, and nothing has been sent on the connection.
\<close>
theorem conversations_no_answer:
  assumes "coherente w" and "getParametroIdMetodoGET conn urlBaseUsuarioConversaciones = Inr tel"
    and "bnd (getParametroArray conn keyIdConversaciones []) jsonValueToVector = Inr ids"
    and "dato w (clave_usuario (md5 tel)) = None"
  shows "\<exists>w'. obtenerConversaciones conn w = Inr ((), w') \<and> dato w' = dato w \<and> salida w' = salida w"
  using sirve_resultado [OF conversaciones_desconocido [OF assms(1,3,2,4)]] assms(1)
  by (simp add: coherente_def nada_def contestado_def)

theorem conversations_no_answer_witness:
  "\<exists>w'. obtenerConversaciones (pedido ''GET'' ''/usuarioConversacion/9'' []) (mundo_con Map.empty) = Inr ((), w') \<and>
     salida w' = envio_nuevo"
proof -
  let ?c = "pedido ''GET'' ''/usuarioConversacion/9'' []"
  have "getParametroIdMetodoGET ?c urlBaseUsuarioConversaciones = Inr ''9''"
    by (simp add: getParametroIdMetodoGET_def sscanf_s_def pedido_def isspace_def Let_def)
  moreover have "getParametro ?c keyIdConversaciones [] = []" by (rule parametro_pedido) code_simp
  moreover have "bnd (bnd (parse [] JNull) (\<lambda>(ok, v). Inr v)) jsonValueToVector = Inr []" by code_simp
  moreover have "salida (mundo_con Map.empty) = envio_nuevo" by (simp add: mundo_con_def mundo_ejemplo_def mundo_inicial_def)
  ultimately show ?thesis
    using conversations_no_answer [OF coherente_mundo_con [OF datos_vacios], of ?c "''9''" "[]"] by (auto simp: getParametroArray_def)
qed

text \<open>
  An object in the parameter of the contacts, where an array is expected, raises the exception of
  the JSON library, which neither \<open>obtenerContactos\<close> nor the thread of the request catches.
\<close>
theorem contacts_object:
  assumes "parse (getParametro conn keyContantosTelefono []) JNull = Inr (ok, JObject ms)" and "ms \<noteq> []"
  shows "obtenerContactos conn w =
    Inl (LogicError ''in Json::Value::operator[](ArrayIndex)const: requires arrayValue'')"
proof -
  obtain n where "length ms = Suc n" using assms(2) by (cases ms) auto
  then have "[0..<json_size (JObject ms)] = 0 # [1..<Suc n]" by (simp add: json_size_def upt_conv_Cons)
  then have "jsonValueToVector (JObject ms) = Inl (LogicError ''in Json::Value::operator[](ArrayIndex)const: requires arrayValue'')"
    by (simp add: jsonValueToVector_def json_get_index_def)
  then show ?thesis
    using assms(1) by (simp add: obtenerContactos_def getParametroArray_def luego_def)
qed

theorem contacts_object_witness:
  "obtenerContactos (pedido ''GET'' urlBaseContactos [(keyContantosTelefono, ''{'' @ [DQ, CHR ''a'', DQ] @ '':true}'')]) mundo_ejemplo =
     Inl (LogicError ''in Json::Value::operator[](ArrayIndex)const: requires arrayValue'')"
proof (rule contacts_object [where ok = True and ms = "[(''a'', JBool True)]"])
  let ?t = "''{'' @ [DQ, CHR ''a'', DQ] @ '':true}''"
  have "getParametro (pedido ''GET'' urlBaseContactos [(keyContantosTelefono, ?t)]) keyContantosTelefono [] = ?t"
    by (rule parametro_pedido) code_simp
  moreover have "parse ?t JNull = Inr (True, JObject [(''a'', JBool True)])" by code_simp
  ultimately show "parse (getParametro (pedido ''GET'' urlBaseContactos [(keyContantosTelefono, ?t)]) keyContantosTelefono []) JNull
      = Inr (True, JObject [(''a'', JBool True)])" by simp
qed simp

end
