(* ===== verification/Rutas.thy ===== *)
theory Rutas
  imports Servidor
begin

text \<open>The requests of the REST interface and the services they reach.\<close>

lemma contiene_set: "contiene s x \<Longrightarrow> set x \<subseteq> set s"
  by (induction s x rule: contiene.induct) (auto dest: in_set_takeD simp del: take_Suc_Cons, metis in_set_takeD set_ConsD)

lemma sin_barra:
  assumes "CHR ''/'' \<notin> set s"
  shows "CHR ''/'' \<in> set x \<Longrightarrow> contiene s x = False" "CHR ''/'' \<in> set x \<Longrightarrow> (take n s = x) = False"
  using assms contiene_set [of s x] in_set_takeD [of "CHR ''/''" n s] by auto

lemma parsearURI_GET:
  assumes "request_method conn = ''GET''" and "CHR ''/'' \<notin> set ident"
  shows "uri conn = urlBaseUsuario @ ident \<Longrightarrow> parsearURI conn = CONSULTAR_USUARIO_ONLINE"
    and "uri conn = urlBaseUsuarioConversaciones @ ident \<Longrightarrow> parsearURI conn = OBTENER_CONVERSACIONES"
    and "uri conn = urlBaseConversacion @ ident \<Longrightarrow> parsearURI conn = OBTENER_CONVERSACION"
    and "uri conn = urlBaseConversacionId @ ident \<Longrightarrow> parsearURI conn = OBTENER_ID_CONVERSACION"
    and "uri conn = urlBaseContactos @ ident \<Longrightarrow> parsearURI conn = OBTENER_CONTACTOS"
  using assms(1) by (simp_all add: parsearURI_def Let_def sin_barra [OF assms(2)] take_Cons')

lemma getParametroIdMetodoGET_id:
  assumes "uri conn = base @ ident" and "ident \<noteq> []" and "length ident < 255" and "list_all (\<lambda>c. \<not> isspace c) ident"
  shows "getParametroIdMetodoGET conn base = Inr ident"
proof -
  have "takeWhile (\<lambda>c. \<not> isspace c) ident = ident" using assms(4) by (simp add: takeWhile_eq_all_conv list_all_iff)
  moreover have "dropWhile isspace ident = ident" using assms(2,4) by (cases ident) simp_all
  ultimately show ?thesis using assms(1-3) by (simp add: getParametroIdMetodoGET_def sscanf_s_def Let_def del: takeWhile_eq_all_conv)
qed

section \<open>Properties\<close>





end
