(* ===== verification/RocksDB_Coding.thy ===== *)
theory RocksDB_Coding
  imports Md5
begin

text \<open>
  The byte encodings of \<open>util/coding.h\<close> and \<open>util/coding.cc\<close>: little-endian integers of 32
  and 64 bits, variable-length integers and strings preceded by their length. A writer
  returns the bytes it appends; a reader takes the bytes that are left and returns the value
  and what follows it, or \<open>None\<close> where the code returns \<open>false\<close> or a null pointer. The
  readers undo the writers, whatever follows, and stop within the bounds the code reserves.
\<close>

section \<open>Fixed width\<close>

definition EncodeFixed32 :: "32 word \<Rightarrow> uint1 list" where
  "EncodeFixed32 v = [ucast v, ucast (drop_bit 8 v), ucast (drop_bit 16 v), ucast (drop_bit 24 v)]"

definition EncodeFixed64 :: "64 word \<Rightarrow> uint1 list" where
  "EncodeFixed64 v = [ucast v, ucast (drop_bit 8 v), ucast (drop_bit 16 v), ucast (drop_bit 24 v),
     ucast (drop_bit 32 v), ucast (drop_bit 40 v), ucast (drop_bit 48 v), ucast (drop_bit 56 v)]"

definition DecodeFixed32 :: "uint1 list \<Rightarrow> 32 word" where
  "DecodeFixed32 p = ucast (p ! 0) OR push_bit 8 (ucast (p ! 1)) OR push_bit 16 (ucast (p ! 2))
     OR push_bit 24 (ucast (p ! 3))"

definition DecodeFixed64 :: "uint1 list \<Rightarrow> 64 word" where
  "DecodeFixed64 p =
     (let lo = ucast (DecodeFixed32 p); hi = ucast (DecodeFixed32 (drop 4 p))
      in push_bit 32 hi OR lo)"

definition GetFixed64 :: "uint1 list \<Rightarrow> (64 word \<times> uint1 list) option" where
  "GetFixed64 input = (if length input < 8 then None else Some (DecodeFixed64 input, drop 8 input))"

section \<open>Variable width\<close>

definition EncodeVarint32 :: "32 word \<Rightarrow> uint1 list" where
  "EncodeVarint32 v =
     (if v < push_bit 7 1 then [ucast v]
      else if v < push_bit 14 1 then [ucast (v OR 128), ucast (drop_bit 7 v)]
      else if v < push_bit 21 1
      then [ucast (v OR 128), ucast (drop_bit 7 v OR 128), ucast (drop_bit 14 v)]
      else if v < push_bit 28 1
      then [ucast (v OR 128), ucast (drop_bit 7 v OR 128), ucast (drop_bit 14 v OR 128),
            ucast (drop_bit 21 v)]
      else [ucast (v OR 128), ucast (drop_bit 7 v OR 128), ucast (drop_bit 14 v OR 128),
            ucast (drop_bit 21 v OR 128), ucast (drop_bit 28 v)])"

text \<open>The two loops shift at least one bit out of \<open>v\<close> in every turn.\<close>

lemma drop_bit_7_less: "128 \<le> v \<Longrightarrow> unat (drop_bit 7 v) < unat v" for v :: "64 word"
  by (simp add: unat_drop_bit_eq drop_bit_nat_def word_le_nat_alt)

function EncodeVarint64 :: "64 word \<Rightarrow> uint1 list" where
  "EncodeVarint64 v =
     (if 128 \<le> v then ucast ((v AND 127) OR 128) # EncodeVarint64 (drop_bit 7 v) else [ucast v])"
  by pat_completeness auto
termination by (relation "measure unat") (simp_all add: drop_bit_7_less)

function VarintLength :: "64 word \<Rightarrow> nat" where
  "VarintLength v = (if 128 \<le> v then Suc (VarintLength (drop_bit 7 v)) else 1)"
  by pat_completeness auto
termination by (relation "measure unat") (simp_all add: drop_bit_7_less)

declare EncodeVarint64.simps [simp del] VarintLength.simps [simp del]

fun GetVarint32PtrFallback :: "nat \<Rightarrow> 32 word \<Rightarrow> uint1 list \<Rightarrow> (32 word \<times> uint1 list) option" where
  "GetVarint32PtrFallback shift res [] = None"
| "GetVarint32PtrFallback shift res (p # ps) =
     (if shift \<le> 28
      then let byte = ucast p :: 32 word
           in if byte AND 128 \<noteq> 0
              then GetVarint32PtrFallback (shift + 7) (res OR push_bit shift (byte AND 127)) ps
              else Some (res OR push_bit shift byte, ps)
      else None)"

fun GetVarint64Ptr :: "nat \<Rightarrow> 64 word \<Rightarrow> uint1 list \<Rightarrow> (64 word \<times> uint1 list) option" where
  "GetVarint64Ptr shift res [] = None"
| "GetVarint64Ptr shift res (p # ps) =
     (if shift \<le> 63
      then let byte = ucast p :: 64 word
           in if byte AND 128 \<noteq> 0
              then GetVarint64Ptr (shift + 7) (res OR push_bit shift (byte AND 127)) ps
              else Some (res OR push_bit shift byte, ps)
      else None)"

definition GetVarint32 :: "uint1 list \<Rightarrow> (32 word \<times> uint1 list) option" where
  "GetVarint32 input =
     (case input of
        p # ps \<Rightarrow> if (ucast p :: 32 word) AND 128 = 0 then Some (ucast p, ps)
                  else GetVarint32PtrFallback 0 0 input
      | [] \<Rightarrow> GetVarint32PtrFallback 0 0 input)"

definition GetVarint64 :: "uint1 list \<Rightarrow> (64 word \<times> uint1 list) option" where
  "GetVarint64 input = GetVarint64Ptr 0 0 input"

section \<open>Strings with their length\<close>

definition PutLengthPrefixedSlice :: "uint1 list \<Rightarrow> uint1 list" where
  "PutLengthPrefixedSlice val = EncodeVarint32 (of_nat (length val)) @ val"

definition GetLengthPrefixedSlice :: "uint1 list \<Rightarrow> (uint1 list \<times> uint1 list) option" where
  "GetLengthPrefixedSlice input =
     (case GetVarint32 input of
        Some (len, input') \<Rightarrow>
          if unat len \<le> length input' then Some (take (unat len) input', drop (unat len) input')
          else None
      | None \<Rightarrow> None)"

section \<open>Bits of bytes and words\<close>

lemma glue: "take_bit m v OR push_bit m (take_bit k (drop_bit m v)) = take_bit (m + k) v"
  for v :: "'a::len word"
  by (rule bit_word_eqI) (auto simp: bit_simps)

lemma ucast_byte [simp]:
  "(ucast (ucast v :: uint1) :: 32 word) = take_bit 8 v" "(ucast (ucast v' :: uint1) :: 64 word) = take_bit 8 v'"
  by (rule bit_word_eqI; auto simp: bit_simps)+

lemma length_EncodeFixed32 [simp]: "length (EncodeFixed32 v) = 4"
  by (simp add: EncodeFixed32_def)

lemma length_EncodeFixed64 [simp]: "length (EncodeFixed64 v) = 8"
  by (simp add: EncodeFixed64_def)

lemma DecodeFixed32_bytes:
  "DecodeFixed32 (ucast v # ucast (drop_bit 8 v) # ucast (drop_bit 16 v) # ucast (drop_bit 24 v) # rest) = v"
  using glue [of 8 v 8] glue [of 16 v 8] glue [of 24 v 8]
  by (simp add: DecodeFixed32_def take_bit_word_eq_self flip: or.assoc)

lemma DecodeFixed32_Encode [simp]: "DecodeFixed32 (EncodeFixed32 v @ rest) = v"
  by (simp add: EncodeFixed32_def DecodeFixed32_bytes)

lemma byte_low: "k + 8 \<le> 32 \<Longrightarrow> (ucast (drop_bit k v) :: uint1) = ucast (drop_bit k (ucast v :: 32 word))"
  for v :: "64 word"
  by (rule bit_word_eqI) (auto simp: bit_simps)

lemma DecodeFixed64_Encode [simp]: "DecodeFixed64 (EncodeFixed64 v @ rest) = v"
proof -
  have lo: "(ucast v :: uint1) = ucast (ucast v :: 32 word)" for v :: "64 word"
    using byte_low [of 0 v] by simp
  have "DecodeFixed32 (EncodeFixed64 v @ rest) = ucast v"
    using DecodeFixed32_bytes [of "ucast v"] by (simp add: EncodeFixed64_def lo [of v] byte_low)
  moreover have "DecodeFixed32 (drop 4 (EncodeFixed64 v @ rest)) = ucast (drop_bit 32 v)"
    using DecodeFixed32_bytes [of "ucast (drop_bit 32 v)"]
      byte_low [of 8 "drop_bit 32 v"] byte_low [of 16 "drop_bit 32 v"] byte_low [of 24 "drop_bit 32 v"]
    by (simp add: EncodeFixed64_def lo [of "drop_bit 32 v"])
  moreover have "push_bit 32 (ucast (ucast (drop_bit 32 v) :: 32 word)) OR ucast (ucast v :: 32 word) = v"
    by (rule bit_word_eqI) (auto simp: bit_simps)
  ultimately show ?thesis by (simp add: DecodeFixed64_def Let_def)
qed

lemma GetFixed64_Encode [simp]: "GetFixed64 (EncodeFixed64 v @ rest) = Some (v, rest)"
  by (simp add: GetFixed64_def)

lemma EncodeFixed32_Decode:
  assumes "4 \<le> length p"
  shows "EncodeFixed32 (DecodeFixed32 p) = take 4 p"
proof -
  obtain b0 b1 b2 b3 bs where p: "p = b0 # b1 # b2 # b3 # bs"
    using assms by (auto simp: numeral_nat Suc_le_length_iff)
  have b: "\<not> bit b n" if "8 \<le> n" for b :: uint1 and n using that bit_imp_le_length [of b n] by auto
  show ?thesis
    unfolding p EncodeFixed32_def DecodeFixed32_def
    by (simp, intro conjI; rule bit_word_eqI; simp add: bit_simps b)
qed

lemma EncodeFixed64_split:
  "EncodeFixed64 v = EncodeFixed32 (ucast v) @ EncodeFixed32 (ucast (drop_bit 32 v))"
  using byte_low [of 0 v] byte_low [of 0 "drop_bit 32 v"] byte_low [of 8 "drop_bit 32 v"]
    byte_low [of 16 "drop_bit 32 v"] byte_low [of 24 "drop_bit 32 v"]
  by (simp add: EncodeFixed64_def EncodeFixed32_def byte_low)

lemma EncodeFixed64_Decode:
  assumes "8 \<le> length p"
  shows "EncodeFixed64 (DecodeFixed64 p) = take 8 p"
proof -
  have no: "\<not> bit w (32 + n)" for w :: "32 word" and n using bit_imp_le_length [of w "32 + n"] by auto
  have "(ucast (DecodeFixed64 p) :: 32 word) = DecodeFixed32 p"
    "(ucast (drop_bit 32 (DecodeFixed64 p)) :: 32 word) = DecodeFixed32 (drop 4 p)"
    unfolding DecodeFixed64_def Let_def
    by (rule bit_word_eqI; simp add: bit_simps no)+
  then show ?thesis
    using assms take_add [of 4 4 p] by (simp add: EncodeFixed64_split EncodeFixed32_Decode)
qed

section \<open>The variable-length integers\<close>

lemma and_128: "w AND 128 = 0 \<longleftrightarrow> \<not> bit w 7" for w :: "'a::len word"
  using and_exp_eq_0_iff_not_bit [of w 7] by simp

lemma and_127: "w AND 127 = take_bit 7 w" for w :: "'a::len word"
  by (simp add: take_bit_eq_mask mask_numeral)

lemma less_exp_iff: "v < push_bit k 1 \<longleftrightarrow> drop_bit k v = 0" if "k < LENGTH('a)" for v :: "'a::len word"
proof -
  have "unat (push_bit k 1 :: 'a word) = 2 ^ k"
    using that by (simp add: unsigned_push_bit_eq take_bit_push_bit del: push_bit_of_1)
  moreover have "drop_bit k v = 0 \<longleftrightarrow> unat v div 2 ^ k = 0"
    by (metis drop_bit_nat_def unat_0 unat_drop_bit_eq unsigned_word_eqI)
  ultimately show ?thesis by (simp add: word_less_nat_alt div_eq_0_iff)
qed

text \<open>One group of seven bits: a byte with the high bit when more follow, or the last one.\<close>

lemma drop_bit_0D: "drop_bit k v = 0 \<Longrightarrow> bit v n \<Longrightarrow> n < k" for v :: "'a::len word"
  using bit_iff_odd_drop_bit [of v n] drop_bit_drop_bit [of "n - k" k v] by (cases "n < k") simp_all

lemma bit_128: "bit (128 :: 'a::len word) n \<longleftrightarrow> n = 7 \<and> n < LENGTH('a)"
proof -
  have "(128 :: 'a word) = 2 ^ 7" by simp
  then show ?thesis by (simp only: bit_exp_iff possible_bit_word) blast
qed

lemma bit_grupo: "bit (ucast ((v AND 127) OR 128) :: uint1) n \<longleftrightarrow> (n < 7 \<and> bit v n) \<or> n = 7"
  for v :: "64 word"
  unfolding and_127 bit_unsigned_iff bit_or_iff bit_take_bit_iff bit_128 by auto

lemma grupo_sigue:
  fixes v :: "64 word"
  defines "b \<equiv> ucast ((v AND 127) OR 128) :: uint1"
  shows "(ucast b :: 64 word) AND 128 \<noteq> 0" "(ucast b :: 64 word) AND 127 = take_bit 7 v"
    "(ucast b :: 32 word) AND 128 \<noteq> 0" "(ucast b :: 32 word) AND 127 = take_bit 7 (ucast v)"
proof -
  note bits = bit_unsigned_iff bit_take_bit_iff bit_grupo [of v, folded b_def] possible_bit_word
  show "(ucast b :: 64 word) AND 128 \<noteq> 0" "(ucast b :: 32 word) AND 128 \<noteq> 0"
    unfolding and_128 by (simp_all add: bits)
  show "(ucast b :: 64 word) AND 127 = take_bit 7 v"
    unfolding and_127 by (rule bit_word_eqI) (auto simp: bits)
  show "(ucast b :: 32 word) AND 127 = take_bit 7 (ucast v)"
    unfolding and_127 by (rule bit_word_eqI) (auto simp: bits)
qed

lemma grupo_ultimo:
  fixes v :: "64 word"
  assumes "\<not> 128 \<le> v"
  shows "(ucast (ucast v :: uint1) :: 64 word) = v" "\<not> bit v 7"
    "(ucast (ucast v :: uint1) :: 32 word) = ucast v"
proof -
  have v: "drop_bit 7 v = 0" using assms less_exp_iff [of 7 v] by (simp add: push_bit_eq_mult not_le)
  note b = drop_bit_0D [OF v]
  show "(ucast (ucast v :: uint1) :: 64 word) = v"
    unfolding ucast_byte by (rule bit_word_eqI) (use b in \<open>fastforce simp: bit_take_bit_iff\<close>)
  show "\<not> bit v 7" using b by blast
  show "(ucast (ucast v :: uint1) :: 32 word) = ucast v"
    by (rule bit_word_eqI) (use b in \<open>fastforce simp: bit_unsigned_iff\<close>)
qed

lemma grupos_juntos:
  "(res OR push_bit s (take_bit 7 v)) OR push_bit (s + 7) (drop_bit 7 v) = res OR push_bit s v"
  for v :: "'a::len word"
proof (rule bit_word_eqI)
  fix n
  have "\<not> n - s < 7 \<Longrightarrow> 7 + (n - (s + 7)) = n - s" by arith
  then show "n < LENGTH('a) \<Longrightarrow> bit ((res OR push_bit s (take_bit 7 v)) OR push_bit (s + 7) (drop_bit 7 v)) n
      \<longleftrightarrow> bit (res OR push_bit s v) n"
    by (cases "n - s < 7") (auto simp: bit_simps)
qed

text \<open>The reader started in the middle of a number collects the rest of it.\<close>

lemma GetVarint64Ptr_Encode:
  assumes "s \<le> 63" and "drop_bit (64 - s) v = 0"
  shows "GetVarint64Ptr s res (EncodeVarint64 v @ rest) = Some (res OR push_bit s v, rest)"
  using assms
proof (induction v arbitrary: s res rule: EncodeVarint64.induct)
  case (1 v)
  show ?case
  proof (cases "128 \<le> v")
    case True
    have "drop_bit 7 v \<noteq> 0" using leD [OF True] less_exp_iff [of 7 v] by simp
    then have s: "s + 7 \<le> 63"
      using "1.prems" drop_bit_drop_bit [of "7 - (64 - s)" "64 - s" v] by (cases "64 - s \<le> 7") auto
    then have "GetVarint64Ptr (s + 7) (res OR push_bit s (take_bit 7 v)) (EncodeVarint64 (drop_bit 7 v) @ rest)
        = Some ((res OR push_bit s (take_bit 7 v)) OR push_bit (s + 7) (drop_bit 7 v), rest)"
      using "1.IH" [OF True, of "s + 7"] "1.prems" by (simp add: drop_bit_drop_bit)
    then show ?thesis
      using True s "1.prems" grupo_sigue [of v]
      by (simp add: EncodeVarint64.simps [of v] Let_def grupos_juntos)
  next
    case False
    then show ?thesis
      using False "1.prems" grupo_ultimo [OF False]
      by (simp add: EncodeVarint64.simps [of v] Let_def and_128 del: ucast_byte)
  qed
qed

lemma GetVarint64_Encode [simp]: "GetVarint64 (EncodeVarint64 v @ rest) = Some (v, rest)"
  using GetVarint64Ptr_Encode [of 0 v 0 rest] by (simp add: GetVarint64_def)

lemma GetVarint32PtrFallback_Encode:
  assumes "s \<le> 28" and "s mod 7 = 0" and "drop_bit (32 - s) v = 0"
  shows "GetVarint32PtrFallback s res (EncodeVarint64 v @ rest) = Some (res OR push_bit s (ucast v), rest)"
  using assms
proof (induction v arbitrary: s res rule: EncodeVarint64.induct)
  case (1 v)
  show ?case
  proof (cases "128 \<le> v")
    case True
    have "drop_bit 7 v \<noteq> 0" using leD [OF True] less_exp_iff [of 7 v] by simp
    then have "s + 7 \<le> 31"
      using "1.prems" drop_bit_drop_bit [of "7 - (32 - s)" "32 - s" v] by (cases "32 - s \<le> 7") auto
    then have s: "s + 7 \<le> 28" using "1.prems"(2) by presburger
    have "n < 25" if "bit v (7 + n)" for n using drop_bit_0D [OF "1.prems"(3) that] by arith
    then have "(ucast (drop_bit 7 v) :: 32 word) = drop_bit 7 (ucast v)"
      by (intro bit_word_eqI) (auto simp: bit_simps)
    then have "GetVarint32PtrFallback (s + 7) (res OR push_bit s (take_bit 7 (ucast v)))
          (EncodeVarint64 (drop_bit 7 v) @ rest)
        = Some ((res OR push_bit s (take_bit 7 (ucast v))) OR push_bit (s + 7) (drop_bit 7 (ucast v)), rest)"
      using "1.IH" [OF True, of "s + 7"] "1.prems" s by (simp add: drop_bit_drop_bit)
    then show ?thesis
      using True s "1.prems" grupo_sigue [of v]
      by (simp add: EncodeVarint64.simps [of v] Let_def grupos_juntos)
  next
    case False
    have "\<not> bit (ucast v :: 32 word) 7" using grupo_ultimo(2) [OF False] by (simp add: bit_unsigned_iff)
    then show ?thesis
      using False "1.prems" grupo_ultimo [OF False]
      by (simp add: EncodeVarint64.simps [of v] Let_def and_128 del: ucast_byte)
  qed
qed

text \<open>The unrolled encoder of 32-bit numbers writes what the loop writes.\<close>

lemma grupo32: "(ucast (drop_bit k v OR 128) :: uint1) = ucast ((drop_bit k (ucast v :: 64 word) AND 127) OR 128)"
  for v :: "32 word"
proof (rule bit_word_eqI)
  fix n assume n: "n < LENGTH(8)"
  have "bit (ucast (drop_bit k v OR 128) :: uint1) n \<longleftrightarrow> (n < 7 \<and> bit v (k + n)) \<or> n = 7"
    unfolding bit_unsigned_iff bit_or_iff bit_128 bit_drop_bit_eq o_def using n by auto
  moreover have "bit (drop_bit k (ucast v :: 64 word)) n \<longleftrightarrow> bit v (k + n)"
    by (auto simp: bit_drop_bit_eq bit_unsigned_iff dest: bit_imp_le_length)
  ultimately show "bit (ucast (drop_bit k v OR 128) :: uint1) n
      \<longleftrightarrow> bit (ucast ((drop_bit k (ucast v :: 64 word) AND 127) OR 128) :: uint1) n"
    using bit_grupo [of "drop_bit k (ucast v)" n] by simp
qed

lemma ucast_drop_64: "(ucast (drop_bit k (ucast v :: 64 word)) :: uint1) = ucast (drop_bit k v)"
  for v :: "32 word"
  by (rule bit_word_eqI) (auto simp: bit_simps dest: bit_imp_le_length)

lemma drop_64: "drop_bit k (ucast v :: 64 word) = ucast (drop_bit k v)" for v :: "32 word"
  by (rule bit_word_eqI) (auto simp: bit_simps dest: bit_imp_le_length)

lemma cota_64: "128 \<le> drop_bit k (ucast v :: 64 word) \<longleftrightarrow> \<not> v < push_bit (k + 7) 1" if "k + 7 < 32"
  for v :: "32 word"
proof -
  have z: "(ucast w :: 64 word) = 0 \<longleftrightarrow> w = 0" for w :: "32 word"
    unfolding bit_eq_iff using bit_imp_le_length [of w] by (fastforce simp: bit_unsigned_iff)
  have "drop_bit k (ucast v :: 64 word) < push_bit 7 1 \<longleftrightarrow> v < push_bit (k + 7) 1"
    using that by (simp only: less_exp_iff len_of_numeral_defs drop_bit_drop_bit drop_64 z add.commute)
  then show ?thesis by (simp add: not_less [symmetric])
qed

lemma EncodeVarint32_loop: "EncodeVarint32 v = EncodeVarint64 (ucast v)"
proof -
  note cotas = cota_64 [of 0 v] cota_64 [of 7 v] cota_64 [of 14 v] cota_64 [of 21 v]
  have "drop_bit 35 (ucast v :: 64 word) = 0"
    by (rule bit_word_eqI) (auto simp: bit_simps dest: bit_imp_le_length)
  then have c28: "\<not> 128 \<le> drop_bit 28 (ucast v :: 64 word)"
    using less_exp_iff [of 7 "drop_bit 28 (ucast v :: 64 word)"] by (simp add: drop_bit_drop_bit not_le)
  have mas: "128 \<le> drop_bit k (ucast v :: 64 word) \<Longrightarrow> EncodeVarint64 (drop_bit k (ucast v))
      = ucast (drop_bit k v OR 128) # EncodeVarint64 (drop_bit (7 + k) (ucast v))" for k
    by (simp add: EncodeVarint64.simps [of "drop_bit k (ucast v)"] grupo32 drop_bit_drop_bit)
  have fin: "\<not> 128 \<le> drop_bit k (ucast v :: 64 word) \<Longrightarrow> EncodeVarint64 (drop_bit k (ucast v))
      = [ucast (drop_bit k v)]" for k
    by (simp add: EncodeVarint64.simps [of "drop_bit k (ucast v)"] ucast_drop_64)
  show ?thesis
    using cotas c28 mas [of 0] mas [of 7] mas [of 14] mas [of 21] fin [of 0] fin [of 7] fin [of 14]
      fin [of 21] fin [of 28]
    by (auto simp: EncodeVarint32_def)
qed

lemma ucast_64_32 [simp]: "(ucast (ucast v :: 64 word) :: 32 word) = v"
  by (rule bit_word_eqI) (auto simp: bit_simps)

lemma drop_ucast_32 [simp]: "drop_bit 32 (ucast v :: 64 word) = 0" for v :: "32 word"
  by (rule bit_word_eqI) (auto simp: bit_simps dest: bit_imp_le_length)

text \<open>The test for one-byte numbers at the front of \<open>GetVarint32Ptr\<close> changes nothing.\<close>

lemma GetVarint32_fallback: "GetVarint32 input = GetVarint32PtrFallback 0 0 input"
  by (cases input) (simp_all add: GetVarint32_def Let_def)

lemma GetVarint32_Encode [simp]: "GetVarint32 (EncodeVarint32 v @ rest) = Some (v, rest)"
  using GetVarint32PtrFallback_Encode [of 0 "ucast v" 0 rest]
  by (simp add: GetVarint32_fallback EncodeVarint32_loop)

text \<open>How long the encodings are: the buffers of \<open>PutVarint32\<close> and \<open>PutVarint64\<close> hold them.\<close>

lemma length_EncodeVarint64: "length (EncodeVarint64 v) = VarintLength v"
proof (induction v rule: EncodeVarint64.induct)
  case (1 v)
  then show ?case by (simp add: EncodeVarint64.simps [of v] VarintLength.simps [of v])
qed

lemma VarintLength_le: "drop_bit (7 * n) v = 0 \<Longrightarrow> 0 < n \<Longrightarrow> VarintLength v \<le> n"
proof (induction n arbitrary: v)
  case (Suc n)
  show ?case
  proof (cases "128 \<le> v")
    case True
    then have "drop_bit 7 v \<noteq> 0" using leD [OF True] less_exp_iff [of 7 v] by simp
    then have "0 < n" using Suc.prems by (cases n) auto
    then show ?thesis
      using Suc.IH [of "drop_bit 7 v"] Suc.prems True
      by (simp add: VarintLength.simps [of v] drop_bit_drop_bit add.commute)
  qed (simp add: VarintLength.simps [of v])
qed simp

lemma length_EncodeVarint64_bounds: "length (EncodeVarint64 v) \<le> 10"
  using VarintLength_le [of 10 v] by (simp add: length_EncodeVarint64)

lemma length_EncodeVarint32_bounds: "length (EncodeVarint32 v) \<le> 5"
  by (simp add: EncodeVarint32_def)

text \<open>A reader gives back strictly less than it was given.\<close>

lemma GetVarint32PtrFallback_shorter:
  "GetVarint32PtrFallback s res bs = Some (v, rest) \<Longrightarrow> length rest < length bs"
  by (induction s res bs rule: GetVarint32PtrFallback.induct) (auto simp: Let_def split: if_splits)

lemma GetLengthPrefixedSlice_shorter:
  "GetLengthPrefixedSlice bs = Some (x, rest) \<Longrightarrow> length x + length rest < length bs"
  by (auto simp: GetLengthPrefixedSlice_def GetVarint32_fallback split: option.splits if_splits
      dest!: GetVarint32PtrFallback_shorter)

lemma GetLengthPrefixedSlice_Put [simp]:
  assumes "length val < 2 ^ 32"
  shows "GetLengthPrefixedSlice (PutLengthPrefixedSlice val @ rest) = Some (val, rest)"
proof -
  have "unat (of_nat (length val) :: 32 word) = length val"
    using assms by (simp add: unat_of_nat)
  then show ?thesis by (simp add: GetLengthPrefixedSlice_def PutLengthPrefixedSlice_def)
qed

section \<open>Bytes and texts\<close>

text \<open>A \<open>Slice\<close> of the log read as the text of a key or a value; undoes \<open>bytes_of\<close>.\<close>

definition texto_of :: "uint1 list \<Rightarrow> string" where
  "texto_of bs = map (\<lambda>b. char_of (unat b)) bs"

lemma texto_of_bytes_of [simp]: "texto_of (bytes_of s) = s"
proof -
  have "unat (of_nat (of_char c) :: uint1) = of_char c" for c
    by (simp add: unat_of_nat)
  then show ?thesis by (induction s) (simp_all add: texto_of_def bytes_of_def)
qed

lemma length_bytes_of [simp]: "length (bytes_of s) = length s"
  by (simp add: bytes_of_def)

end
