(* ===== verification/RocksDB_Crc.thy ===== *)
theory RocksDB_Crc
  imports RocksDB_Coding
begin

text \<open>
  The checksum of \<open>util/crc32c.cc\<close> and \<open>util/crc32c.h\<close>: the four lookup tables, the step on
  one byte, the step on eight bytes with the tables or with the instruction of the processor,
  the loop that aligns the pointer and takes the steps, and the masking of stored checksums.
  \<open>pasos\<close> is the definition of CRC-32C one bit at a time; the code computes it, whatever
  the address of the data and whichever of the two variants runs.
\<close>

section \<open>The lookup tables\<close>

definition table0 :: "32 word list" where
  "table0 = [
     0x00000000, 0xf26b8303, 0xe13b70f7, 0x1350f3f4, 0xc79a971f, 0x35f1141c, 0x26a1e7e8, 0xd4ca64eb,
     0x8ad958cf, 0x78b2dbcc, 0x6be22838, 0x9989ab3b, 0x4d43cfd0, 0xbf284cd3, 0xac78bf27, 0x5e133c24,
     0x105ec76f, 0xe235446c, 0xf165b798, 0x030e349b, 0xd7c45070, 0x25afd373, 0x36ff2087, 0xc494a384,
     0x9a879fa0, 0x68ec1ca3, 0x7bbcef57, 0x89d76c54, 0x5d1d08bf, 0xaf768bbc, 0xbc267848, 0x4e4dfb4b,
     0x20bd8ede, 0xd2d60ddd, 0xc186fe29, 0x33ed7d2a, 0xe72719c1, 0x154c9ac2, 0x061c6936, 0xf477ea35,
     0xaa64d611, 0x580f5512, 0x4b5fa6e6, 0xb93425e5, 0x6dfe410e, 0x9f95c20d, 0x8cc531f9, 0x7eaeb2fa,
     0x30e349b1, 0xc288cab2, 0xd1d83946, 0x23b3ba45, 0xf779deae, 0x05125dad, 0x1642ae59, 0xe4292d5a,
     0xba3a117e, 0x4851927d, 0x5b016189, 0xa96ae28a, 0x7da08661, 0x8fcb0562, 0x9c9bf696, 0x6ef07595,
     0x417b1dbc, 0xb3109ebf, 0xa0406d4b, 0x522bee48, 0x86e18aa3, 0x748a09a0, 0x67dafa54, 0x95b17957,
     0xcba24573, 0x39c9c670, 0x2a993584, 0xd8f2b687, 0x0c38d26c, 0xfe53516f, 0xed03a29b, 0x1f682198,
     0x5125dad3, 0xa34e59d0, 0xb01eaa24, 0x42752927, 0x96bf4dcc, 0x64d4cecf, 0x77843d3b, 0x85efbe38,
     0xdbfc821c, 0x2997011f, 0x3ac7f2eb, 0xc8ac71e8, 0x1c661503, 0xee0d9600, 0xfd5d65f4, 0x0f36e6f7,
     0x61c69362, 0x93ad1061, 0x80fde395, 0x72966096, 0xa65c047d, 0x5437877e, 0x4767748a, 0xb50cf789,
     0xeb1fcbad, 0x197448ae, 0x0a24bb5a, 0xf84f3859, 0x2c855cb2, 0xdeeedfb1, 0xcdbe2c45, 0x3fd5af46,
     0x7198540d, 0x83f3d70e, 0x90a324fa, 0x62c8a7f9, 0xb602c312, 0x44694011, 0x5739b3e5, 0xa55230e6,
     0xfb410cc2, 0x092a8fc1, 0x1a7a7c35, 0xe811ff36, 0x3cdb9bdd, 0xceb018de, 0xdde0eb2a, 0x2f8b6829,
     0x82f63b78, 0x709db87b, 0x63cd4b8f, 0x91a6c88c, 0x456cac67, 0xb7072f64, 0xa457dc90, 0x563c5f93,
     0x082f63b7, 0xfa44e0b4, 0xe9141340, 0x1b7f9043, 0xcfb5f4a8, 0x3dde77ab, 0x2e8e845f, 0xdce5075c,
     0x92a8fc17, 0x60c37f14, 0x73938ce0, 0x81f80fe3, 0x55326b08, 0xa759e80b, 0xb4091bff, 0x466298fc,
     0x1871a4d8, 0xea1a27db, 0xf94ad42f, 0x0b21572c, 0xdfeb33c7, 0x2d80b0c4, 0x3ed04330, 0xccbbc033,
     0xa24bb5a6, 0x502036a5, 0x4370c551, 0xb11b4652, 0x65d122b9, 0x97baa1ba, 0x84ea524e, 0x7681d14d,
     0x2892ed69, 0xdaf96e6a, 0xc9a99d9e, 0x3bc21e9d, 0xef087a76, 0x1d63f975, 0x0e330a81, 0xfc588982,
     0xb21572c9, 0x407ef1ca, 0x532e023e, 0xa145813d, 0x758fe5d6, 0x87e466d5, 0x94b49521, 0x66df1622,
     0x38cc2a06, 0xcaa7a905, 0xd9f75af1, 0x2b9cd9f2, 0xff56bd19, 0x0d3d3e1a, 0x1e6dcdee, 0xec064eed,
     0xc38d26c4, 0x31e6a5c7, 0x22b65633, 0xd0ddd530, 0x0417b1db, 0xf67c32d8, 0xe52cc12c, 0x1747422f,
     0x49547e0b, 0xbb3ffd08, 0xa86f0efc, 0x5a048dff, 0x8ecee914, 0x7ca56a17, 0x6ff599e3, 0x9d9e1ae0,
     0xd3d3e1ab, 0x21b862a8, 0x32e8915c, 0xc083125f, 0x144976b4, 0xe622f5b7, 0xf5720643, 0x07198540,
     0x590ab964, 0xab613a67, 0xb831c993, 0x4a5a4a90, 0x9e902e7b, 0x6cfbad78, 0x7fab5e8c, 0x8dc0dd8f,
     0xe330a81a, 0x115b2b19, 0x020bd8ed, 0xf0605bee, 0x24aa3f05, 0xd6c1bc06, 0xc5914ff2, 0x37faccf1,
     0x69e9f0d5, 0x9b8273d6, 0x88d28022, 0x7ab90321, 0xae7367ca, 0x5c18e4c9, 0x4f48173d, 0xbd23943e,
     0xf36e6f75, 0x0105ec76, 0x12551f82, 0xe03e9c81, 0x34f4f86a, 0xc69f7b69, 0xd5cf889d, 0x27a40b9e,
     0x79b737ba, 0x8bdcb4b9, 0x988c474d, 0x6ae7c44e, 0xbe2da0a5, 0x4c4623a6, 0x5f16d052, 0xad7d5351]"

definition table1 :: "32 word list" where
  "table1 = [
     0x00000000, 0x13a29877, 0x274530ee, 0x34e7a899, 0x4e8a61dc, 0x5d28f9ab, 0x69cf5132, 0x7a6dc945,
     0x9d14c3b8, 0x8eb65bcf, 0xba51f356, 0xa9f36b21, 0xd39ea264, 0xc03c3a13, 0xf4db928a, 0xe7790afd,
     0x3fc5f181, 0x2c6769f6, 0x1880c16f, 0x0b225918, 0x714f905d, 0x62ed082a, 0x560aa0b3, 0x45a838c4,
     0xa2d13239, 0xb173aa4e, 0x859402d7, 0x96369aa0, 0xec5b53e5, 0xfff9cb92, 0xcb1e630b, 0xd8bcfb7c,
     0x7f8be302, 0x6c297b75, 0x58ced3ec, 0x4b6c4b9b, 0x310182de, 0x22a31aa9, 0x1644b230, 0x05e62a47,
     0xe29f20ba, 0xf13db8cd, 0xc5da1054, 0xd6788823, 0xac154166, 0xbfb7d911, 0x8b507188, 0x98f2e9ff,
     0x404e1283, 0x53ec8af4, 0x670b226d, 0x74a9ba1a, 0x0ec4735f, 0x1d66eb28, 0x298143b1, 0x3a23dbc6,
     0xdd5ad13b, 0xcef8494c, 0xfa1fe1d5, 0xe9bd79a2, 0x93d0b0e7, 0x80722890, 0xb4958009, 0xa737187e,
     0xff17c604, 0xecb55e73, 0xd852f6ea, 0xcbf06e9d, 0xb19da7d8, 0xa23f3faf, 0x96d89736, 0x857a0f41,
     0x620305bc, 0x71a19dcb, 0x45463552, 0x56e4ad25, 0x2c896460, 0x3f2bfc17, 0x0bcc548e, 0x186eccf9,
     0xc0d23785, 0xd370aff2, 0xe797076b, 0xf4359f1c, 0x8e585659, 0x9dface2e, 0xa91d66b7, 0xbabffec0,
     0x5dc6f43d, 0x4e646c4a, 0x7a83c4d3, 0x69215ca4, 0x134c95e1, 0x00ee0d96, 0x3409a50f, 0x27ab3d78,
     0x809c2506, 0x933ebd71, 0xa7d915e8, 0xb47b8d9f, 0xce1644da, 0xddb4dcad, 0xe9537434, 0xfaf1ec43,
     0x1d88e6be, 0x0e2a7ec9, 0x3acdd650, 0x296f4e27, 0x53028762, 0x40a01f15, 0x7447b78c, 0x67e52ffb,
     0xbf59d487, 0xacfb4cf0, 0x981ce469, 0x8bbe7c1e, 0xf1d3b55b, 0xe2712d2c, 0xd69685b5, 0xc5341dc2,
     0x224d173f, 0x31ef8f48, 0x050827d1, 0x16aabfa6, 0x6cc776e3, 0x7f65ee94, 0x4b82460d, 0x5820de7a,
     0xfbc3faf9, 0xe861628e, 0xdc86ca17, 0xcf245260, 0xb5499b25, 0xa6eb0352, 0x920cabcb, 0x81ae33bc,
     0x66d73941, 0x7575a136, 0x419209af, 0x523091d8, 0x285d589d, 0x3bffc0ea, 0x0f186873, 0x1cbaf004,
     0xc4060b78, 0xd7a4930f, 0xe3433b96, 0xf0e1a3e1, 0x8a8c6aa4, 0x992ef2d3, 0xadc95a4a, 0xbe6bc23d,
     0x5912c8c0, 0x4ab050b7, 0x7e57f82e, 0x6df56059, 0x1798a91c, 0x043a316b, 0x30dd99f2, 0x237f0185,
     0x844819fb, 0x97ea818c, 0xa30d2915, 0xb0afb162, 0xcac27827, 0xd960e050, 0xed8748c9, 0xfe25d0be,
     0x195cda43, 0x0afe4234, 0x3e19eaad, 0x2dbb72da, 0x57d6bb9f, 0x447423e8, 0x70938b71, 0x63311306,
     0xbb8de87a, 0xa82f700d, 0x9cc8d894, 0x8f6a40e3, 0xf50789a6, 0xe6a511d1, 0xd242b948, 0xc1e0213f,
     0x26992bc2, 0x353bb3b5, 0x01dc1b2c, 0x127e835b, 0x68134a1e, 0x7bb1d269, 0x4f567af0, 0x5cf4e287,
     0x04d43cfd, 0x1776a48a, 0x23910c13, 0x30339464, 0x4a5e5d21, 0x59fcc556, 0x6d1b6dcf, 0x7eb9f5b8,
     0x99c0ff45, 0x8a626732, 0xbe85cfab, 0xad2757dc, 0xd74a9e99, 0xc4e806ee, 0xf00fae77, 0xe3ad3600,
     0x3b11cd7c, 0x28b3550b, 0x1c54fd92, 0x0ff665e5, 0x759baca0, 0x663934d7, 0x52de9c4e, 0x417c0439,
     0xa6050ec4, 0xb5a796b3, 0x81403e2a, 0x92e2a65d, 0xe88f6f18, 0xfb2df76f, 0xcfca5ff6, 0xdc68c781,
     0x7b5fdfff, 0x68fd4788, 0x5c1aef11, 0x4fb87766, 0x35d5be23, 0x26772654, 0x12908ecd, 0x013216ba,
     0xe64b1c47, 0xf5e98430, 0xc10e2ca9, 0xd2acb4de, 0xa8c17d9b, 0xbb63e5ec, 0x8f844d75, 0x9c26d502,
     0x449a2e7e, 0x5738b609, 0x63df1e90, 0x707d86e7, 0x0a104fa2, 0x19b2d7d5, 0x2d557f4c, 0x3ef7e73b,
     0xd98eedc6, 0xca2c75b1, 0xfecbdd28, 0xed69455f, 0x97048c1a, 0x84a6146d, 0xb041bcf4, 0xa3e32483]"

definition table2 :: "32 word list" where
  "table2 = [
     0x00000000, 0xa541927e, 0x4f6f520d, 0xea2ec073, 0x9edea41a, 0x3b9f3664, 0xd1b1f617, 0x74f06469,
     0x38513ec5, 0x9d10acbb, 0x773e6cc8, 0xd27ffeb6, 0xa68f9adf, 0x03ce08a1, 0xe9e0c8d2, 0x4ca15aac,
     0x70a27d8a, 0xd5e3eff4, 0x3fcd2f87, 0x9a8cbdf9, 0xee7cd990, 0x4b3d4bee, 0xa1138b9d, 0x045219e3,
     0x48f3434f, 0xedb2d131, 0x079c1142, 0xa2dd833c, 0xd62de755, 0x736c752b, 0x9942b558, 0x3c032726,
     0xe144fb14, 0x4405696a, 0xae2ba919, 0x0b6a3b67, 0x7f9a5f0e, 0xdadbcd70, 0x30f50d03, 0x95b49f7d,
     0xd915c5d1, 0x7c5457af, 0x967a97dc, 0x333b05a2, 0x47cb61cb, 0xe28af3b5, 0x08a433c6, 0xade5a1b8,
     0x91e6869e, 0x34a714e0, 0xde89d493, 0x7bc846ed, 0x0f382284, 0xaa79b0fa, 0x40577089, 0xe516e2f7,
     0xa9b7b85b, 0x0cf62a25, 0xe6d8ea56, 0x43997828, 0x37691c41, 0x92288e3f, 0x78064e4c, 0xdd47dc32,
     0xc76580d9, 0x622412a7, 0x880ad2d4, 0x2d4b40aa, 0x59bb24c3, 0xfcfab6bd, 0x16d476ce, 0xb395e4b0,
     0xff34be1c, 0x5a752c62, 0xb05bec11, 0x151a7e6f, 0x61ea1a06, 0xc4ab8878, 0x2e85480b, 0x8bc4da75,
     0xb7c7fd53, 0x12866f2d, 0xf8a8af5e, 0x5de93d20, 0x29195949, 0x8c58cb37, 0x66760b44, 0xc337993a,
     0x8f96c396, 0x2ad751e8, 0xc0f9919b, 0x65b803e5, 0x1148678c, 0xb409f5f2, 0x5e273581, 0xfb66a7ff,
     0x26217bcd, 0x8360e9b3, 0x694e29c0, 0xcc0fbbbe, 0xb8ffdfd7, 0x1dbe4da9, 0xf7908dda, 0x52d11fa4,
     0x1e704508, 0xbb31d776, 0x511f1705, 0xf45e857b, 0x80aee112, 0x25ef736c, 0xcfc1b31f, 0x6a802161,
     0x56830647, 0xf3c29439, 0x19ec544a, 0xbcadc634, 0xc85da25d, 0x6d1c3023, 0x8732f050, 0x2273622e,
     0x6ed23882, 0xcb93aafc, 0x21bd6a8f, 0x84fcf8f1, 0xf00c9c98, 0x554d0ee6, 0xbf63ce95, 0x1a225ceb,
     0x8b277743, 0x2e66e53d, 0xc448254e, 0x6109b730, 0x15f9d359, 0xb0b84127, 0x5a968154, 0xffd7132a,
     0xb3764986, 0x1637dbf8, 0xfc191b8b, 0x595889f5, 0x2da8ed9c, 0x88e97fe2, 0x62c7bf91, 0xc7862def,
     0xfb850ac9, 0x5ec498b7, 0xb4ea58c4, 0x11abcaba, 0x655baed3, 0xc01a3cad, 0x2a34fcde, 0x8f756ea0,
     0xc3d4340c, 0x6695a672, 0x8cbb6601, 0x29faf47f, 0x5d0a9016, 0xf84b0268, 0x1265c21b, 0xb7245065,
     0x6a638c57, 0xcf221e29, 0x250cde5a, 0x804d4c24, 0xf4bd284d, 0x51fcba33, 0xbbd27a40, 0x1e93e83e,
     0x5232b292, 0xf77320ec, 0x1d5de09f, 0xb81c72e1, 0xccec1688, 0x69ad84f6, 0x83834485, 0x26c2d6fb,
     0x1ac1f1dd, 0xbf8063a3, 0x55aea3d0, 0xf0ef31ae, 0x841f55c7, 0x215ec7b9, 0xcb7007ca, 0x6e3195b4,
     0x2290cf18, 0x87d15d66, 0x6dff9d15, 0xc8be0f6b, 0xbc4e6b02, 0x190ff97c, 0xf321390f, 0x5660ab71,
     0x4c42f79a, 0xe90365e4, 0x032da597, 0xa66c37e9, 0xd29c5380, 0x77ddc1fe, 0x9df3018d, 0x38b293f3,
     0x7413c95f, 0xd1525b21, 0x3b7c9b52, 0x9e3d092c, 0xeacd6d45, 0x4f8cff3b, 0xa5a23f48, 0x00e3ad36,
     0x3ce08a10, 0x99a1186e, 0x738fd81d, 0xd6ce4a63, 0xa23e2e0a, 0x077fbc74, 0xed517c07, 0x4810ee79,
     0x04b1b4d5, 0xa1f026ab, 0x4bdee6d8, 0xee9f74a6, 0x9a6f10cf, 0x3f2e82b1, 0xd50042c2, 0x7041d0bc,
     0xad060c8e, 0x08479ef0, 0xe2695e83, 0x4728ccfd, 0x33d8a894, 0x96993aea, 0x7cb7fa99, 0xd9f668e7,
     0x9557324b, 0x3016a035, 0xda386046, 0x7f79f238, 0x0b899651, 0xaec8042f, 0x44e6c45c, 0xe1a75622,
     0xdda47104, 0x78e5e37a, 0x92cb2309, 0x378ab177, 0x437ad51e, 0xe63b4760, 0x0c158713, 0xa954156d,
     0xe5f54fc1, 0x40b4ddbf, 0xaa9a1dcc, 0x0fdb8fb2, 0x7b2bebdb, 0xde6a79a5, 0x3444b9d6, 0x91052ba8]"

definition table3 :: "32 word list" where
  "table3 = [
     0x00000000, 0xdd45aab8, 0xbf672381, 0x62228939, 0x7b2231f3, 0xa6679b4b, 0xc4451272, 0x1900b8ca,
     0xf64463e6, 0x2b01c95e, 0x49234067, 0x9466eadf, 0x8d665215, 0x5023f8ad, 0x32017194, 0xef44db2c,
     0xe964b13d, 0x34211b85, 0x560392bc, 0x8b463804, 0x924680ce, 0x4f032a76, 0x2d21a34f, 0xf06409f7,
     0x1f20d2db, 0xc2657863, 0xa047f15a, 0x7d025be2, 0x6402e328, 0xb9474990, 0xdb65c0a9, 0x06206a11,
     0xd725148b, 0x0a60be33, 0x6842370a, 0xb5079db2, 0xac072578, 0x71428fc0, 0x136006f9, 0xce25ac41,
     0x2161776d, 0xfc24ddd5, 0x9e0654ec, 0x4343fe54, 0x5a43469e, 0x8706ec26, 0xe524651f, 0x3861cfa7,
     0x3e41a5b6, 0xe3040f0e, 0x81268637, 0x5c632c8f, 0x45639445, 0x98263efd, 0xfa04b7c4, 0x27411d7c,
     0xc805c650, 0x15406ce8, 0x7762e5d1, 0xaa274f69, 0xb327f7a3, 0x6e625d1b, 0x0c40d422, 0xd1057e9a,
     0xaba65fe7, 0x76e3f55f, 0x14c17c66, 0xc984d6de, 0xd0846e14, 0x0dc1c4ac, 0x6fe34d95, 0xb2a6e72d,
     0x5de23c01, 0x80a796b9, 0xe2851f80, 0x3fc0b538, 0x26c00df2, 0xfb85a74a, 0x99a72e73, 0x44e284cb,
     0x42c2eeda, 0x9f874462, 0xfda5cd5b, 0x20e067e3, 0x39e0df29, 0xe4a57591, 0x8687fca8, 0x5bc25610,
     0xb4868d3c, 0x69c32784, 0x0be1aebd, 0xd6a40405, 0xcfa4bccf, 0x12e11677, 0x70c39f4e, 0xad8635f6,
     0x7c834b6c, 0xa1c6e1d4, 0xc3e468ed, 0x1ea1c255, 0x07a17a9f, 0xdae4d027, 0xb8c6591e, 0x6583f3a6,
     0x8ac7288a, 0x57828232, 0x35a00b0b, 0xe8e5a1b3, 0xf1e51979, 0x2ca0b3c1, 0x4e823af8, 0x93c79040,
     0x95e7fa51, 0x48a250e9, 0x2a80d9d0, 0xf7c57368, 0xeec5cba2, 0x3380611a, 0x51a2e823, 0x8ce7429b,
     0x63a399b7, 0xbee6330f, 0xdcc4ba36, 0x0181108e, 0x1881a844, 0xc5c402fc, 0xa7e68bc5, 0x7aa3217d,
     0x52a0c93f, 0x8fe56387, 0xedc7eabe, 0x30824006, 0x2982f8cc, 0xf4c75274, 0x96e5db4d, 0x4ba071f5,
     0xa4e4aad9, 0x79a10061, 0x1b838958, 0xc6c623e0, 0xdfc69b2a, 0x02833192, 0x60a1b8ab, 0xbde41213,
     0xbbc47802, 0x6681d2ba, 0x04a35b83, 0xd9e6f13b, 0xc0e649f1, 0x1da3e349, 0x7f816a70, 0xa2c4c0c8,
     0x4d801be4, 0x90c5b15c, 0xf2e73865, 0x2fa292dd, 0x36a22a17, 0xebe780af, 0x89c50996, 0x5480a32e,
     0x8585ddb4, 0x58c0770c, 0x3ae2fe35, 0xe7a7548d, 0xfea7ec47, 0x23e246ff, 0x41c0cfc6, 0x9c85657e,
     0x73c1be52, 0xae8414ea, 0xcca69dd3, 0x11e3376b, 0x08e38fa1, 0xd5a62519, 0xb784ac20, 0x6ac10698,
     0x6ce16c89, 0xb1a4c631, 0xd3864f08, 0x0ec3e5b0, 0x17c35d7a, 0xca86f7c2, 0xa8a47efb, 0x75e1d443,
     0x9aa50f6f, 0x47e0a5d7, 0x25c22cee, 0xf8878656, 0xe1873e9c, 0x3cc29424, 0x5ee01d1d, 0x83a5b7a5,
     0xf90696d8, 0x24433c60, 0x4661b559, 0x9b241fe1, 0x8224a72b, 0x5f610d93, 0x3d4384aa, 0xe0062e12,
     0x0f42f53e, 0xd2075f86, 0xb025d6bf, 0x6d607c07, 0x7460c4cd, 0xa9256e75, 0xcb07e74c, 0x16424df4,
     0x106227e5, 0xcd278d5d, 0xaf050464, 0x7240aedc, 0x6b401616, 0xb605bcae, 0xd4273597, 0x09629f2f,
     0xe6264403, 0x3b63eebb, 0x59416782, 0x8404cd3a, 0x9d0475f0, 0x4041df48, 0x22635671, 0xff26fcc9,
     0x2e238253, 0xf36628eb, 0x9144a1d2, 0x4c010b6a, 0x5501b3a0, 0x88441918, 0xea669021, 0x37233a99,
     0xd867e1b5, 0x05224b0d, 0x6700c234, 0xba45688c, 0xa345d046, 0x7e007afe, 0x1c22f3c7, 0xc167597f,
     0xc747336e, 0x1a0299d6, 0x782010ef, 0xa565ba57, 0xbc65029d, 0x6120a825, 0x0302211c, 0xde478ba4,
     0x31035088, 0xec46fa30, 0x8e647309, 0x5321d9b1, 0x4a21617b, 0x9764cbc3, 0xf54642fa, 0x2803e842]"

section \<open>The steps\<close>

text \<open>The accumulator is 64 bits wide in the code; the upper half stays zero.\<close>

definition STEP1 :: "64 word \<Rightarrow> uint1 \<Rightarrow> 64 word" where
  "STEP1 l p = (let c = (l AND 0xff) XOR ucast p in ucast (table0 ! unat c) XOR drop_bit 8 l)"

definition Slow_CRC32_4 :: "64 word \<Rightarrow> uint1 list \<Rightarrow> 64 word" where
  "Slow_CRC32_4 l p =
     (let c = ucast (l XOR ucast (DecodeFixed32 p)) :: 32 word
      in ucast (table3 ! unat (c AND 0xff) XOR table2 ! unat (drop_bit 8 c AND 0xff)
           XOR table1 ! unat (drop_bit 16 c AND 0xff) XOR table0 ! unat (drop_bit 24 c)))"

definition Slow_CRC32 :: "64 word \<Rightarrow> uint1 list \<Rightarrow> 64 word \<times> uint1 list" where
  "Slow_CRC32 l p =
     (let l1 = Slow_CRC32_4 l p; p1 = drop 4 p; l2 = Slow_CRC32_4 l1 p1 in (l2, drop 4 p1))"

text \<open>\<open>mm\<close> is the instruction \<open>crc32\<close> of the processor on 64 bits of data.\<close>

definition Fast_CRC32 :: "(64 word \<Rightarrow> 64 word \<Rightarrow> 64 word) \<Rightarrow> 64 word \<Rightarrow> uint1 list \<Rightarrow> 64 word \<times> uint1 list" where
  "Fast_CRC32 mm l p = (mm l (DecodeFixed64 p), drop 8 p)"

section \<open>The loops\<close>

type_synonym paso_crc = "64 word \<Rightarrow> uint1 list \<Rightarrow> 64 word \<times> uint1 list"

definition ALIGN :: "nat \<Rightarrow> nat \<Rightarrow> nat" where
  "ALIGN n m = (n + (2 ^ m - 1)) div 2 ^ m * 2 ^ m"

fun de_a_16 :: "paso_crc \<Rightarrow> nat \<Rightarrow> 64 word \<Rightarrow> uint1 list \<Rightarrow> 64 word \<times> uint1 list" where
  "de_a_16 CRC32 0 l p = (l, p)"
| "de_a_16 CRC32 (Suc n) l p =
     (if 16 \<le> length p
      then (case CRC32 l p of (l1, p1) \<Rightarrow> case CRC32 l1 p1 of (l2, p2) \<Rightarrow> de_a_16 CRC32 n l2 p2)
      else (l, p))"

fun de_a_8 :: "paso_crc \<Rightarrow> nat \<Rightarrow> 64 word \<Rightarrow> uint1 list \<Rightarrow> 64 word \<times> uint1 list" where
  "de_a_8 CRC32 0 l p = (l, p)"
| "de_a_8 CRC32 (Suc n) l p =
     (if 8 \<le> length p then (case CRC32 l p of (l1, p1) \<Rightarrow> de_a_8 CRC32 n l1 p1) else (l, p))"

text \<open>
  \<open>pval\<close> is the address of the data. The two middle loops take at least eight bytes in a
  turn, so the number of bytes bounds their turns.
\<close>

definition ExtendImpl :: "paso_crc \<Rightarrow> nat \<Rightarrow> 32 word \<Rightarrow> uint1 list \<Rightarrow> 32 word" where
  "ExtendImpl CRC32 pval crc buf =
     (let l = ucast (crc XOR 0xffffffff) :: 64 word;
          x = ALIGN pval 4;
          n = (if x \<le> pval + length buf then x - pval else 0);
          l1 = foldl STEP1 l (take n buf);
          (l2, p2) = de_a_16 CRC32 (length buf) l1 (drop n buf);
          (l3, p3) = de_a_8 CRC32 (length buf) l2 p2;
          l4 = foldl STEP1 l3 p3
      in ucast (l4 XOR 0xffffffff))"

text \<open>
  The processor: \<open>Some mm\<close> when it has the instruction, which is what \<open>isSSE42\<close> asks.
\<close>

type_synonym procesador = "(64 word \<Rightarrow> 64 word \<Rightarrow> 64 word) option"

definition Extend :: "procesador \<Rightarrow> nat \<Rightarrow> 32 word \<Rightarrow> uint1 list \<Rightarrow> 32 word" where
  "Extend cpu pval =
     (case cpu of Some mm \<Rightarrow> ExtendImpl (Fast_CRC32 mm) pval | None \<Rightarrow> ExtendImpl Slow_CRC32 pval)"

definition crc32c_Value :: "procesador \<Rightarrow> nat \<Rightarrow> uint1 list \<Rightarrow> 32 word" where
  "crc32c_Value cpu pval = Extend cpu pval 0"

section \<open>Masking\<close>

definition kMaskDelta :: "32 word" where
  "kMaskDelta = 0xa282ead8"

definition Mask :: "32 word \<Rightarrow> 32 word" where
  "Mask crc = (drop_bit 15 crc OR push_bit 17 crc) + kMaskDelta"

definition Unmask :: "32 word \<Rightarrow> 32 word" where
  "Unmask masked_crc = (let rot = masked_crc - kMaskDelta in drop_bit 17 rot OR push_bit 15 rot)"

lemma Unmask_Mask [simp]: "Unmask (Mask crc) = crc"
proof (rule bit_word_eqI)
  fix n :: nat
  have "\<not> n < 15 \<Longrightarrow> 15 + (n - 15) = n" by arith
  then show "n < LENGTH(32) \<Longrightarrow> bit (Unmask (Mask crc)) n = bit crc n"
    by (cases "n < 15") (auto simp: Unmask_def Mask_def Let_def bit_simps)
qed

section \<open>One bit at a time\<close>

definition paso_bit :: "32 word \<Rightarrow> 32 word" where
  "paso_bit x = (if odd x then drop_bit 1 x XOR 0x82f63b78 else drop_bit 1 x)"

definition pasos :: "nat \<Rightarrow> 32 word \<Rightarrow> 32 word" where
  "pasos n = paso_bit ^^ n"

lemma pasos_add: "pasos (m + n) x = pasos m (pasos n x)"
  by (simp add: pasos_def funpow_add)

lemma paso_bit_xor: "paso_bit (x XOR y) = paso_bit x XOR paso_bit y"
  by (auto simp: paso_bit_def even_xor_iff ac_simps)

lemma pasos_xor: "pasos n (x XOR y) = pasos n x XOR pasos n y"
  by (induction n) (simp_all add: pasos_def paso_bit_xor)

lemma pasos_0 [simp]: "pasos n 0 = 0"
  by (induction n) (simp_all add: pasos_def paso_bit_def)

text \<open>Bits that are zero at the bottom are shifted out without touching the rest.\<close>

lemma pasos_push_bit: "drop_bit (32 - n) y = 0 \<Longrightarrow> pasos n (push_bit n y) = y"
proof (induction n)
  case (Suc n)
  have "drop_bit 1 (push_bit (Suc n) y) = push_bit n y"
  proof (rule bit_word_eqI)
    fix k assume k: "k < LENGTH(32)"
    show "bit (drop_bit 1 (push_bit (Suc n) y)) k = bit (push_bit n y) k"
      using k drop_bit_0D [OF Suc.prems, of "k - n"] by (auto simp: bit_simps simp del: push_bit_Suc)
  qed
  then have "paso_bit (push_bit (Suc n) y) = push_bit n y" by (simp add: paso_bit_def)
  moreover have "drop_bit (32 - n) y = 0"
    using Suc.prems drop_bit_drop_bit [of 1 "32 - Suc n" y]
    by (cases "n < 32") (simp_all add: Suc_diff_le [symmetric])
  ultimately show ?case
    using Suc.IH by (simp add: pasos_def funpow_Suc_right del: funpow.simps push_bit_Suc)
qed (simp add: pasos_def)

lemma and_255: "x AND 0xff = take_bit 8 x" for x :: "'a::len word"
  by (simp add: take_bit_eq_mask mask_numeral)

lemma pasos_8: "pasos 8 x = pasos 8 (x AND 0xff) XOR drop_bit 8 x"
proof -
  have "x = (x AND 0xff) XOR push_bit 8 (drop_bit 8 x)"
    unfolding and_255 by (rule bit_word_eqI) (auto simp: bit_simps)
  then have "pasos 8 x = pasos 8 (x AND 0xff) XOR pasos 8 (push_bit 8 (drop_bit 8 x))"
    using pasos_xor [of 8 "x AND 0xff" "push_bit 8 (drop_bit 8 x)"] by simp
  moreover have "drop_bit (32 - 8) (drop_bit 8 x) = 0"
    by (rule bit_word_eqI) (simp add: bit_simps bit_imp_le_length)
  ultimately show ?thesis by (simp add: pasos_push_bit)
qed

section \<open>The tables hold the steps\<close>

text \<open>
  A linear function on bytes is given by its values at the eight powers of two: the table
  of all its values is made by combining them.
\<close>

fun combina :: "32 word list \<Rightarrow> 32 word list" where
  "combina [] = [0]"
| "combina (b # bs) = (let s = combina bs in s @ map (\<lambda>x. b XOR x) s)"

fun potencias :: "nat \<Rightarrow> nat list" where
  "potencias 0 = []"
| "potencias (Suc k) = 2 ^ k # potencias k"

lemma length_combina: "length (combina bs) = 2 ^ length bs"
  by (induction bs) (simp_all add: Let_def)

lemma length_potencias [simp]: "length (potencias k) = k"
  by (induction k) simp_all

lemma combina_lineal:
  fixes f :: "32 word \<Rightarrow> 32 word"
  assumes "\<And>x y. f (x XOR y) = f x XOR f y" and "f 0 = 0" and "i < 2 ^ k" and "k \<le> 32"
  shows "combina (map (\<lambda>n. f (of_nat n)) (potencias k)) ! i = f (of_nat i)"
  using assms(3,4)
proof (induction k arbitrary: i)
  case (Suc k)
  let ?s = "combina (map (\<lambda>n. f (of_nat n)) (potencias k))"
  have len: "length ?s = 2 ^ k" by (simp add: length_combina)
  show ?case
  proof (cases "i < 2 ^ k")
    case True
    then show ?thesis using Suc len by (simp add: Let_def nth_append)
  next
    case False
    then obtain j where i: "i = 2 ^ k + j" by (metis not_less le_Suc_ex)
    have j: "j < 2 ^ k" using Suc.prems i by simp
    then have "\<not> bit (of_nat j :: 32 word) k" unfolding bit_of_nat_iff by (simp add: bit_iff_odd)
    then have "2 ^ k AND (of_nat j :: 32 word) = 0"
      using and_exp_eq_0_iff_not_bit [of "of_nat j :: 32 word" k] by (simp add: and.commute)
    then have "(of_nat i :: 32 word) = 2 ^ k XOR of_nat j"
      by (simp add: i disjunctive_add_eq_xor)
    then show ?thesis using Suc.IH [OF j] Suc.prems j i len assms(1) by (simp add: Let_def nth_append)
  qed
qed (simp add: assms(2))


text \<open>Evaluating a step on a literal.\<close>

lemma paso_bit_of_nat:
  assumes "n < 2 ^ 32"
  shows "paso_bit (of_nat n) = of_nat (if odd n then (n div 2) XOR 0x82f63b78 else n div 2)"
proof -
  have "unat (drop_bit 1 (of_nat n :: 32 word)) = unat (of_nat (n div 2) :: 32 word)"
    using assms by (simp add: unat_drop_bit_eq unat_of_nat drop_bit_nat_def)
  then have "drop_bit 1 (of_nat n :: 32 word) = of_nat (n div 2)" by (simp add: word_unat_eq_iff)
  then show ?thesis by (simp add: paso_bit_def of_nat_xor_eq)
qed

lemma pasos_Suc: "pasos (Suc n) x = pasos n (paso_bit x)"
  by (simp add: pasos_def funpow_Suc_right del: funpow.simps)

lemma paso_bit_numeral:
  "numeral w < (2 ^ 32 :: nat) \<Longrightarrow> paso_bit (numeral w) =
     of_nat (if odd (numeral w :: nat) then (numeral w div 2) XOR 0x82f63b78 else numeral w div 2)"
  using paso_bit_of_nat [of "numeral w"] by simp

lemma pasos_8_eval: "pasos 8 x =
    paso_bit (paso_bit (paso_bit (paso_bit (paso_bit (paso_bit (paso_bit (paso_bit x)))))))"
  by (simp add: pasos_def eval_nat_numeral)

lemma paso_bit_1: "paso_bit 1 = 0x82f63b78"
  by (simp add: paso_bit_def)

lemma potencias_8: "potencias 8 = [128, 64, 32, 16, 8, 4, 2, 1]"
  by (simp add: eval_nat_numeral)

lemma table0_combina: "table0 = combina
    [0x82f63b78, 0x417b1dbc, 0x20bd8ede, 0x105ec76f,
     0x8ad958cf, 0xc79a971f, 0xe13b70f7, 0xf26b8303]"
  by (simp add: table0_def)

lemma table1_combina: "table1 = combina
    [0xfbc3faf9, 0xff17c604, 0x7f8be302, 0x3fc5f181,
     0x9d14c3b8, 0x4e8a61dc, 0x274530ee, 0x13a29877]"
  by (simp add: table1_def)

lemma table2_combina: "table2 = combina
    [0x8b277743, 0xc76580d9, 0xe144fb14, 0x70a27d8a,
     0x38513ec5, 0x9edea41a, 0x4f6f520d, 0xa541927e]"
  by (simp add: table2_def)

lemma table3_combina: "table3 = combina
    [0x52a0c93f, 0xaba65fe7, 0xd725148b, 0xe964b13d,
     0xf64463e6, 0x7b2231f3, 0xbf672381, 0xdd45aab8]"
  by (simp add: table3_def)

text \<open>The effect of \<open>n\<close> steps on the powers of two, and the tables that combine them.\<close>

definition base :: "nat \<Rightarrow> 32 word list" where
  "base n = map (\<lambda>i. pasos n (of_nat i)) (potencias 8)"

lemma base_nth: "unat x < 256 \<Longrightarrow> combina (base n) ! unat x = pasos n x" for x :: "32 word"
  using combina_lineal [of "pasos n" "unat x" 8] by (simp add: base_def pasos_xor)

lemma base_sigue: "base (8 + n) = map (pasos 8) (base n)"
  by (simp add: base_def pasos_add)

lemmas paso_eval = pasos_8_eval paso_bit_numeral paso_bit_1

lemma base_8: "base 8 =
    [0x82f63b78, 0x417b1dbc, 0x20bd8ede, 0x105ec76f,
     0x8ad958cf, 0xc79a971f, 0xe13b70f7, 0xf26b8303]"
  by (simp add: base_def potencias_8 paso_eval)

lemma base_16: "base 16 =
    [0xfbc3faf9, 0xff17c604, 0x7f8be302, 0x3fc5f181,
     0x9d14c3b8, 0x4e8a61dc, 0x274530ee, 0x13a29877]"
  using base_sigue [of 8] by (simp add: base_8 paso_eval)

lemma base_24: "base 24 =
    [0x8b277743, 0xc76580d9, 0xe144fb14, 0x70a27d8a,
     0x38513ec5, 0x9edea41a, 0x4f6f520d, 0xa541927e]"
  using base_sigue [of 16] by (simp add: base_16 paso_eval)

lemma base_32: "base 32 =
    [0x52a0c93f, 0xaba65fe7, 0xd725148b, 0xe964b13d,
     0xf64463e6, 0x7b2231f3, 0xbf672381, 0xdd45aab8]"
  using base_sigue [of 24] by (simp add: base_24 paso_eval)

lemma tables_nth:
  assumes "unat x < 256"
  shows "table0 ! unat x = pasos 8 x" "table1 ! unat x = pasos 16 x" "table2 ! unat x = pasos 24 x"
    "table3 ! unat x = pasos 32 x"
  using base_nth [OF assms, of 8] base_nth [OF assms, of 16] base_nth [OF assms, of 24] base_nth [OF assms, of 32]
  unfolding table0_combina table1_combina table2_combina table3_combina base_8 base_16 base_24 base_32 .

section \<open>The steps of the code are steps of the reference\<close>

definition crc_byte :: "32 word \<Rightarrow> uint1 \<Rightarrow> 32 word" where
  "crc_byte x b = pasos 8 (x XOR ucast b)"

lemma unat_64 [simp]: "unat (ucast x :: 64 word) = unat x" for x :: "32 word"
  by (simp add: unsigned_ucast_eq take_bit_nat_eq_self_iff less_trans [OF unsigned_less])

lemma unat_byte_less: "unat (take_bit 8 x) < 256" for x :: "32 word"
  by (simp add: unsigned_take_bit_eq take_bit_nat_def)

lemma STEP1_ucast: "STEP1 (ucast x) b = ucast (crc_byte x b)"
proof -
  let ?c = "(x AND 0xff) XOR ucast b"
  have c: "(x XOR ucast b) AND 0xff = ?c" "drop_bit 8 (x XOR ucast b) = drop_bit 8 x"
    unfolding and_255 by (rule bit_word_eqI; auto simp: bit_simps dest: bit_imp_le_length)+
  have "?c = take_bit 8 ?c" using c(1) unfolding and_255 by (metis take_bit_take_bit min.idem)
  then have lt: "unat ?c < 256" by (metis unat_byte_less)
  have u: "((ucast x :: 64 word) AND 0xff) XOR ucast b = ucast ?c"
    unfolding and_255 by (rule bit_word_eqI) (auto simp: bit_simps dest: bit_imp_le_length)
  have "STEP1 (ucast x) b = ucast (pasos 8 ?c) XOR drop_bit 8 (ucast x)"
    by (simp add: STEP1_def u tables_nth [OF lt])
  also have "\<dots> = ucast (pasos 8 ?c XOR drop_bit 8 x)"
    by (rule bit_word_eqI) (auto simp: bit_simps dest: bit_imp_le_length)
  finally show ?thesis
    using pasos_8 [of "x XOR ucast b"] c by (simp add: crc_byte_def)
qed

lemma foldl_STEP1: "foldl STEP1 (ucast x) bs = ucast (foldl crc_byte x bs)"
  by (induction bs arbitrary: x) (simp_all add: STEP1_ucast)

lemma pasos_corta: "pasos (8 + n) x = pasos (8 + n) (x AND 0xff) XOR pasos n (drop_bit 8 x)"
  using pasos_8 [of x] pasos_xor [of n] by (simp add: pasos_add add.commute [of 8 n])

lemma pasos_32:
  "pasos 32 c = pasos 32 (c AND 0xff) XOR pasos 24 (drop_bit 8 c AND 0xff)
     XOR pasos 16 (drop_bit 16 c AND 0xff) XOR pasos 8 (drop_bit 24 c)"
  using pasos_corta [of 24 c] pasos_corta [of 16 "drop_bit 8 c"] pasos_corta [of 8 "drop_bit 16 c"]
  by (simp add: drop_bit_drop_bit xor.assoc)

text \<open>Four bytes one after another, and as one word.\<close>

lemma crc_byte_junta:
  assumes "k + 8 \<le> 32"
  shows "crc_byte (pasos k y) b = pasos (8 + k) (y XOR push_bit k (ucast b))"
proof -
  have "drop_bit (32 - k) (ucast b :: 32 word) = 0"
    by (rule bit_word_eqI) (use assms in \<open>auto simp: bit_simps dest!: bit_imp_le_length\<close>)
  then show ?thesis by (simp add: crc_byte_def pasos_add pasos_xor pasos_push_bit)
qed

lemma crc_4_bytes:
  "foldl crc_byte x [b0, b1, b2, b3] = pasos 32 (x XOR DecodeFixed32 (b0 # b1 # b2 # b3 # bs))"
proof -
  have "foldl crc_byte x [b0, b1, b2, b3]
      = pasos 32 (x XOR ucast b0 XOR push_bit 8 (ucast b1) XOR push_bit 16 (ucast b2) XOR push_bit 24 (ucast b3))"
    using crc_byte_junta [of 8 "x XOR ucast b0" b1] 
      crc_byte_junta [of 16 "x XOR ucast b0 XOR push_bit 8 (ucast b1)" b2]
      crc_byte_junta [of 24 "x XOR ucast b0 XOR push_bit 8 (ucast b1) XOR push_bit 16 (ucast b2)" b3]
    by (simp add: crc_byte_def [of x b0] xor.assoc)
  moreover have "DecodeFixed32 (b0 # b1 # b2 # b3 # bs)
      = ucast b0 XOR push_bit 8 (ucast b1) XOR push_bit 16 (ucast b2) XOR push_bit 24 (ucast b3)"
    unfolding DecodeFixed32_def
    by (rule bit_word_eqI) (auto simp: bit_simps dest: bit_imp_le_length)
  ultimately show ?thesis by simp
qed

lemma unat_alto_less: "unat (drop_bit 24 c) < 256" for c :: "32 word"
  using unsigned_less [of c, where 'a = nat] by (simp add: unat_drop_bit_eq drop_bit_nat_def less_mult_imp_div_less)

lemma Slow_CRC32_4_bytes:
  assumes "4 \<le> length p"
  shows "Slow_CRC32_4 (ucast x) p = ucast (foldl crc_byte x (take 4 p))"
proof -
  obtain b0 b1 b2 b3 bs where p: "p = b0 # b1 # b2 # b3 # bs"
    using assms by (auto simp: numeral_nat Suc_le_length_iff)
  let ?c = "x XOR DecodeFixed32 p"
  have u: "(ucast (ucast x XOR ucast (DecodeFixed32 p) :: 64 word) :: 32 word) = ?c"
    by (rule bit_word_eqI) (auto simp: bit_simps)
  note alto = unat_alto_less [of ?c]
  have "Slow_CRC32_4 (ucast x) p = ucast (pasos 32 ?c)"
    using tables_nth(1) [OF alto]
    by (simp add: Slow_CRC32_4_def u Let_def and_255 tables_nth [OF unat_byte_less] pasos_32 [of ?c])
  then show ?thesis using crc_4_bytes [of x b0 b1 b2 b3 bs] by (simp add: p)
qed

section \<open>The contract of the eight-byte step\<close>

text \<open>
  What the loops of \<open>ExtendImpl\<close> need of the step they are given: it advances eight bytes
  and leaves in the accumulator what eight steps of one byte leave.
\<close>

locale paso_de_8 =
  fixes CRC32 :: paso_crc
  assumes paso: "8 \<le> length p \<Longrightarrow> CRC32 (ucast x) p = (ucast (foldl crc_byte x (take 8 p)), drop 8 p)"
begin

lemma de_a_16:
  "\<exists>m. de_a_16 CRC32 n (ucast x) p = (ucast (foldl crc_byte x (take m p)), drop m p)"
proof (induction n arbitrary: x p)
  case 0
  show ?case by (rule exI [of _ 0]) simp
next
  case (Suc n)
  show ?case
  proof (cases "16 \<le> length p")
    case True
    let ?y = "foldl crc_byte (foldl crc_byte x (take 8 p)) (take 8 (drop 8 p))"
    obtain m where m: "de_a_16 CRC32 n (ucast ?y) (drop 16 p)
        = (ucast (foldl crc_byte ?y (take m (drop 16 p))), drop m (drop 16 p))"
      using Suc.IH by blast
    have "take (16 + m) p = take 8 p @ take 8 (drop 8 p) @ take m (drop 16 p)"
      using take_add [of 8 8 p] take_add [of 16 m p] by simp
    then show ?thesis
      using True paso [of p x] paso [of "drop 8 p" "foldl crc_byte x (take 8 p)"] m
      by (intro exI [of _ "16 + m"]) (simp add: add.commute)
  next
    case False
    then show ?thesis by (intro exI [of _ 0]) simp
  qed
qed

lemma de_a_8:
  "\<exists>m. de_a_8 CRC32 n (ucast x) p = (ucast (foldl crc_byte x (take m p)), drop m p)"
proof (induction n arbitrary: x p)
  case 0
  show ?case by (rule exI [of _ 0]) simp
next
  case (Suc n)
  show ?case
  proof (cases "8 \<le> length p")
    case True
    let ?y = "foldl crc_byte x (take 8 p)"
    obtain m where m: "de_a_8 CRC32 n (ucast ?y) (drop 8 p)
        = (ucast (foldl crc_byte ?y (take m (drop 8 p))), drop m (drop 8 p))"
      using Suc.IH by blast
    then show ?thesis
      using True paso [of p x] take_add [of 8 m p]
      by (intro exI [of _ "8 + m"]) (simp add: add.commute)
  next
    case False
    then show ?thesis by (intro exI [of _ 0]) simp
  qed
qed

text \<open>The result is the byte-wise checksum; the address of the data has no influence.\<close>

lemma ExtendImpl_bytes:
  "ExtendImpl CRC32 pval crc buf = foldl crc_byte (crc XOR 0xffffffff) buf XOR 0xffffffff"
proof -
  define n where "n = (if ALIGN pval 4 \<le> pval + length buf then ALIGN pval 4 - pval else 0)"
  let ?x = "crc XOR 0xffffffff"
  obtain m where m: "de_a_16 CRC32 (length buf) (ucast (foldl crc_byte ?x (take n buf))) (drop n buf)
      = (ucast (foldl crc_byte (foldl crc_byte ?x (take n buf)) (take m (drop n buf))), drop m (drop n buf))"
    using de_a_16 by blast
  define x2 p2 where "x2 = foldl crc_byte (foldl crc_byte ?x (take n buf)) (take m (drop n buf))"
    and "p2 = drop m (drop n buf)"
  obtain k where k: "de_a_8 CRC32 (length buf) (ucast x2) p2
      = (ucast (foldl crc_byte x2 (take k p2)), drop k p2)"
    using de_a_8 by blast
  have buf: "take n buf @ take m (drop n buf) @ take k p2 @ drop k p2 = buf"
    by (simp only: p2_def append_take_drop_id)
  have "foldl crc_byte (foldl crc_byte x2 (take k p2)) (drop k p2) = foldl crc_byte ?x buf"
    using arg_cong [OF buf, of "foldl crc_byte ?x"] by (simp add: x2_def del: append_take_drop_id)
  moreover have "(ucast (ucast y XOR 0xffffffff :: 64 word) :: 32 word) = y XOR 0xffffffff" for y :: "32 word"
    by (rule bit_word_eqI) (simp add: bit_simps)
  ultimately show ?thesis
    using m [folded x2_def p2_def] k by (simp add: ExtendImpl_def Let_def foldl_STEP1 n_def [symmetric])
qed

end

interpretation lento: paso_de_8 Slow_CRC32
proof
  fix p :: "uint1 list" and x assume p: "8 \<le> length p"
  have "take 8 p = take 4 p @ take 4 (drop 4 p)" using take_add [of 4 4 p] by simp
  then show "Slow_CRC32 (ucast x) p = (ucast (foldl crc_byte x (take 8 p)), drop 8 p)"
    using p by (simp add: Slow_CRC32_def Let_def Slow_CRC32_4_bytes)
qed

lemma Extend_bytes: "Extend None pval crc buf = foldl crc_byte (crc XOR 0xffffffff) buf XOR 0xffffffff"
  by (simp add: Extend_def lento.ExtendImpl_bytes)

text \<open>The checksum of a text goes on from the checksum of its beginning.\<close>

lemma Extend_append: "Extend None q (Extend None p crc a) b = Extend None r crc (a @ b)"
  by (simp add: Extend_bytes xor.assoc)

text \<open>The published check value of CRC-32C.\<close>

lemma Extend_check:
  "Extend None 0 0 [0x31, 0x32, 0x33, 0x34, 0x35, 0x36, 0x37, 0x38, 0x39] = 0xe3069283"
  by (simp add: Extend_bytes crc_byte_def paso_eval)

section \<open>Properties\<close>

text \<open>
  What the processor's manual says of the instruction: the checksum of eight bytes, the
  least significant first, starting from the accumulator.
\<close>

definition instruccion_crc32 :: "(64 word \<Rightarrow> 64 word \<Rightarrow> 64 word) \<Rightarrow> bool" where
  "instruccion_crc32 mm \<longleftrightarrow>
     (\<forall>x v. mm (ucast x) v = ucast (foldl crc_byte x (EncodeFixed64 v)))"

lemma Fast_CRC32_paso:
  assumes "instruccion_crc32 mm"
  shows "paso_de_8 (Fast_CRC32 mm)"
proof
  fix p :: "uint1 list" and x assume p: "8 \<le> length p"
  have "EncodeFixed64 (DecodeFixed64 p) = take 8 p" using p by (rule EncodeFixed64_Decode)
  then show "Fast_CRC32 mm (ucast x) p = (ucast (foldl crc_byte x (take 8 p)), drop 8 p)"
    using assms by (simp add: Fast_CRC32_def instruccion_crc32_def)
qed

text \<open>A processor without the instruction, or with one that does what the manual says.\<close>

definition procesador_ok :: "procesador \<Rightarrow> bool" where
  "procesador_ok cpu \<longleftrightarrow> (case cpu of None \<Rightarrow> True | Some mm \<Rightarrow> instruccion_crc32 mm)"

lemma procesador_ok_None [simp]: "procesador_ok None"
  by (simp add: procesador_ok_def)

lemma Extend_procesador:
  "procesador_ok cpu \<Longrightarrow> Extend cpu p crc a = foldl crc_byte (crc XOR 0xffffffff) a XOR 0xffffffff"
  using paso_de_8.ExtendImpl_bytes [OF Fast_CRC32_paso]
  by (cases cpu) (simp_all add: procesador_ok_def Extend_bytes Extend_def [of "Some _"])

lemma Extend_piezas:
  "procesador_ok cpu \<Longrightarrow> Extend cpu p (Extend cpu q crc a) b = Extend cpu r crc (a @ b)"
  by (simp add: Extend_procesador xor.assoc)

text \<open>An implementation of the instruction.\<close>

definition crc32_u64 :: "64 word \<Rightarrow> 64 word \<Rightarrow> 64 word" where
  "crc32_u64 l v = ucast (foldl crc_byte (ucast l) (EncodeFixed64 v))"

lemma instruccion_crc32_u64: "instruccion_crc32 crc32_u64"
  by (simp add: instruccion_crc32_def crc32_u64_def)

text \<open>
  C19: the checksum of the log does not depend on the processor nor on where the data lies
  in memory: with the tables and with the processor's instruction, at any two addresses, it
  is the CRC-32C defined one bit at a time, and it can be computed in pieces.
\<close>
theorem crc32c_extend:
  assumes "instruccion_crc32 mm"
  shows "Extend (Some mm) p crc (a @ b) = Extend None q (Extend None r crc a) b \<and>
    Extend None q crc a = foldl (\<lambda>x b. pasos 8 (x XOR ucast b)) (crc XOR 0xffffffff) a XOR 0xffffffff"
  using Extend_append [of q r crc a b p] paso_de_8.ExtendImpl_bytes [OF Fast_CRC32_paso [OF assms]]
  by (simp add: Extend_def [of "Some mm"] Extend_bytes crc_byte_def [abs_def])

theorem crc32c_extend_witness:
  "instruccion_crc32 crc32_u64 \<and>
   Extend (Some crc32_u64) 3 0 ([0x31, 0x32, 0x33, 0x34] @ [0x35, 0x36, 0x37, 0x38, 0x39])
     = Extend None 0 (Extend None 9 0 [0x31, 0x32, 0x33, 0x34]) [0x35, 0x36, 0x37, 0x38, 0x39]"
  using crc32c_extend [of crc32_u64] instruccion_crc32_u64 by blast

end
