(* ===== verification/RocksDB_Env.thy ===== *)
theory RocksDB_Env
  imports RocksDB RocksDB_Crc
begin

text \<open>
  The files of \<open>util/env_posix.cc\<close> the log is kept in: \<open>PosixWritableFile\<close> with its cache
  and the loop around \<open>write\<close>, which may write less than asked, be interrupted or fail, and
  \<open>PosixSequentialFile\<close>. What the operating system answers to the calls of \<open>write\<close> and
  \<open>fread\<close> is a list that the operations consume; when it is used up every call succeeds.
\<close>

section \<open>Files that are written\<close>

datatype respuesta = Hecho nat | Interrumpido | Error

text \<open>
  \<open>disco\<close> is what the operating system has of the file, \<open>buf\<close> the first \<open>cursize\<close> bytes of
  the cache.
\<close>

record PosixWritableFile =
  disco :: "uint1 list"
  buf :: "uint1 list"
  capacity :: nat
  filesize :: nat
  respuestas :: "respuesta list"

definition PosixWritableFile_nuevo :: "nat \<Rightarrow> respuesta list \<Rightarrow> PosixWritableFile" where
  "PosixWritableFile_nuevo cap rs =
     \<lparr>disco = [], buf = [], capacity = cap, filesize = 0, respuestas = rs\<rparr>"

text \<open>The loop around \<open>write\<close>: the status, the bytes that were written, the answers left.\<close>

fun escribir_todo :: "respuesta list \<Rightarrow> uint1 list \<Rightarrow> Status \<times> uint1 list \<times> respuesta list" where
  "escribir_todo rs [] = (OK, [], rs)"
| "escribir_todo [] src = (OK, src, [])"
| "escribir_todo (Hecho done # rs) src =
     (case escribir_todo rs (drop done src) of (s, hechos, rs') \<Rightarrow> (s, take done src @ hechos, rs'))"
| "escribir_todo (Interrumpido # rs) src = escribir_todo rs src"
| "escribir_todo (Error # rs) src = (IOError, [], rs)"

definition Flush :: "PosixWritableFile \<Rightarrow> Status \<times> PosixWritableFile" where
  "Flush f =
     (case escribir_todo (respuestas f) (buf f) of (s, hechos, rs) \<Rightarrow>
        let f1 = f\<lparr>disco := disco f @ hechos, respuestas := rs\<rparr>
        in if s \<noteq> OK then (s, f1) else (OK, f1\<lparr>buf := []\<rparr>))"

definition Append :: "uint1 list \<Rightarrow> PosixWritableFile \<Rightarrow> Status \<times> PosixWritableFile" where
  "Append data f =
     (let (s, f1) =
        (if length (buf f) + length data > capacity f
         then (case Flush f of (s, f1) \<Rightarrow>
                 if s \<noteq> OK then (s, f1)
                 else (OK, if capacity f1 < 2 ^ 20 then f1\<lparr>capacity := 2 * capacity f1\<rparr> else f1))
         else (OK, f))
      in if s \<noteq> OK then (s, f1)
         else if length (buf f1) + length data \<le> capacity f1
         then (OK, f1\<lparr>buf := buf f1 @ data, filesize := filesize f1 + length data\<rparr>)
         else (case escribir_todo (respuestas f1) data of (s, hechos, rs) \<Rightarrow>
                 let f2 = f1\<lparr>disco := disco f1 @ hechos, respuestas := rs\<rparr>
                 in if s \<noteq> OK then (s, f2) else (OK, f2\<lparr>filesize := filesize f2 + length data\<rparr>)))"

section \<open>Files that are read\<close>

text \<open>
  \<open>resto\<close> is what follows the position of the stream. An answer \<open>k\<close> to \<open>fread\<close> is an error
  after \<open>k\<close> bytes, when the file has more.
\<close>

record PosixSequentialFile =
  resto :: "uint1 list"
  errores :: "nat option list"

definition Read :: "nat \<Rightarrow> PosixSequentialFile \<Rightarrow> Status \<times> uint1 list \<times> PosixSequentialFile" where
  "Read n f =
     (let k = (case errores f of Some k # _ \<Rightarrow> min k n | _ \<Rightarrow> n);
          r = take k (resto f);
          f1 = f\<lparr>resto := drop k (resto f), errores := tl (errores f)\<rparr>
      in if length r < n \<and> resto f1 \<noteq> [] then (IOError, r, f1) else (OK, r, f1))"

definition Skip :: "nat \<Rightarrow> PosixSequentialFile \<Rightarrow> Status \<times> PosixSequentialFile" where
  "Skip n f =
     (case errores f of
        Some _ # es \<Rightarrow> (IOError, f\<lparr>errores := es\<rparr>)
      | _ \<Rightarrow> (OK, f\<lparr>resto := drop n (resto f), errores := tl (errores f)\<rparr>))"

section \<open>What reaches the disk\<close>

lemma escribir_todo_prefijo:
  "escribir_todo rs src = (s, hechos, rs') \<Longrightarrow>
     (\<exists>r. src = hechos @ r \<and> (s = OK \<longleftrightarrow> r = [])) \<and> (s = OK \<or> s = IOError)"
proof (induction rs src arbitrary: s hechos rs' rule: escribir_todo.induct)
  case (3 "done" rs v va)
  obtain s1 h1 rs1 where e: "escribir_todo rs (drop done (v # va)) = (s1, h1, rs1)"
    by (cases "escribir_todo rs (drop done (v # va))") auto
  obtain r where r: "drop done (v # va) = h1 @ r" "s1 = OK \<longleftrightarrow> r = []" "s1 = OK \<or> s1 = IOError"
    using "3.IH" [OF e] by auto
  have "v # va = (take done (v # va) @ h1) @ r"
    using r(1) append_take_drop_id [of "done" "v # va"] by simp
  moreover have "s = s1" "hechos = take done (v # va) @ h1" using "3.prems" e by simp_all
  ultimately show ?case using r(2,3) by blast
qed auto

text \<open>
  A flush that succeeds leaves on the disk what was written so far; one that fails leaves a
  beginning of it.
\<close>

lemma Flush_disco:
  assumes "Flush f = (s, f')"
  obtains hechos r rs where "buf f = hechos @ r" and "s = OK \<or> s = IOError" and "s = OK \<longleftrightarrow> r = []"
    and "f' = f\<lparr>disco := disco f @ hechos, respuestas := rs, buf := (if s = OK then [] else buf f)\<rparr>"
proof -
  obtain st hechos rs where e: "escribir_todo (respuestas f) (buf f) = (st, hechos, rs)"
    by (cases "escribir_todo (respuestas f) (buf f)") auto
  obtain r where r: "buf f = hechos @ r" "st = OK \<longleftrightarrow> r = []" "st = OK \<or> st = IOError"
    using escribir_todo_prefijo [OF e] by auto
  have st: "s = st" using assms e by (simp add: Flush_def Let_def split: if_splits)
  have "f' = f\<lparr>disco := disco f @ hechos, respuestas := rs, buf := (if s = OK then [] else buf f)\<rparr>"
    using assms by (simp only: Flush_def e Let_def prod.case st) (simp split: if_splits)
  then show thesis using that r st by blast
qed

text \<open>What fits in the cache is accepted without asking the operating system.\<close>

lemma Append_cache:
  "length (buf f) + length data \<le> capacity f \<Longrightarrow>
     Append data f = (OK, f\<lparr>buf := buf f @ data, filesize := filesize f + length data\<rparr>)"
  by (simp add: Append_def)

text \<open>
  A flush that fails keeps the whole cache, so that the next one, such as that of \<open>Close\<close>,
  writes again what had already reached the disk.
\<close>

lemma Flush_repite:
  assumes "Flush f = (s, f1)" and "s \<noteq> OK" and "Flush f1 = (OK, f2)"
  obtains hechos r where "buf f = hechos @ r" and "r \<noteq> []" and "disco f2 = disco f @ hechos @ buf f"
proof -
  obtain h r rs where h: "buf f = h @ r" "s = OK \<longleftrightarrow> r = []"
    "f1 = f\<lparr>disco := disco f @ h, respuestas := rs, buf := (if s = OK then [] else buf f)\<rparr>"
    by (rule Flush_disco [OF assms(1)]) blast
  obtain h' r' rs' where h': "buf f1 = h' @ r'" "OK = OK \<longleftrightarrow> r' = []"
    "f2 = f1\<lparr>disco := disco f1 @ h', respuestas := rs', buf := (if OK = OK then [] else buf f1)\<rparr>"
    by (rule Flush_disco [OF assms(3)]) blast
  show thesis by (rule that [of h r]) (use h h' assms(2) in simp_all)
qed

lemma Flush_repite_ejemplo:
  "disco (snd (Flush (snd (Flush \<lparr>disco = [], buf = [1, 2, 3], capacity = 65536, filesize = 3,
     respuestas = [Hecho 2, Error]\<rparr>)))) = [1, 2, 1, 2, 3]"
  by (simp add: Flush_def)

lemma Read_sano:
  "errores f = [] \<Longrightarrow> Read n f = (OK, take n (resto f), f\<lparr>resto := drop n (resto f)\<rparr>)"
  by (auto simp: Read_def Let_def)

lemma Read_resto:
  assumes "Read n f = (s, r, f')"
  shows "resto f = r @ resto f'" and "length r \<le> n"
proof -
  define k where "k = (case errores f of Some k # _ \<Rightarrow> min k n | _ \<Rightarrow> n)"
  have "k \<le> n" by (simp add: k_def split: list.split option.split)
  moreover have "r = take k (resto f)" "resto f' = drop k (resto f)"
    using assms by (auto simp: Read_def Let_def k_def [symmetric] split: if_splits)
  ultimately show "resto f = r @ resto f'" and "length r \<le> n" by simp_all
qed

end
