(* ===== verification/RocksDB_Log.thy ===== *)
theory RocksDB_Log
  imports RocksDB_Env
begin

text \<open>
  The log of \<open>db/log_writer.cc\<close> and \<open>db/log_reader.cc\<close>: records cut into fragments that never
  cross a block of 32768 bytes, each with its checksum, length and type; the writer on a
  \<open>PosixWritableFile\<close>, the reader on a \<open>PosixSequentialFile\<close> with its buffer, its end-of-file
  flags, its offsets and the drops it reports. The address of the data has no influence on the
  checksum, so the model passes address 0.
\<close>

section \<open>The format\<close>

definition kBlockSize :: nat where
  "kBlockSize = 32768"

definition kHeaderSize :: nat where
  "kHeaderSize = 7"

datatype RecordType = kZeroType | kFullType | kFirstType | kMiddleType | kLastType

fun RecordType_code :: "RecordType \<Rightarrow> nat" where
  "RecordType_code kZeroType = 0"
| "RecordType_code kFullType = 1"
| "RecordType_code kFirstType = 2"
| "RecordType_code kMiddleType = 3"
| "RecordType_code kLastType = 4"

section \<open>The writer\<close>

record Writer =
  dest :: PosixWritableFile
  block_offset :: nat

definition Writer_nuevo :: "PosixWritableFile \<Rightarrow> Writer" where
  "Writer_nuevo f = \<lparr>dest = f, block_offset = 0\<rparr>"

definition type_crc :: "procesador \<Rightarrow> RecordType \<Rightarrow> 32 word" where
  "type_crc cpu t = crc32c_Value cpu 0 [of_nat (RecordType_code t)]"

definition cabecera :: "procesador \<Rightarrow> RecordType \<Rightarrow> uint1 list \<Rightarrow> uint1 list" where
  "cabecera cpu t ptr =
     (let n = length ptr; crc = Mask (Extend cpu 0 (type_crc cpu t) ptr)
      in EncodeFixed32 crc @ [of_nat (n mod 256), of_nat (n div 256), of_nat (RecordType_code t)])"

definition EmitPhysicalRecord ::
  "procesador \<Rightarrow> RecordType \<Rightarrow> uint1 list \<Rightarrow> Writer \<Rightarrow> Status \<times> Writer" where
  "EmitPhysicalRecord cpu t ptr w =
     (let (s, f) =
        (case Append (cabecera cpu t ptr) (dest w) of (s1, f1) \<Rightarrow>
           if s1 \<noteq> OK then (s1, f1)
           else (case Append ptr f1 of (s2, f2) \<Rightarrow> if s2 \<noteq> OK then (s2, f2) else Flush f2))
      in (s, w\<lparr>dest := f, block_offset := block_offset w + kHeaderSize + length ptr\<rparr>))"

text \<open>Filling the trailer of a block; the status of this append is not looked at.\<close>

definition cambiar_bloque :: "Writer \<Rightarrow> Writer" where
  "cambiar_bloque w =
     (let leftover = int kBlockSize - int (block_offset w)
      in if leftover < int kHeaderSize
         then w\<lparr>dest := (if leftover > 0 then snd (Append (replicate (nat leftover) 0) (dest w)) else dest w),
                block_offset := 0\<rparr>
         else w)"

definition fragment_length :: "nat \<Rightarrow> nat \<Rightarrow> nat" where
  "fragment_length off left =
     (let avail = kBlockSize - off - kHeaderSize in if left < avail then left else avail)"

definition tipo_fragmento :: "bool \<Rightarrow> bool \<Rightarrow> RecordType" where
  "tipo_fragmento begin fin =
     (if begin \<and> fin then kFullType else if begin then kFirstType
      else if fin then kLastType else kMiddleType)"

lemma EmitPhysicalRecord_offset [simp]:
  "block_offset (snd (EmitPhysicalRecord cpu t ptr w)) = block_offset w + kHeaderSize + length ptr"
  by (simp add: EmitPhysicalRecord_def Let_def split: prod.split)

lemma cambiar_bloque_offset:
  "block_offset (cambiar_bloque w) =
     (if kBlockSize < block_offset w + kHeaderSize then 0 else block_offset w)"
  by (auto simp: cambiar_bloque_def Let_def)

text \<open>
  A turn of the loop writes a byte of the record, or fills up a block that had room for a
  header only, after which the next turn writes a byte.
\<close>

definition turnos :: "nat \<Rightarrow> nat \<Rightarrow> nat" where
  "turnos off left = 2 * left + (if off + kHeaderSize = kBlockSize then 1 else 0)"

lemma turnos_menos:
  assumes "off1 = (if kBlockSize < off + kHeaderSize then 0 else off)" and "n = fragment_length off1 left"
    and "0 < left - n"
  shows "turnos (off1 + kHeaderSize + n) (left - n) < turnos off left"
  using assms
  by (auto simp: turnos_def fragment_length_def Let_def kBlockSize_def kHeaderSize_def split: if_splits)

function AddRecord_bucle :: "procesador \<Rightarrow> bool \<Rightarrow> uint1 list \<Rightarrow> Writer \<Rightarrow> Status \<times> Writer" where
  "AddRecord_bucle cpu begin ptr w =
     (let w1 = cambiar_bloque w;
          n = fragment_length (block_offset w1) (length ptr);
          fin = (length ptr = n);
          (s, w2) = EmitPhysicalRecord cpu (tipo_fragmento begin fin) (take n ptr) w1
      in if s = OK \<and> 0 < length (drop n ptr) then AddRecord_bucle cpu False (drop n ptr) w2 else (s, w2))"
  by pat_completeness auto
termination
proof (relation "measure (\<lambda>(cpu, begin, ptr, w). turnos (block_offset w) (length ptr))", goal_cases)
  case (2 cpu "begin" ptr w w1 n fin p s w2)
  have "w2 = snd (EmitPhysicalRecord cpu (tipo_fragmento begin fin) (take n ptr) w1)"
    using 2 by (metis snd_conv)
  moreover have "length (take n ptr) = n"
    using 2(2) by (simp add: fragment_length_def Let_def split: if_splits)
  ultimately have "block_offset w2 = block_offset w1 + kHeaderSize + n" by simp
  then show ?case
    using turnos_menos [of "block_offset w1" "block_offset w" n "length ptr"] 2
    by (simp add: cambiar_bloque_offset)
qed simp

declare AddRecord_bucle.simps [simp del]

definition AddRecord :: "procesador \<Rightarrow> uint1 list \<Rightarrow> Writer \<Rightarrow> Status \<times> Writer" where
  "AddRecord cpu rec w = AddRecord_bucle cpu True rec w"

section \<open>The reader\<close>

text \<open>
  \<open>informes\<close> is what the reporter was told: how many bytes were dropped and why. The offsets
  are 64 bits wide.
\<close>

record Reader =
  file_ld :: PosixSequentialFile
  checksum :: bool
  buffer_ld :: "uint1 list"
  eof :: bool
  read_error :: bool
  eof_offset :: nat
  last_record_offset :: "64 word"
  end_of_buffer_offset :: "64 word"
  initial_offset :: "64 word"
  informes :: "(nat \<times> Status) list"

definition Reader_nuevo :: "PosixSequentialFile \<Rightarrow> bool \<Rightarrow> 64 word \<Rightarrow> Reader" where
  "Reader_nuevo f ck ini =
     \<lparr>file_ld = f, checksum = ck, buffer_ld = [], eof = False, read_error = False, eof_offset = 0,
      last_record_offset = 0, end_of_buffer_offset = 0, initial_offset = ini, informes = []\<rparr>"

definition kEof :: "32 word" where
  "kEof = of_nat (RecordType_code kLastType) + 1"

definition kBadRecord :: "32 word" where
  "kBadRecord = of_nat (RecordType_code kLastType) + 2"

definition ReportDrop :: "nat \<Rightarrow> Status \<Rightarrow> Reader \<Rightarrow> Reader" where
  "ReportDrop bytes reason r =
     (if initial_offset r \<le> end_of_buffer_offset r - of_nat (length (buffer_ld r)) - of_nat bytes
      then r\<lparr>informes := informes r @ [(bytes, reason)]\<rparr> else r)"

definition ReportCorruption :: "nat \<Rightarrow> Reader \<Rightarrow> Reader" where
  "ReportCorruption bytes = ReportDrop bytes Corruption"

definition SkipToInitialBlock :: "Reader \<Rightarrow> bool \<times> Reader" where
  "SkipToInitialBlock r =
     (let en_bloque = initial_offset r mod of_nat kBlockSize;
          start0 = initial_offset r - en_bloque;
          start = (if of_nat (kBlockSize - 6) < en_bloque then start0 + of_nat kBlockSize else start0);
          r1 = r\<lparr>end_of_buffer_offset := start\<rparr>
      in if 0 < start
         then (case Skip (unat start) (file_ld r1) of (s, f) \<Rightarrow>
                 let r2 = r1\<lparr>file_ld := f\<rparr>
                 in if s \<noteq> OK then (False, ReportDrop (unat start) s r2) else (True, r2))
         else (True, r1))"

text \<open>The part of \<open>ReadPhysicalRecord\<close> that parses the record at the front of the buffer.\<close>

definition leer_fragmento :: "procesador \<Rightarrow> Reader \<Rightarrow> 32 word \<times> uint1 list \<times> Reader" where
  "leer_fragmento cpu r =
     (let header = buffer_ld r;
          len = unat (header ! 4) + 256 * unat (header ! 5);
          t = scast (header ! 6) :: 32 word
      in if length header < kHeaderSize + len
         then (let r1 = r\<lparr>buffer_ld := []\<rparr>
               in if \<not> eof r then (kBadRecord, [], ReportCorruption (length header) r1)
                  else (kEof, [], r1))
         else if t = of_nat (RecordType_code kZeroType) \<and> len = 0
         then (kBadRecord, [], r\<lparr>buffer_ld := []\<rparr>)
         else if checksum r \<and>
            crc32c_Value cpu 0 (take (1 + len) (drop 6 header)) \<noteq> Unmask (DecodeFixed32 header)
         then (kBadRecord, [], ReportCorruption (length header) (r\<lparr>buffer_ld := []\<rparr>))
         else (let r1 = r\<lparr>buffer_ld := drop (kHeaderSize + len) header\<rparr>
               in if end_of_buffer_offset r1 - of_nat (length (buffer_ld r1)) - of_nat kHeaderSize - of_nat len
                     < initial_offset r1
                  then (kBadRecord, [], r1)
                  else (t, take len (drop kHeaderSize header), r1)))"

text \<open>Reading the next block into the buffer.\<close>

definition leer_bloque :: "Reader \<Rightarrow> Status \<times> Reader" where
  "leer_bloque r =
     (case Read kBlockSize (file_ld r) of (s, b, f) \<Rightarrow>
        let r1 = r\<lparr>file_ld := f, buffer_ld := b, end_of_buffer_offset := end_of_buffer_offset r + of_nat (length b)\<rparr>
        in if s \<noteq> OK then (s, (ReportDrop kBlockSize s (r1\<lparr>buffer_ld := []\<rparr>))\<lparr>read_error := True\<rparr>)
           else if length b < kBlockSize then (OK, r1\<lparr>eof := True, eof_offset := length b\<rparr>)
           else (OK, r1))"

lemma leer_bloque_avanza:
  assumes "leer_bloque r = (OK, r')"
  shows "eof r' \<or> kHeaderSize \<le> length (buffer_ld r')"
  using assms Read_resto(2) [of kBlockSize "file_ld r"]
  by (auto simp: leer_bloque_def Let_def kBlockSize_def kHeaderSize_def split: prod.splits if_splits)

function ReadPhysicalRecord :: "procesador \<Rightarrow> Reader \<Rightarrow> 32 word \<times> uint1 list \<times> Reader" where
  "ReadPhysicalRecord cpu r =
     (if length (buffer_ld r) < kHeaderSize
      then if \<not> eof r \<and> \<not> read_error r
           then (case leer_bloque r of (s, r1) \<Rightarrow>
                   if s \<noteq> OK then (kEof, [], r1) else ReadPhysicalRecord cpu r1)
           else (kEof, [], r\<lparr>buffer_ld := []\<rparr>)
      else leer_fragmento cpu r)"
  by pat_completeness auto
termination
proof (relation "measure (\<lambda>(cpu, r). if eof r \<or> kHeaderSize \<le> length (buffer_ld r) then 0 else 1)", goal_cases)
  case (2 cpu r s r1)
  then have "leer_bloque r = (OK, r1)" by simp
  from leer_bloque_avanza [OF this] 2 show ?case by auto
qed simp

declare ReadPhysicalRecord.simps [simp del]

text \<open>
  The bytes the reader has not passed yet; a physical record that is not the end of the file
  takes a header's length of them at least.
\<close>

definition pendientes :: "Reader \<Rightarrow> nat" where
  "pendientes r = length (buffer_ld r) + length (resto (file_ld r))"

lemma ReportDrop_simps [simp]:
  "buffer_ld (ReportDrop n s r) = buffer_ld r" "file_ld (ReportDrop n s r) = file_ld r"
  "eof (ReportDrop n s r) = eof r" "read_error (ReportDrop n s r) = read_error r"
  "pendientes (ReportDrop n s r) = pendientes r"
  by (simp_all add: ReportDrop_def pendientes_def)

lemma ReportCorruption_simps [simp]:
  "buffer_ld (ReportCorruption n r) = buffer_ld r" "file_ld (ReportCorruption n r) = file_ld r"
  "eof (ReportCorruption n r) = eof r" "read_error (ReportCorruption n r) = read_error r"
  "pendientes (ReportCorruption n r) = pendientes r"
  by (simp_all add: ReportCorruption_def)

lemma leer_fragmento_pendientes:
  assumes "kHeaderSize \<le> length (buffer_ld r)" and "leer_fragmento cpu r = (t, fr, r')"
  shows "pendientes r' + kHeaderSize \<le> pendientes r"
  using assms
  by (auto simp: leer_fragmento_def Let_def pendientes_def split: if_splits)

lemma leer_bloque_pendientes:
  assumes "leer_bloque r = (OK, r')"
  shows "pendientes r' \<le> pendientes r"
proof -
  obtain s b f where e: "Read kBlockSize (file_ld r) = (s, b, f)" by (rule prod_cases3)
  have "length (resto (file_ld r)) = length b + length (resto f)" using Read_resto(1) [OF e] by simp
  then show ?thesis
    using assms e by (auto simp: leer_bloque_def Let_def pendientes_def split: if_splits)
qed

lemma ReadPhysicalRecord_pendientes:
  "ReadPhysicalRecord cpu r = (t, fr, r') \<Longrightarrow> t \<noteq> kEof \<Longrightarrow> pendientes r' + kHeaderSize \<le> pendientes r"
proof (induction cpu r rule: ReadPhysicalRecord.induct)
  case (1 cpu r)
  show ?case
  proof (cases "length (buffer_ld r) < kHeaderSize")
    case True
    obtain s r1 where b: "leer_bloque r = (s, r1)" by (rule prod.exhaust)
    have ok: "\<not> eof r \<and> \<not> read_error r" "s = OK" "ReadPhysicalRecord cpu r1 = (t, fr, r')"
      using "1.prems" True b by (auto simp: ReadPhysicalRecord.simps [of cpu r] split: if_splits)
    have "pendientes r' + kHeaderSize \<le> pendientes r1"
      using "1.IH" [OF True ok(1)] b ok "1.prems"(2) by simp
    then show ?thesis using leer_bloque_pendientes [of r r1] b ok(2) by simp
  next
    case False
    then show ?thesis
      using "1.prems" leer_fragmento_pendientes [of r cpu t fr r']
      by (simp add: ReadPhysicalRecord.simps [of cpu r])
  qed
qed

function ReadRecord_bucle ::
  "procesador \<Rightarrow> bool \<Rightarrow> uint1 list \<Rightarrow> 64 word \<Rightarrow> Reader \<Rightarrow> uint1 list option \<times> Reader" where
  "ReadRecord_bucle cpu in_fragmented scratch prospective r =
     (let physical = end_of_buffer_offset r - of_nat (length (buffer_ld r));
          (t, fragment, r1) = ReadPhysicalRecord cpu r;
          sin_fin = (if in_fragmented \<and> scratch \<noteq> [] then ReportCorruption (length scratch) r1 else r1)
      in if t = kEof then (None, r1)
         else if t = of_nat (RecordType_code kFullType)
         then (Some fragment, sin_fin\<lparr>last_record_offset := physical\<rparr>)
         else if t = of_nat (RecordType_code kFirstType)
         then ReadRecord_bucle cpu True fragment physical sin_fin
         else if t = of_nat (RecordType_code kMiddleType)
         then (if \<not> in_fragmented
               then ReadRecord_bucle cpu in_fragmented scratch prospective (ReportCorruption (length fragment) r1)
               else ReadRecord_bucle cpu in_fragmented (scratch @ fragment) prospective r1)
         else if t = of_nat (RecordType_code kLastType)
         then (if \<not> in_fragmented
               then ReadRecord_bucle cpu in_fragmented scratch prospective (ReportCorruption (length fragment) r1)
               else (Some (scratch @ fragment), r1\<lparr>last_record_offset := prospective\<rparr>))
         else if t = kBadRecord
         then (if in_fragmented
               then ReadRecord_bucle cpu False [] prospective (ReportCorruption (length scratch) r1)
               else ReadRecord_bucle cpu in_fragmented scratch prospective r1)
         else ReadRecord_bucle cpu False [] prospective
                (ReportCorruption (length fragment + (if in_fragmented then length scratch else 0)) r1))"
  by pat_completeness auto
termination
  by (relation "measure (\<lambda>(cpu, in_fragmented, scratch, prospective, r). pendientes r)")
    (auto simp: kHeaderSize_def dest!: ReadPhysicalRecord_pendientes [OF sym])

declare ReadRecord_bucle.simps [simp del]

definition ReadRecord :: "procesador \<Rightarrow> Reader \<Rightarrow> uint1 list option \<times> Reader" where
  "ReadRecord cpu r =
     (case (if last_record_offset r < initial_offset r then SkipToInitialBlock r else (True, r)) of
        (sigue, r1) \<Rightarrow> if \<not> sigue then (None, r1) else ReadRecord_bucle cpu False [] 0 r1)"

end
