(* ===== verification/RocksDB_LogSpec.thy ===== *)
theory RocksDB_LogSpec
  imports RocksDB_Log
begin

text \<open>
  What the log promises. \<open>codifica\<close> is the layout of one record from an offset of a block on;
  the writer leaves exactly these bytes, or a beginning of them when the disk fails, and the
  reader takes them apart again. A file that ends anywhere inside a record is read up to the
  record before, with nothing reported as corrupt.
\<close>

section \<open>The layout of a record\<close>

definition inicio :: "nat \<Rightarrow> nat" where
  "inicio off = (if kBlockSize < off + kHeaderSize then 0 else off)"

definition relleno :: "nat \<Rightarrow> uint1 list" where
  "relleno off = (if kBlockSize < off + kHeaderSize then replicate (kBlockSize - off) 0 else [])"

definition marco :: "procesador \<Rightarrow> RecordType \<Rightarrow> uint1 list \<Rightarrow> uint1 list" where
  "marco cpu t fr = cabecera cpu t fr @ fr"

lemma inicio_le: "inicio off + kHeaderSize \<le> kBlockSize"
  by (simp add: inicio_def kBlockSize_def kHeaderSize_def)

lemma fragment_length_le:
  "fragment_length off n \<le> n" "off + kHeaderSize \<le> kBlockSize \<Longrightarrow> off + kHeaderSize + fragment_length off n \<le> kBlockSize"
  by (auto simp: fragment_length_def Let_def)

function codifica :: "procesador \<Rightarrow> nat \<Rightarrow> bool \<Rightarrow> uint1 list \<Rightarrow> uint1 list \<times> nat" where
  "codifica cpu off begin data =
     (let n = fragment_length (inicio off) (length data);
          fin = inicio off + kHeaderSize + n;
          bs = relleno off @ marco cpu (tipo_fragmento begin (length data = n)) (take n data)
      in if n < length data
         then (case codifica cpu fin False (drop n data) of (bs', fin') \<Rightarrow> (bs @ bs', fin'))
         else (bs, fin))"
  by pat_completeness auto
termination
  by (relation "measure (\<lambda>(cpu, off, begin, data). turnos off (length data))")
    (use turnos_menos in \<open>auto simp: inicio_def\<close>)

declare codifica.simps [simp del]

section \<open>The writer\<close>

definition writer_ok :: "Writer \<Rightarrow> bool" where
  "writer_ok w \<longleftrightarrow> buf (dest w) = [] \<and> 65536 \<le> capacity (dest w) \<and> block_offset w \<le> kBlockSize"

lemma length_cabecera [simp]: "length (cabecera cpu t fr) = kHeaderSize"
  by (simp add: cabecera_def Let_def kHeaderSize_def)

lemma cambiar_bloque_relleno:
  assumes "writer_ok w"
  shows "\<exists>fs. cambiar_bloque w =
    w\<lparr>dest := (dest w)\<lparr>buf := relleno (block_offset w), filesize := fs\<rparr>, block_offset := inicio (block_offset w)\<rparr>"
proof -
  have "length (relleno (block_offset w)) \<le> 65536" by (auto simp: relleno_def kBlockSize_def intro: le_trans [OF diff_le_self])
  then have a: "Append (relleno (block_offset w)) (dest w) =
      (OK, (dest w)\<lparr>buf := relleno (block_offset w), filesize := filesize (dest w) + length (relleno (block_offset w))\<rparr>)"
    using assms Append_cache [of "dest w" "relleno (block_offset w)"] by (simp add: writer_ok_def)
  consider "kBlockSize < block_offset w + kHeaderSize" "block_offset w < kBlockSize"
    | "block_offset w = kBlockSize" | "\<not> kBlockSize < block_offset w + kHeaderSize"
    using assms by (fastforce simp: writer_ok_def)
  then show ?thesis
  proof cases
    case 1
    then have "nat (int kBlockSize - int (block_offset w)) = kBlockSize - block_offset w" by simp
    then show ?thesis
      using 1 a by (auto simp: cambiar_bloque_def Let_def relleno_def inicio_def intro!: exI)
  next
    case 2
    then show ?thesis using assms
      by (auto simp: cambiar_bloque_def Let_def relleno_def inicio_def writer_ok_def kHeaderSize_def intro!: exI [of _ "filesize (dest w)"])
  next
    case 3
    then show ?thesis using assms
      by (auto simp: cambiar_bloque_def Let_def relleno_def inicio_def writer_ok_def intro!: exI [of _ "filesize (dest w)"])
  qed
qed

lemma EmitPhysicalRecord_disco:
  assumes "length (buf (dest w)) + kHeaderSize + length fr \<le> capacity (dest w)"
    and "EmitPhysicalRecord cpu t fr w = (s, w')"
  obtains p r where "buf (dest w) @ marco cpu t fr = p @ r" and "disco (dest w') = disco (dest w) @ p"
    and "block_offset w' = block_offset w + kHeaderSize + length fr" and "capacity (dest w') = capacity (dest w)"
    and "s = OK \<longleftrightarrow> r = []" and "s = OK \<Longrightarrow> buf (dest w') = []" and "s = OK \<or> s = IOError"
proof -
  define f2 where "f2 = (dest w)\<lparr>buf := buf (dest w) @ marco cpu t fr,
    filesize := filesize (dest w) + kHeaderSize + length fr\<rparr>"
  have "Append (cabecera cpu t fr) (dest w) = (OK, (dest w)\<lparr>buf := buf (dest w) @ cabecera cpu t fr,
      filesize := filesize (dest w) + kHeaderSize\<rparr>)"
    using assms(1) by (subst Append_cache) simp_all
  moreover have "Append fr ((dest w)\<lparr>buf := buf (dest w) @ cabecera cpu t fr,
      filesize := filesize (dest w) + kHeaderSize\<rparr>) = (OK, f2)"
    using assms(1) by (subst Append_cache) (simp_all add: f2_def marco_def)
  ultimately have e: "EmitPhysicalRecord cpu t fr w = (case Flush f2 of (s, f) \<Rightarrow>
      (s, w\<lparr>dest := f, block_offset := block_offset w + kHeaderSize + length fr\<rparr>))"
    by (simp add: EmitPhysicalRecord_def)
  obtain f where f: "Flush f2 = (s, f)"
    and w': "w' = w\<lparr>dest := f, block_offset := block_offset w + kHeaderSize + length fr\<rparr>"
    using e assms(2) by (cases "Flush f2") simp
  from f obtain h r rs where h: "buf f2 = h @ r" "s = OK \<or> s = IOError" "s = OK \<longleftrightarrow> r = []"
    "f = f2\<lparr>disco := disco f2 @ h, respuestas := rs, buf := (if s = OK then [] else buf f2)\<rparr>"
    by (rule Flush_disco) blast
  show thesis
    by (rule that [of h r]) (use h w' in \<open>simp_all add: f2_def\<close>)
qed

text \<open>One turn of the writer's loop, next to one turn of the layout.\<close>

lemma AddRecord_turno:
  assumes "writer_ok w"
  obtains n p r s w2 where
    "AddRecord_bucle cpu b data w =
       (if s = OK \<and> n < length data then AddRecord_bucle cpu False (drop n data) w2 else (s, w2))"
    and "codifica cpu (block_offset w) b data = (if n < length data
       then (case codifica cpu (block_offset w2) False (drop n data) of (bs, fin) \<Rightarrow> ((p @ r) @ bs, fin))
       else (p @ r, block_offset w2))"
    and "disco (dest w2) = disco (dest w) @ p" and "s = OK \<longleftrightarrow> r = []"
    and "s = OK \<Longrightarrow> writer_ok w2" and "s = OK \<or> s = IOError"
    and "turnos (block_offset w2) (length data - n) < turnos (block_offset w) (length data) \<or> length data \<le> n"
proof -
  define w1 where "w1 = cambiar_bloque w"
  define n where "n = fragment_length (block_offset w1) (length data)"
  define t where "t = tipo_fragmento b (length data = n)"
  obtain fs where w1: "w1 = w\<lparr>dest := (dest w)\<lparr>buf := relleno (block_offset w), filesize := fs\<rparr>,
      block_offset := inicio (block_offset w)\<rparr>"
    using cambiar_bloque_relleno [OF assms] by (auto simp: w1_def)
  have n: "n = fragment_length (inicio (block_offset w)) (length data)" by (simp add: n_def w1)
  have n_le: "n \<le> length data" "inicio (block_offset w) + kHeaderSize + n \<le> kBlockSize"
    using fragment_length_le inicio_le by (simp_all add: n)
  then have len: "length (take n data) = n" by simp
  obtain s w2 where e: "EmitPhysicalRecord cpu t (take n data) w1 = (s, w2)" by (rule prod.exhaust)
  have sitio: "length (buf (dest w1)) + kHeaderSize + length (take n data) \<le> capacity (dest w1)"
    using assms n_le by (auto simp: w1 relleno_def writer_ok_def kBlockSize_def)
  obtain p r where pr: "relleno (block_offset w) @ marco cpu t (take n data) = p @ r"
      "disco (dest w2) = disco (dest w) @ p" "s = OK \<longleftrightarrow> r = []" "s = OK \<Longrightarrow> buf (dest w2) = []" "s = OK \<or> s = IOError"
      "block_offset w2 = inicio (block_offset w) + kHeaderSize + n" "capacity (dest w2) = capacity (dest w)"
    by (rule EmitPhysicalRecord_disco [OF sitio e]) (rule that, simp_all add: w1 len del: length_take)
  show thesis
  proof (rule that [of s n w2 p r])
    show "AddRecord_bucle cpu b data w =
       (if s = OK \<and> n < length data then AddRecord_bucle cpu False (drop n data) w2 else (s, w2))"
      using e by (simp add: AddRecord_bucle.simps [of cpu b data w] Let_def w1_def [symmetric]
          n_def [symmetric] t_def [symmetric])
    show "codifica cpu (block_offset w) b data = (if n < length data
       then (case codifica cpu (block_offset w2) False (drop n data) of (bs, fin) \<Rightarrow> ((p @ r) @ bs, fin))
       else (p @ r, block_offset w2))"
      unfolding codifica.simps [of cpu "block_offset w"] Let_def n [symmetric] t_def [symmetric] pr(1,6) ..
    show "turnos (block_offset w2) (length data - n) < turnos (block_offset w) (length data) \<or> length data \<le> n"
      using turnos_menos [of "inicio (block_offset w)" "block_offset w" n "length data"]
      by (auto simp: inicio_def pr(6) n)
  qed (use pr assms n_le in \<open>auto simp: writer_ok_def\<close>)
qed

text \<open>
  One record: the bytes of its layout reach the disk, or a beginning of them when the disk
  fails, and the writer stands where the layout ends.
\<close>

lemma AddRecord_bucle_disco:
  assumes "writer_ok w" and "AddRecord_bucle cpu b data w = (s, w')"
    and "codifica cpu (block_offset w) b data = (bs, fin)"
  shows "(s = OK \<longrightarrow> disco (dest w') = disco (dest w) @ bs \<and> block_offset w' = fin \<and> writer_ok w') \<and>
    (s \<noteq> OK \<longrightarrow> s = IOError \<and> (\<exists>p r. bs = p @ r \<and> r \<noteq> [] \<and> disco (dest w') = disco (dest w) @ p))"
  using assms
proof (induction "turnos (block_offset w) (length data)" arbitrary: b data w bs fin rule: less_induct)
  case less
  obtain n p r s1 w2 where
    bucle: "AddRecord_bucle cpu b data w =
       (if s1 = OK \<and> n < length data then AddRecord_bucle cpu False (drop n data) w2 else (s1, w2))"
    and cod: "codifica cpu (block_offset w) b data = (if n < length data
       then (case codifica cpu (block_offset w2) False (drop n data) of (bs, fin) \<Rightarrow> ((p @ r) @ bs, fin))
       else (p @ r, block_offset w2))"
    and w2: "disco (dest w2) = disco (dest w) @ p" "s1 = OK \<longleftrightarrow> r = []"
      "s1 = OK \<Longrightarrow> writer_ok w2" "s1 = OK \<or> s1 = IOError"
    and menos: "turnos (block_offset w2) (length data - n) < turnos (block_offset w) (length data) \<or> length data \<le> n"
    by (rule AddRecord_turno [OF less.prems(1), where cpu = cpu and b = b and data = data]) (rule that)
  show ?case
  proof (cases "s1 = OK \<and> n < length data")
    case True
    obtain bs' fin' where c': "codifica cpu (block_offset w2) False (drop n data) = (bs', fin')" by (rule prod.exhaust)
    have "(s = OK \<longrightarrow> disco (dest w') = disco (dest w2) @ bs' \<and> block_offset w' = fin' \<and> writer_ok w') \<and>
      (s \<noteq> OK \<longrightarrow> s = IOError \<and> (\<exists>p r. bs' = p @ r \<and> r \<noteq> [] \<and> disco (dest w') = disco (dest w2) @ p))"
      using less.hyps [OF _ _ _ c'] menos True w2 bucle less.prems(2) by simp
    moreover have "bs = p @ bs'" "fin = fin'" using less.prems(3) cod c' True w2(2) by auto
    ultimately show ?thesis using w2(1) by auto
  next
    case False
    then show ?thesis
      using less.prems(2,3) cod bucle w2 by (auto split: if_splits prod.splits)
  qed
qed

section \<open>The reader\<close>

text \<open>
  The reader stands at offset \<open>off\<close> of a block with the bytes \<open>bs\<close> still to come, the rest of
  the block in its buffer, and has reported nothing.
\<close>

definition lee :: "Reader \<Rightarrow> nat \<Rightarrow> uint1 list \<Rightarrow> bool" where
  "lee r off bs \<longleftrightarrow> off \<le> kBlockSize \<and> errores (file_ld r) = [] \<and> \<not> read_error r \<and>
     initial_offset r = 0 \<and> informes r = [] \<and> checksum r \<and>
     buffer_ld r = take (kBlockSize - off) bs \<and> resto (file_ld r) = drop (kBlockSize - off) bs \<and>
     (eof r \<longleftrightarrow> length bs < kBlockSize - off)"

lemma lee_nuevo: "lee (Reader_nuevo \<lparr>resto = bs, errores = []\<rparr> True 0) kBlockSize bs"
  by (simp add: lee_def Reader_nuevo_def)

text \<open>What the header says.\<close>

lemma cabecera_campos:
  assumes "procesador_ok cpu" and "length fr < 65536"
  shows "unat (cabecera cpu t fr ! 4) + 256 * unat (cabecera cpu t fr ! 5) = length fr"
    and "scast (cabecera cpu t fr ! 6) = (of_nat (RecordType_code t) :: 32 word)"
    and "Unmask (DecodeFixed32 (cabecera cpu t fr @ bs)) = crc32c_Value cpu 0 (of_nat (RecordType_code t) # fr)"
    and "drop 6 (cabecera cpu t fr @ bs) = of_nat (RecordType_code t) # bs"
proof -
  have c: "cabecera cpu t fr = EncodeFixed32 (Mask (Extend cpu 0 (type_crc cpu t) fr))
      @ [of_nat (length fr mod 256), of_nat (length fr div 256), of_nat (RecordType_code t)]"
    by (simp add: cabecera_def Let_def)
  have c6: "cabecera cpu t fr ! 6 = of_nat (RecordType_code t)" by (simp add: c nth_append)
  have "length fr div 256 < 256" using assms(2) by (simp add: less_mult_imp_div_less)
  then show "unat (cabecera cpu t fr ! 4) + 256 * unat (cabecera cpu t fr ! 5) = length fr"
    by (simp add: c nth_append unat_of_nat)
  show "scast (cabecera cpu t fr ! 6) = (of_nat (RecordType_code t) :: 32 word)"
    by (simp only: c6) (cases t; simp)
  show "Unmask (DecodeFixed32 (cabecera cpu t fr @ bs)) = crc32c_Value cpu 0 (of_nat (RecordType_code t) # fr)"
    using Extend_piezas [OF assms(1), of 0 0 0 "[of_nat (RecordType_code t)]" fr 0]
    by (simp add: c type_crc_def crc32c_Value_def)
  show "drop 6 (cabecera cpu t fr @ bs) = of_nat (RecordType_code t) # bs"
    by (simp add: c)
qed

lemma leer_fragmento_marco:
  assumes "procesador_ok cpu" and "length fr < 65536" and "t \<noteq> kZeroType"
    and b: "buffer_ld r = cabecera cpu t fr @ fr @ xs" and "initial_offset r = 0"
  shows "leer_fragmento cpu r = (of_nat (RecordType_code t), fr, r\<lparr>buffer_ld := xs\<rparr>)"
proof -
  note campos = cabecera_campos [OF assms(1,2), of t]
  have n: "buffer_ld r ! 4 = cabecera cpu t fr ! 4" "buffer_ld r ! 5 = cabecera cpu t fr ! 5"
    "buffer_ld r ! 6 = cabecera cpu t fr ! 6"
    by (simp_all add: b nth_append kHeaderSize_def)
  have "of_nat (RecordType_code t) \<noteq> (0 :: 32 word)" using assms(3) by (cases t) simp_all
  moreover have "crc32c_Value cpu 0 (take (1 + length fr) (drop 6 (buffer_ld r)))
      = Unmask (DecodeFixed32 (buffer_ld r))"
    unfolding b campos(3,4) by simp
  ultimately show ?thesis
    using assms(5) by (simp add: leer_fragmento_def Let_def n campos(1,2)) (simp add: b)
qed

lemma lee_marco:
  assumes "procesador_ok cpu" and "lee r off (marco cpu t fr @ bs)"
    and "off + kHeaderSize + length fr \<le> kBlockSize" and "t \<noteq> kZeroType"
  shows "\<exists>r'. ReadPhysicalRecord cpu r = (of_nat (RecordType_code t), fr, r') \<and>
    lee r' (off + kHeaderSize + length fr) bs"
proof -
  let ?xs = "take (kBlockSize - (off + kHeaderSize + length fr)) bs"
  have b: "buffer_ld r = cabecera cpu t fr @ fr @ ?xs"
    using assms(2,3) by (simp add: lee_def marco_def)
  have "length fr < 65536" using assms(3) by (simp add: kBlockSize_def)
  moreover have "initial_offset r = 0" using assms(2) by (simp add: lee_def)
  ultimately have "leer_fragmento cpu r = (of_nat (RecordType_code t), fr, r\<lparr>buffer_ld := ?xs\<rparr>)"
    using leer_fragmento_marco [OF assms(1) _ assms(4) b] by blast
  then have "ReadPhysicalRecord cpu r = (of_nat (RecordType_code t), fr, r\<lparr>buffer_ld := ?xs\<rparr>)"
    by (simp add: ReadPhysicalRecord.simps [of cpu r] b)
  moreover have "lee (r\<lparr>buffer_ld := ?xs\<rparr>) (off + kHeaderSize + length fr) bs"
    using assms(2,3) by (auto simp: lee_def marco_def)
  ultimately show ?thesis by blast
qed

text \<open>Behind the trailer of a block the reader fetches the next one.\<close>

lemma lee_inicio:
  assumes "lee r off (relleno off @ bs)"
  shows "\<exists>r'. ReadPhysicalRecord cpu r = ReadPhysicalRecord cpu r' \<and> lee r' (inicio off) bs"
proof (cases "kBlockSize < off + kHeaderSize")
  case True
  let ?f = "file_ld r"
  have off: "off \<le> kBlockSize" and z: "length (relleno off) = kBlockSize - off"
    using assms True by (simp_all add: lee_def relleno_def)
  have r: "errores ?f = []" "\<not> read_error r" "\<not> eof r" "resto ?f = bs" "length (buffer_ld r) < kHeaderSize"
    using assms z True off by (auto simp: lee_def)
  let ?r = "r\<lparr>file_ld := ?f\<lparr>resto := drop kBlockSize bs\<rparr>, buffer_ld := take kBlockSize bs,
    end_of_buffer_offset := end_of_buffer_offset r + of_nat (min (length bs) kBlockSize)\<rparr>"
  define r' where "r' = (if length bs < kBlockSize then ?r\<lparr>eof := True, eof_offset := length bs\<rparr> else ?r)"
  have b: "leer_bloque r = (OK, r')"
    using r(1,4) by (simp add: leer_bloque_def Let_def Read_sano r'_def)
  have "lee r' 0 bs" using assms r by (simp add: r'_def lee_def)
  have "ReadPhysicalRecord cpu r = ReadPhysicalRecord cpu r'"
    using r b by (simp add: ReadPhysicalRecord.simps [of cpu r])
  then show ?thesis using \<open>lee r' 0 bs\<close> True by (auto simp: inicio_def)
next
  case False
  then show ?thesis using assms by (auto simp: inicio_def relleno_def)
qed

text \<open>A file that ends inside a physical record, or before it, reads as the end of the file.\<close>

lemma lee_corto:
  assumes "lee r off bs" and "length bs < kHeaderSize" and "length bs < kBlockSize - off"
  shows "\<exists>r'. ReadPhysicalRecord cpu r = (kEof, [], r') \<and> informes r' = []"
  using assms by (simp add: ReadPhysicalRecord.simps [of cpu r] lee_def)

lemma lee_marco_cortado:
  assumes "procesador_ok cpu" and "lee r off bs" and "off + kHeaderSize + length fr \<le> kBlockSize"
    and "bs @ y = marco cpu t fr" and "y \<noteq> []"
  shows "\<exists>r'. ReadPhysicalRecord cpu r = (kEof, [], r') \<and> informes r' = []"
proof (cases "length bs < kHeaderSize")
  case True
  then show ?thesis using lee_corto [OF assms(2)] assms(3) by simp
next
  case False
  have len: "length bs < kHeaderSize + length fr"
    using arg_cong [OF assms(4), of length] assms(5) by (simp add: marco_def flip: length_greater_0_conv)
  have b: "buffer_ld r = bs" and e: "eof r" and i: "informes r = []"
    using assms(2,3) len by (auto simp: lee_def)
  have n: "bs ! i = cabecera cpu t fr ! i" if "i < kHeaderSize" for i
  proof -
    have "bs ! i = (bs @ y) ! i" using that False by (simp add: nth_append)
    then show ?thesis using that by (simp add: assms(4) marco_def nth_append)
  qed
  have "length fr < 65536" using assms(3) by (simp add: kBlockSize_def)
  from cabecera_campos(1) [OF assms(1) this, of t]
  have "unat (bs ! 4) + 256 * unat (bs ! 5) = length fr" by (simp add: n kHeaderSize_def)
  then have "leer_fragmento cpu r = (kEof, [], r\<lparr>buffer_ld := []\<rparr>)"
    using len by (simp add: leer_fragmento_def Let_def b e)
  then show ?thesis using False i by (simp add: ReadPhysicalRecord.simps [of cpu r] b)
qed

lemma lee_cortado:
  assumes "procesador_ok cpu" and "lee r off bs" and "inicio off + kHeaderSize + length fr \<le> kBlockSize"
    and "bs @ y = relleno off @ marco cpu t fr" and "y \<noteq> []"
  shows "\<exists>r'. ReadPhysicalRecord cpu r = (kEof, [], r') \<and> informes r' = []"
proof (cases "length bs < length (relleno off)")
  case True
  then have "length bs < kBlockSize - off" "kBlockSize - off < kHeaderSize"
    by (auto simp: relleno_def split: if_splits)
  then show ?thesis using lee_corto [OF assms(2)] by simp
next
  case False
  define k bs' where "k = length (relleno off)" and "bs' = drop k bs"
  have "take k (bs @ y) = relleno off" "drop k (bs @ y) = marco cpu t fr"
    by (simp_all add: assms(4) k_def)
  then have bs: "bs = relleno off @ bs'" and "bs' @ y = marco cpu t fr"
    using False by (auto simp: bs'_def simp flip: k_def) (metis append_take_drop_id)
  obtain r' where r': "ReadPhysicalRecord cpu r = ReadPhysicalRecord cpu r'" "lee r' (inicio off) bs'"
    using lee_inicio assms(2) unfolding bs by blast
  show ?thesis
    unfolding r'(1) using lee_marco_cortado [OF assms(1) r'(2) assms(3) \<open>bs' @ y = marco cpu t fr\<close> assms(5)] .
qed

section \<open>Whole records\<close>

lemma tipo_codes:
  "of_nat (RecordType_code (tipo_fragmento b f)) =
     (if b then if f then 1 else 2 else if f then 4 else (3 :: 32 word))"
  by (simp add: tipo_fragmento_def)

text \<open>One turn of the layout, next to what the reader finds there.\<close>

lemma lee_turno:
  assumes "procesador_ok cpu" and "n = fragment_length (inicio off) (length data)"
    and "lee r off (relleno off @ marco cpu (tipo_fragmento b f) (take n data) @ rest)"
  shows "\<exists>r'. ReadPhysicalRecord cpu r = (of_nat (RecordType_code (tipo_fragmento b f)), take n data, r') \<and>
    lee r' (inicio off + kHeaderSize + n) rest"
proof -
  have len: "length (take n data) = n" using assms(2) fragment_length_le(1) by simp
  obtain r1 where r1: "ReadPhysicalRecord cpu r = ReadPhysicalRecord cpu r1"
    "lee r1 (inicio off) (marco cpu (tipo_fragmento b f) (take n data) @ rest)"
    using lee_inicio [OF assms(3)] by blast
  have "inicio off + kHeaderSize + length (take n data) \<le> kBlockSize" "tipo_fragmento b f \<noteq> kZeroType"
    using fragment_length_le(2) [OF inicio_le] assms(2) len by (simp_all add: tipo_fragmento_def)
  from lee_marco [OF assms(1) r1(2) this] show ?thesis using r1(1) len by simp
qed

lemma ReadRecord_bucle_codifica:
  assumes "procesador_ok cpu" and "codifica cpu off b data = (bs, fin)" and "lee r off (bs @ rest)"
  shows "\<exists>r'. ReadRecord_bucle cpu (\<not> b) sc pr r = (Some ((if b then [] else sc) @ data), r') \<and> lee r' fin rest"
  using assms
proof (induction cpu off b data arbitrary: bs fin r sc pr rule: codifica.induct)
  case (1 cpu off b data)
  define n where "n = fragment_length (inicio off) (length data)"
  let ?fin = "inicio off + kHeaderSize + n" and ?f = "length data = n"
  let ?m = "relleno off @ marco cpu (tipo_fragmento b ?f) (take n data)"
  obtain bs' fin' where c': "codifica cpu ?fin False (drop n data) = (bs', fin')" by (rule prod.exhaust)
  have bs: "(bs, fin) = (if n < length data then (?m @ bs', fin') else (?m, ?fin))"
    using "1.prems"(2) [symmetric] unfolding codifica.simps [of cpu off] Let_def n_def [symmetric] c' prod.case .
  have n_le: "n \<le> length data" using fragment_length_le(1) by (simp add: n_def)
  obtain r1 where r1: "ReadPhysicalRecord cpu r = (of_nat (RecordType_code (tipo_fragmento b ?f)), take n data, r1)"
    and l: "lee r1 ?fin ((if n < length data then bs' else []) @ rest)"
    using lee_turno [OF "1.prems"(1) n_def, of r b ?f] "1.prems"(3) bs by (cases "n < length data") auto
  show ?case
  proof (cases "n < length data")
    case True
    then have l': "lee r1 ?fin (bs' @ rest)" and f: "fin = fin'" using l bs by auto
    note IH = "1.IH" [OF n_def refl refl True "1.prems"(1) c' l']
    show ?thesis
    proof (cases b)
      case True
      then show ?thesis
        using IH [of "take n data"] \<open>n < length data\<close> r1 f
        by (simp add: ReadRecord_bucle.simps [of cpu _ _ _ r] Let_def tipo_codes kEof_def)
    next
      case False
      then show ?thesis
        using IH [of "sc @ take n data"] \<open>n < length data\<close> r1 f
        by (simp add: ReadRecord_bucle.simps [of cpu _ _ _ r] Let_def tipo_codes kEof_def)
    qed
  next
    case False
    then have "n = length data" using n_le by simp
    then show ?thesis
      using r1 l bs by (cases b)
        (simp_all add: ReadRecord_bucle.simps [of cpu _ _ _ r] Let_def tipo_codes kEof_def lee_def)
  qed
qed

text \<open>A file that ends inside a record: the reader finds the end of the file and reports nothing.\<close>

lemma ReadRecord_bucle_cortado:
  assumes "procesador_ok cpu" and "codifica cpu off b data = (bs @ y, fin)" and "y \<noteq> []" and "lee r off bs"
  shows "\<exists>r'. ReadRecord_bucle cpu (\<not> b) sc pr r = (None, r') \<and> informes r' = []"
  using assms
proof (induction cpu off b data arbitrary: bs fin r sc pr rule: codifica.induct)
  case (1 cpu off b data)
  define n where "n = fragment_length (inicio off) (length data)"
  let ?fin = "inicio off + kHeaderSize + n" and ?f = "length data = n"
  let ?m = "relleno off @ marco cpu (tipo_fragmento b ?f) (take n data)"
  obtain bs' fin' where c': "codifica cpu ?fin False (drop n data) = (bs', fin')" by (rule prod.exhaust)
  have bs: "(bs @ y, fin) = (if n < length data then (?m @ bs', fin') else (?m, ?fin))"
    using "1.prems"(2) [symmetric] unfolding codifica.simps [of cpu off] Let_def n_def [symmetric] c' prod.case .
  have len: "inicio off + kHeaderSize + length (take n data) \<le> kBlockSize"
    using fragment_length_le(2) [OF inicio_le, of off "length data"] fragment_length_le(1) [of "inicio off" "length data"]
    by (simp add: n_def)
  show ?case
  proof (cases "length bs < length ?m")
    case True
    have "bs @ y = ?m @ (if n < length data then bs' else [])" using bs by (simp split: if_splits)
    then have "take (length ?m) (bs @ y) = ?m" by (metis append_eq_conv_conj)
    then have "bs @ take (length ?m - length bs) y = ?m" using True by simp
    moreover have "take (length ?m - length bs) y \<noteq> []" using True "1.prems"(3) by simp
    ultimately obtain r' where "ReadPhysicalRecord cpu r = (kEof, [], r')" "informes r' = []"
      using lee_cortado [OF "1.prems"(1,4) len] by blast
    then show ?thesis by (simp add: ReadRecord_bucle.simps [of cpu _ _ _ r] Let_def)
  next
    case False
    have "length ?m < length (bs @ y)"
      using False "1.prems"(3) by (simp add: not_less le_less_trans add_le_less_mono [of _ _ 0, simplified])
    then have "bs @ y \<noteq> ?m" by force
    then have m: "n < length data" "?m @ bs' = bs @ y" using bs by (simp_all split: if_splits)
    from m(2) False obtain bs1 where bs1: "bs = ?m @ bs1" "bs1 @ y = bs'"
      unfolding append_eq_append_conv_if not_less by (metis append_take_drop_id)
    obtain r1 where r1: "ReadPhysicalRecord cpu r = (of_nat (RecordType_code (tipo_fragmento b ?f)), take n data, r1)"
      and l: "lee r1 ?fin bs1"
      using lee_turno [OF "1.prems"(1) n_def, of r b ?f bs1] "1.prems"(4) bs1(1) by auto
    note IH = "1.IH" [OF n_def refl refl m(1) "1.prems"(1) c' [folded bs1(2)] "1.prems"(3) l]
    show ?thesis
      using IH [of "take n data"] IH [of "sc @ take n data"] m(1) r1
      by (cases b) (simp_all add: ReadRecord_bucle.simps [of cpu _ _ _ r] Let_def tipo_codes kEof_def)
  qed
qed

section \<open>Whole files\<close>

fun bitacora :: "procesador \<Rightarrow> nat \<Rightarrow> uint1 list list \<Rightarrow> uint1 list \<times> nat" where
  "bitacora cpu off [] = ([], off)"
| "bitacora cpu off (x # xs) =
     (case codifica cpu off True x of (bs, off1) \<Rightarrow>
        case bitacora cpu off1 xs of (bs', fin) \<Rightarrow> (bs @ bs', fin))"

text \<open>The records up to the first one the disk refuses, and how many were accepted.\<close>

fun AddRecords :: "procesador \<Rightarrow> uint1 list list \<Rightarrow> Writer \<Rightarrow> nat \<times> Writer" where
  "AddRecords cpu [] w = (0, w)"
| "AddRecords cpu (x # xs) w =
     (case AddRecord cpu x w of (s, w1) \<Rightarrow>
        if s = OK then (case AddRecords cpu xs w1 of (k, w2) \<Rightarrow> (Suc k, w2)) else (0, w1))"

lemma SkipToInitialBlock_pendientes:
  "SkipToInitialBlock r = (b, r') \<Longrightarrow> pendientes r' \<le> pendientes r"
  by (auto simp: SkipToInitialBlock_def Let_def Skip_def pendientes_def ReportDrop_def
      split: if_splits list.splits option.splits)

lemma ReadRecord_bucle_pendientes:
  "ReadRecord_bucle cpu fr sc pr r = (Some x, r') \<Longrightarrow> pendientes r' + kHeaderSize \<le> pendientes r"
proof (induction "pendientes r" arbitrary: fr sc pr r rule: less_induct)
  case less
  obtain t f r1 where p: "ReadPhysicalRecord cpu r = (t, f, r1)" by (rule prod_cases3)
  have ne: "t \<noteq> kEof" using less.prems p by (auto simp: ReadRecord_bucle.simps [of cpu fr sc pr r] Let_def)
  note men = ReadPhysicalRecord_pendientes [OF p ne]
  have IH: "pendientes r' + kHeaderSize \<le> pendientes r"
    if "ReadRecord_bucle cpu a b c r2 = (Some x, r')" "pendientes r2 = pendientes r1" for a b c r2
    using less.hyps [OF _ that(1)] that(2) men by (simp add: kHeaderSize_def)
  have fin: "pendientes (r2\<lparr>last_record_offset := c\<rparr>) = pendientes r2" for r2 c by (simp add: pendientes_def)
  show ?case
    using less.prems p ne men
    by (auto simp: ReadRecord_bucle.simps [of cpu fr sc pr r] Let_def fin split: if_splits dest: IH)
qed

lemma ReadRecord_pendientes:
  "ReadRecord cpu r = (Some x, r') \<Longrightarrow> pendientes r' + kHeaderSize \<le> pendientes r"
  by (auto simp: ReadRecord_def split: if_splits prod.splits
      dest!: ReadRecord_bucle_pendientes SkipToInitialBlock_pendientes)

text \<open>The loop of the clients: read records until there is none.\<close>

function leer_registros :: "procesador \<Rightarrow> Reader \<Rightarrow> uint1 list list \<times> Reader" where
  "leer_registros cpu r =
     (case ReadRecord cpu r of
        (None, r1) \<Rightarrow> ([], r1)
      | (Some x, r1) \<Rightarrow> (case leer_registros cpu r1 of (xs, r2) \<Rightarrow> (x # xs, r2)))"
  by pat_completeness auto
termination
  by (relation "measure (\<lambda>(cpu, r). pendientes r)")
    (auto simp: kHeaderSize_def dest!: ReadRecord_pendientes [OF sym])

declare leer_registros.simps [simp del]

lemma leer_registros_cota: "length (fst (leer_registros cpu r)) * kHeaderSize \<le> pendientes r"
proof (induction cpu r rule: leer_registros.induct)
  case (1 cpu r)
  show ?case
  proof (cases "ReadRecord cpu r")
    case (Pair o1 r1)
    then show ?thesis
      using "1.IH" [OF Pair [symmetric]] ReadRecord_pendientes [of cpu r _ r1]
      by (cases o1) (force simp: leer_registros.simps [of cpu r] split: prod.splits)+
  qed
qed

lemma codifica_nonempty: "fst (codifica cpu off b data) \<noteq> []"
proof -
  have "0 < length (marco cpu t fr)" for t fr by (simp add: marco_def kHeaderSize_def)
  then show ?thesis by (auto simp: codifica.simps [of cpu off] Let_def split: prod.split)
qed

lemma ReadRecord_lee: "lee r off bs \<Longrightarrow> ReadRecord cpu r = ReadRecord_bucle cpu False [] 0 r"
  by (simp add: ReadRecord_def lee_def)

lemma ReadRecord_codifica:
  assumes "procesador_ok cpu" and "codifica cpu off True x = (bs, fin)" and "lee r off (bs @ rest)"
  shows "\<exists>r'. ReadRecord cpu r = (Some x, r') \<and> lee r' fin rest"
  using ReadRecord_bucle_codifica [OF assms, of "[]" 0] by (simp add: ReadRecord_lee [OF assms(3)])

lemma ReadRecord_cortado:
  assumes "procesador_ok cpu" and "codifica cpu off True x = (bs @ y, fin)" and "y \<noteq> []" and "lee r off bs"
  shows "\<exists>r'. ReadRecord cpu r = (None, r') \<and> informes r' = []"
  using ReadRecord_bucle_cortado [OF assms, of "[]" 0] by (simp add: ReadRecord_lee [OF assms(4)])

lemma ReadRecord_fin:
  assumes "procesador_ok cpu" and "lee r off []"
  shows "\<exists>r'. ReadRecord cpu r = (None, r') \<and> informes r' = []"
proof -
  obtain bs fin where c: "codifica cpu off True [] = (bs, fin)" by (rule prod.exhaust)
  then have "bs \<noteq> []" using codifica_nonempty [of cpu off True "[]"] by simp
  with c show ?thesis using ReadRecord_cortado [OF assms(1), of off "[]" "[]" bs fin] assms(2) by simp
qed

text \<open>A file cut anywhere: the records that are there in full, and nothing reported.\<close>

lemma leer_registros_cortado:
  assumes "procesador_ok cpu" and "fst (bitacora cpu off rs) = bs @ y" and "lee r off bs"
  shows "\<exists>m r'. leer_registros cpu r = (take m rs, r') \<and> informes r' = [] \<and> m \<le> length rs \<and>
    length (fst (bitacora cpu off (take m rs))) \<le> length bs \<and>
    (\<forall>j \<le> length rs. length (fst (bitacora cpu off (take j rs))) \<le> length bs \<longrightarrow> j \<le> m)"
  using assms(2,3)
proof (induction rs arbitrary: off bs r)
  case Nil
  then show ?case
    using ReadRecord_fin [OF assms(1), of r off] by (auto simp: leer_registros.simps [of cpu r])
next
  case (Cons x rs)
  obtain cs off1 where c: "codifica cpu off True x = (cs, off1)" by (rule prod.exhaust)
  obtain ds fin where d: "bitacora cpu off1 rs = (ds, fin)" by (rule prod.exhaust)
  have all: "cs @ ds = bs @ y" using Cons.prems(1) c d by simp
  have len: "length (fst (bitacora cpu off (take (Suc j) (x # rs))))
      = length cs + length (fst (bitacora cpu off1 (take j rs)))" for j
    using c by (simp split: prod.split)
  show ?case
  proof (cases "length bs < length cs")
    case True
    define z where "z = drop (length bs) cs"
    have "bs = take (length bs) cs" using arg_cong [OF all, of "take (length bs)"] True by simp
    then have cs: "cs = bs @ z" and "z \<noteq> []" using True by (simp_all add: z_def) (metis append_take_drop_id)
    then obtain r' where "ReadRecord cpu r = (None, r')" "informes r' = []"
      using ReadRecord_cortado [OF assms(1) _ \<open>z \<noteq> []\<close> Cons.prems(2)] c by blast
    moreover have "j = 0" if "length (fst (bitacora cpu off (take j (x # rs)))) \<le> length bs" for j
      using that True len [of "j - 1"] by (cases j) simp_all
    ultimately show ?thesis by (intro exI [of _ 0]) (auto simp: leer_registros.simps [of cpu r])
  next
    case False
    define es where "es = drop (length cs) bs"
    have bs: "bs = cs @ es" using arg_cong [OF all, of "take (length cs)"] False
      by (simp add: es_def) (metis append_take_drop_id)
    obtain r1 where r1: "ReadRecord cpu r = (Some x, r1)" "lee r1 off1 es"
      using ReadRecord_codifica [OF assms(1) c, of r es] Cons.prems(2) bs by blast
    have "fst (bitacora cpu off1 rs) = es @ y" using all bs d by simp
    from Cons.IH [OF this r1(2)] obtain m r' where m: "leer_registros cpu r1 = (take m rs, r')" "informes r' = []"
      "m \<le> length rs" "length (fst (bitacora cpu off1 (take m rs))) \<le> length es"
      "\<forall>j \<le> length rs. length (fst (bitacora cpu off1 (take j rs))) \<le> length es \<longrightarrow> j \<le> m" by blast
    have "j \<le> Suc m" if "j \<le> length (x # rs)" "length (fst (bitacora cpu off (take j (x # rs)))) \<le> length bs" for j
      using that m(5) len [of "j - 1"] bs by (cases j) simp_all
    then show ?thesis
      using m r1(1) len [of m] bs by (intro exI [of _ "Suc m"]) (simp add: leer_registros.simps [of cpu r])
  qed
qed

text \<open>What a sequence of calls leaves on the disk, up to the call the disk makes fail.\<close>

lemma AddRecords_disco:
  assumes "writer_ok w" and "AddRecords cpu rs w = (k, w')"
  shows "k \<le> length rs \<and> (\<exists>p y. disco (dest w') = disco (dest w) @ fst (bitacora cpu (block_offset w) (take k rs)) @ p \<and>
    fst (bitacora cpu (block_offset w) (take (Suc k) rs)) = fst (bitacora cpu (block_offset w) (take k rs)) @ p @ y \<and>
    (k < length rs \<longrightarrow> y \<noteq> []))"
  using assms
proof (induction rs arbitrary: w k)
  case (Cons x rs)
  obtain s w1 where a: "AddRecord cpu x w = (s, w1)" by (rule prod.exhaust)
  obtain cs fin where c: "codifica cpu (block_offset w) True x = (cs, fin)" by (rule prod.exhaust)
  note d = AddRecord_bucle_disco [OF Cons.prems(1) a [unfolded AddRecord_def] c]
  have cons: "fst (bitacora cpu (block_offset w) (x # ys)) = cs @ fst (bitacora cpu fin ys)" for ys
    using c by (simp split: prod.split)
  show ?case
  proof (cases "s = OK")
    case True
    obtain j w2 where j: "AddRecords cpu rs w1 = (j, w2)" by (rule prod.exhaust)
    then have k: "k = Suc j" "w' = w2" using Cons.prems(2) a True by simp_all
    from d True have w1: "disco (dest w1) = disco (dest w) @ cs" "block_offset w1 = fin" "writer_ok w1" by auto
    show ?thesis using Cons.IH [OF w1(3) j [folded k(2)]] w1 by (simp add: k cons del: bitacora.simps(2))
  next
    case False
    then have "k = 0" "w' = w1" using Cons.prems(2) a by simp_all
    then show ?thesis using d False by (auto simp: cons simp del: bitacora.simps(2))
  qed
qed simp

lemma bitacora_inicio: "fst (bitacora cpu kBlockSize rs) = fst (bitacora cpu 0 rs)"
proof -
  have "inicio kBlockSize = inicio 0" "relleno kBlockSize = relleno 0"
    by (simp_all add: inicio_def relleno_def kBlockSize_def kHeaderSize_def)
  then have "codifica cpu kBlockSize b x = codifica cpu 0 b x" for b x
    by (simp add: codifica.simps [of cpu kBlockSize] codifica.simps [of cpu 0])
  then show ?thesis by (cases rs) simp_all
qed

text \<open>From a fresh writer to a reader of what is left of its file.\<close>

lemma log_cortado:
  assumes "procesador_ok cpu"
    and "AddRecords cpu rs (Writer_nuevo (PosixWritableFile_nuevo 65536 resp)) = (k, w)"
  shows "\<exists>m r. leer_registros cpu (Reader_nuevo \<lparr>resto = take n (disco (dest w)), errores = []\<rparr> True 0)
      = (take m rs, r) \<and> informes r = [] \<and> m \<le> k \<and> (length (disco (dest w)) \<le> n \<longrightarrow> m = k)"
proof -
  let ?w = "Writer_nuevo (PosixWritableFile_nuevo 65536 resp)" and ?b = "\<lambda>j. fst (bitacora cpu 0 (take j rs))"
  have w: "writer_ok ?w" "disco (dest ?w) = []" "block_offset ?w = 0"
    by (simp_all add: writer_ok_def Writer_nuevo_def PosixWritableFile_nuevo_def)
  from AddRecords_disco [OF w(1) assms(2)] obtain p y where k: "k \<le> length rs"
    and d: "disco (dest w) = ?b k @ p" and y: "?b (Suc k) = ?b k @ p @ y" "k < length rs \<longrightarrow> y \<noteq> []"
    unfolding w append_Nil by blast
  let ?bs = "take n (disco (dest w))"
  have "fst (bitacora cpu kBlockSize (take (Suc k) rs)) = ?bs @ (drop n (disco (dest w)) @ y)"
    unfolding bitacora_inicio y(1) append_assoc [symmetric] d [symmetric] by simp
  from leer_registros_cortado [OF assms(1) this lee_nuevo] obtain m r
    where m: "leer_registros cpu (Reader_nuevo \<lparr>resto = ?bs, errores = []\<rparr> True 0) = (take m (take (Suc k) rs), r)"
      "informes r = []" "m \<le> length (take (Suc k) rs)" "length (?b (min m (Suc k))) \<le> length ?bs"
      "\<forall>j \<le> length (take (Suc k) rs). length (?b (min j (Suc k))) \<le> length ?bs \<longrightarrow> j \<le> m"
    unfolding bitacora_inicio take_take by blast
  have "m \<le> k"
  proof (rule ccontr)
    assume "\<not> m \<le> k"
    then have "k < length rs" "min m (Suc k) = Suc k" using m(3) by auto
    then have "length (?b (Suc k)) \<le> length (disco (dest w))" using m(4) by simp
    then show False using y \<open>k < length rs\<close> by (simp add: d)
  qed
  moreover have "m = k" if "length (disco (dest w)) \<le> n"
    using m(5) [rule_format, of k] k that \<open>m \<le> k\<close> by (simp add: d)
  ultimately show ?thesis using m(1,2) by auto
qed

section \<open>Properties\<close>

text \<open>
  C14: the records the writer accepted are read back, in order and unchanged, from the bytes
  that reached the disk, whatever their number and length and however the operating system
  cut or refused the writes; and when the file loses its end, at any byte, the reader still
  returns the first records and reports no corruption.
\<close>
theorem log_survives_cut:
  assumes "procesador_ok cpu"
    and "AddRecords cpu rs (Writer_nuevo (PosixWritableFile_nuevo 65536 resp)) = (k, w)"
  shows "\<exists>m r. leer_registros cpu (Reader_nuevo \<lparr>resto = take n (disco (dest w)), errores = []\<rparr> True 0)
      = (take m rs, r) \<and> informes r = [] \<and> m \<le> k \<and> (length (disco (dest w)) \<le> n \<longrightarrow> m = k)"
  using log_cortado [OF assms] .

theorem log_survives_cut_witness:
  "\<exists>m r. leer_registros None (Reader_nuevo \<lparr>resto = take 20 (disco (dest (snd (AddRecords None [[1, 2, 3], [], [4]]
        (Writer_nuevo (PosixWritableFile_nuevo 65536 [Hecho 5, Interrumpido, Hecho 9])))))), errores = []\<rparr> True 0)
      = (take m [[1, 2, 3], [], [4]], r) \<and> informes r = []"
  using log_survives_cut [of None "[[1, 2, 3], [], [4]]" "[Hecho 5, Interrumpido, Hecho 9]"]
  by (metis procesador_ok_None prod.collapse)


end
