(* ===== verification/RocksDB_Batch.thy ===== *)
theory RocksDB_Batch
  imports RocksDB RocksDB_Coding
begin

text \<open>
  The bytes of a write batch (\<open>db/write_batch.cc\<close>): eight bytes of sequence number, four of
  count, and the records, each a tag and length-prefixed slices. Building a batch, reading its
  records back with every way it can be corrupt, iterating over it with a handler, and the
  handler that inserts into the memtable. Inserting the bytes of a batch does what inserting
  its decoded records does, and a batch that lost its end is refused.
\<close>

section \<open>Building\<close>

definition kHeader :: nat where
  "kHeader = 12"

definition kTypeLogData :: uint1 where "kTypeLogData = 3"
definition kTypeColumnFamilyDeletion :: uint1 where "kTypeColumnFamilyDeletion = 4"
definition kTypeColumnFamilyValue :: uint1 where "kTypeColumnFamilyValue = 5"
definition kTypeColumnFamilyMerge :: uint1 where "kTypeColumnFamilyMerge = 6"

definition etiqueta :: "ValueType \<Rightarrow> uint1" where
  "etiqueta t = of_nat (ValueType_code t)"

definition WriteBatch_Clear :: "uint1 list" where
  "WriteBatch_Clear = replicate kHeader 0"

definition WriteBatchInternal_Count :: "uint1 list \<Rightarrow> 32 word" where
  "WriteBatchInternal_Count rep = DecodeFixed32 (drop 8 rep)"

definition WriteBatchInternal_SetCount :: "32 word \<Rightarrow> uint1 list \<Rightarrow> uint1 list" where
  "WriteBatchInternal_SetCount n rep = take 8 rep @ EncodeFixed32 n @ drop 12 rep"

definition WriteBatchInternal_Sequence :: "uint1 list \<Rightarrow> 64 word" where
  "WriteBatchInternal_Sequence rep = DecodeFixed64 rep"

definition WriteBatchInternal_SetSequence :: "64 word \<Rightarrow> uint1 list \<Rightarrow> uint1 list" where
  "WriteBatchInternal_SetSequence sq rep = EncodeFixed64 sq @ drop 8 rep"

text \<open>The tag of a record, with the column family when it is not the default one.\<close>

definition poner_etiqueta :: "32 word \<Rightarrow> uint1 \<Rightarrow> uint1 \<Rightarrow> uint1 list" where
  "poner_etiqueta cf t tcf = (if cf = 0 then [t] else tcf # EncodeVarint32 cf)"

definition WriteBatchInternal_Put :: "32 word \<Rightarrow> uint1 list \<Rightarrow> uint1 list \<Rightarrow> uint1 list \<Rightarrow> uint1 list" where
  "WriteBatchInternal_Put cf key val b =
     WriteBatchInternal_SetCount (WriteBatchInternal_Count b + 1) b
       @ poner_etiqueta cf (etiqueta kTypeValue) kTypeColumnFamilyValue
       @ PutLengthPrefixedSlice key @ PutLengthPrefixedSlice val"

definition WriteBatchInternal_Delete :: "32 word \<Rightarrow> uint1 list \<Rightarrow> uint1 list \<Rightarrow> uint1 list" where
  "WriteBatchInternal_Delete cf key b =
     WriteBatchInternal_SetCount (WriteBatchInternal_Count b + 1) b
       @ poner_etiqueta cf (etiqueta kTypeDeletion) kTypeColumnFamilyDeletion
       @ PutLengthPrefixedSlice key"

definition WriteBatchInternal_Merge :: "32 word \<Rightarrow> uint1 list \<Rightarrow> uint1 list \<Rightarrow> uint1 list \<Rightarrow> uint1 list" where
  "WriteBatchInternal_Merge cf key val b =
     WriteBatchInternal_SetCount (WriteBatchInternal_Count b + 1) b
       @ poner_etiqueta cf (etiqueta kTypeMerge) kTypeColumnFamilyMerge
       @ PutLengthPrefixedSlice key @ PutLengthPrefixedSlice val"

definition WriteBatch_PutLogData :: "uint1 list \<Rightarrow> uint1 list \<Rightarrow> uint1 list" where
  "WriteBatch_PutLogData blob rep = rep @ kTypeLogData # PutLengthPrefixedSlice blob"

definition WriteBatchInternal_Append :: "uint1 list \<Rightarrow> uint1 list \<Rightarrow> uint1 list" where
  "WriteBatchInternal_Append dst src =
     WriteBatchInternal_SetCount (WriteBatchInternal_Count dst + WriteBatchInternal_Count src) dst
       @ drop kHeader src"

section \<open>Reading\<close>

text \<open>A record as it is read: tag, column family, key, value, blob. \<open>None\<close> is a corruption.\<close>

type_synonym leido = "uint1 \<times> 32 word \<times> uint1 list \<times> uint1 list \<times> uint1 list"

definition leer_familia :: "bool \<Rightarrow> uint1 list \<Rightarrow> (32 word \<times> uint1 list) option" where
  "leer_familia con input = (if con then GetVarint32 input else Some (0, input))"

definition ReadRecordFromWriteBatch :: "uint1 list \<Rightarrow> (leido \<times> uint1 list) option" where
  "ReadRecordFromWriteBatch input =
     (let tag = hd input; input = tl input
      in if tag = kTypeColumnFamilyValue \<or> tag = etiqueta kTypeValue
            \<or> tag = kTypeColumnFamilyMerge \<or> tag = etiqueta kTypeMerge
         then Option.bind (leer_familia (tag = kTypeColumnFamilyValue \<or> tag = kTypeColumnFamilyMerge) input)
                (\<lambda>(cf, input). Option.bind (GetLengthPrefixedSlice input)
                (\<lambda>(key, input). Option.bind (GetLengthPrefixedSlice input)
                (\<lambda>(val, input). Some ((tag, cf, key, val, []), input))))
         else if tag = kTypeColumnFamilyDeletion \<or> tag = etiqueta kTypeDeletion
         then Option.bind (leer_familia (tag = kTypeColumnFamilyDeletion) input)
                (\<lambda>(cf, input). Option.bind (GetLengthPrefixedSlice input)
                (\<lambda>(key, input). Some ((tag, cf, key, [], []), input)))
         else if tag = kTypeLogData
         then Option.bind (GetLengthPrefixedSlice input)
                (\<lambda>(blob, input). Some ((tag, 0, [], [], blob), input))
         else None)"

lemma leer_familia_shorter: "leer_familia c bs = Some (cf, rest) \<Longrightarrow> length rest \<le> length bs"
  by (auto simp: leer_familia_def GetVarint32_fallback split: if_splits
      dest!: GetVarint32PtrFallback_shorter)

lemma GetLengthPrefixedSlice_le: "GetLengthPrefixedSlice bs = Some (x, rest) \<Longrightarrow> length rest \<le> length bs"
  using GetLengthPrefixedSlice_shorter by fastforce

lemma ReadRecordFromWriteBatch_shorter:
  assumes "ReadRecordFromWriteBatch bs = Some (x, rest)" and "bs \<noteq> []"
  shows "length rest < length bs"
proof -
  have "length rest \<le> length (tl bs)"
    using assms(1)
    by (auto simp: ReadRecordFromWriteBatch_def Let_def bind_eq_Some_conv split: if_splits
        dest!: leer_familia_shorter GetLengthPrefixedSlice_le)
  moreover have "length (tl bs) < length bs" using assms(2) by (cases bs) simp_all
  ultimately show ?thesis by simp
qed

section \<open>Iterating\<close>

text \<open>The class \<open>WriteBatch::Handler\<close>, on a state of the handler.\<close>

record 's Handler =
  h_PutCF :: "32 word \<Rightarrow> uint1 list \<Rightarrow> uint1 list \<Rightarrow> 's \<Rightarrow> Status \<times> 's"
  h_DeleteCF :: "32 word \<Rightarrow> uint1 list \<Rightarrow> 's \<Rightarrow> Status \<times> 's"
  h_MergeCF :: "32 word \<Rightarrow> uint1 list \<Rightarrow> uint1 list \<Rightarrow> 's \<Rightarrow> Status \<times> 's"
  h_LogData :: "uint1 list \<Rightarrow> 's \<Rightarrow> 's"
  h_Continue :: "'s \<Rightarrow> bool"

definition despachar :: "'s Handler \<Rightarrow> leido \<Rightarrow> 's \<Rightarrow> Status \<times> nat \<times> 's" where
  "despachar h x st =
     (case x of (tag, cf, key, val, blob) \<Rightarrow>
        if tag = kTypeColumnFamilyValue \<or> tag = etiqueta kTypeValue
        then (case h_PutCF h cf key val st of (s, st') \<Rightarrow> (s, 1, st'))
        else if tag = kTypeColumnFamilyDeletion \<or> tag = etiqueta kTypeDeletion
        then (case h_DeleteCF h cf key st of (s, st') \<Rightarrow> (s, 1, st'))
        else if tag = kTypeColumnFamilyMerge \<or> tag = etiqueta kTypeMerge
        then (case h_MergeCF h cf key val st of (s, st') \<Rightarrow> (s, 1, st'))
        else (OK, 0, h_LogData h blob st))"

function Iterate_bucle :: "'s Handler \<Rightarrow> uint1 list \<Rightarrow> nat \<Rightarrow> 's \<Rightarrow> Status \<times> nat \<times> 's" where
  "Iterate_bucle h input found st =
     (if input = [] \<or> \<not> h_Continue h st then (OK, found, st)
      else (case ReadRecordFromWriteBatch input of
              None \<Rightarrow> (Corruption, found, st)
            | Some (x, input') \<Rightarrow>
                (case despachar h x st of (s, n, st') \<Rightarrow>
                   if s \<noteq> OK then (s, found + n, st') else Iterate_bucle h input' (found + n) st')))"
  by pat_completeness auto
termination
  by (relation "measure (\<lambda>(h, input, found, st). length input)")
    (auto simp: ReadRecordFromWriteBatch_shorter)

declare Iterate_bucle.simps [simp del]

definition WriteBatch_Iterate :: "'s Handler \<Rightarrow> uint1 list \<Rightarrow> 's \<Rightarrow> Status \<times> 's" where
  "WriteBatch_Iterate h rep st =
     (if length rep < kHeader then (Corruption, st)
      else (case Iterate_bucle h (drop kHeader rep) 0 st of (s, found, st') \<Rightarrow>
              if s \<noteq> OK then (s, st')
              else if of_nat found \<noteq> WriteBatchInternal_Count rep then (Corruption, st')
              else (OK, st')))"

section \<open>Inserting into the memtable\<close>

text \<open>
  The server opens the database with the default column family only, so that no other is
  found. \<open>log_number\<close> is 0 outside recovery, \<open>cf_log\<close> the log the family has data from.
\<close>

definition SeekToColumnFamily :: "bool \<Rightarrow> nat \<Rightarrow> nat \<Rightarrow> 32 word \<Rightarrow> bool \<times> Status" where
  "SeekToColumnFamily ignore_missing log_number cf_log cf =
     (if cf \<noteq> 0 then (False, if ignore_missing then OK else InvalidArgument)
      else if log_number \<noteq> 0 \<and> log_number < cf_log then (False, OK)
      else (True, OK))"

definition MergeCF :: "string \<Rightarrow> string \<Rightarrow> nat \<times> MemTable \<Rightarrow> nat \<times> MemTable" where
  "MergeCF key val i = (case i of (sq, m) \<Rightarrow> (sq + 1, MemTable_Add sq kTypeMerge key val m))"

definition MemTableInserter :: "bool \<Rightarrow> nat \<Rightarrow> nat \<Rightarrow> (nat \<times> MemTable) Handler" where
  "MemTableInserter ignore_missing log_number cf_log =
     (let con = (\<lambda>cf f i. case SeekToColumnFamily ignore_missing log_number cf_log cf of
                  (found, s) \<Rightarrow> if found then (OK, f i) else (s, (fst i + 1, snd i)))
      in \<lparr>h_PutCF = (\<lambda>cf key val. con cf (PutCF (texto_of key) (texto_of val))),
          h_DeleteCF = (\<lambda>cf key. con cf (DeleteCF (texto_of key))),
          h_MergeCF = (\<lambda>cf key val. con cf (MergeCF (texto_of key) (texto_of val))),
          h_LogData = (\<lambda>blob i. i),
          h_Continue = (\<lambda>i. True)\<rparr>)"

definition WriteBatchInternal_InsertInto ::
  "bool \<Rightarrow> nat \<Rightarrow> nat \<Rightarrow> uint1 list \<Rightarrow> MemTable \<Rightarrow> Status \<times> MemTable" where
  "WriteBatchInternal_InsertInto ignore_missing log_number cf_log rep m =
     (case WriteBatch_Iterate (MemTableInserter ignore_missing log_number cf_log) rep
             (unat (WriteBatchInternal_Sequence rep), m) of (s, (sq, m')) \<Rightarrow> (s, m'))"

section \<open>The bytes of a batch and its records\<close>

fun registro_bytes :: "registro \<Rightarrow> uint1 list" where
  "registro_bytes (RPut k v) =
     etiqueta kTypeValue # PutLengthPrefixedSlice (bytes_of k) @ PutLengthPrefixedSlice (bytes_of v)"
| "registro_bytes (RDelete k) = etiqueta kTypeDeletion # PutLengthPrefixedSlice (bytes_of k)"

fun cabe :: "registro \<Rightarrow> bool" where
  "cabe (RPut k v) \<longleftrightarrow> length k < 2 ^ 32 \<and> length v < 2 ^ 32"
| "cabe (RDelete k) \<longleftrightarrow> length k < 2 ^ 32"

definition registros_bytes :: "registro list \<Rightarrow> uint1 list" where
  "registros_bytes b = concat (map registro_bytes b)"

definition batch_ok :: "uint1 list \<Rightarrow> registro list \<Rightarrow> bool" where
  "batch_ok rep b \<longleftrightarrow> (\<exists>h. length h = 8 \<and> rep = h @ EncodeFixed32 (of_nat (length b)) @ registros_bytes b)"

lemma batch_okE:
  assumes "batch_ok rep b"
  obtains h where "length h = 8" and "rep = h @ EncodeFixed32 (of_nat (length b)) @ registros_bytes b"
  using assms by (auto simp: batch_ok_def)

lemma batch_ok_Count: "batch_ok rep b \<Longrightarrow> WriteBatchInternal_Count rep = of_nat (length b)"
  by (auto simp: batch_ok_def WriteBatchInternal_Count_def)

lemma batch_ok_Clear: "batch_ok WriteBatch_Clear []"
proof -
  have "WriteBatch_Clear = replicate 8 0 @ EncodeFixed32 0"
    by (simp add: WriteBatch_Clear_def kHeader_def EncodeFixed32_def numeral_nat)
  then show ?thesis unfolding batch_ok_def
    by (intro exI [of _ "replicate 8 0"]) (simp add: registros_bytes_def)
qed

lemma batch_ok_SetSequence:
  assumes "batch_ok rep b"
  shows "batch_ok (WriteBatchInternal_SetSequence sq rep) b"
    and "WriteBatchInternal_Sequence (WriteBatchInternal_SetSequence sq rep) = sq"
  using assms
  by (auto simp: WriteBatchInternal_SetSequence_def WriteBatchInternal_Sequence_def elim!: batch_okE)
    (auto simp: batch_ok_def)

lemma batch_ok_snoc:
  assumes "batch_ok rep b"
  shows "batch_ok (WriteBatchInternal_SetCount (WriteBatchInternal_Count rep + 1) rep @ registro_bytes r) (b @ [r])"
  using assms batch_ok_Count [OF assms]
  by (auto simp: WriteBatchInternal_SetCount_def registros_bytes_def elim!: batch_okE)
    (auto simp: batch_ok_def registros_bytes_def add.commute)

lemma batch_ok_Put: "batch_ok rep b \<Longrightarrow>
    batch_ok (WriteBatchInternal_Put 0 (bytes_of k) (bytes_of v) rep) (b @ [RPut k v])"
  using batch_ok_snoc [of rep b "RPut k v"] by (simp add: WriteBatchInternal_Put_def poner_etiqueta_def)

lemma batch_ok_Delete: "batch_ok rep b \<Longrightarrow>
    batch_ok (WriteBatchInternal_Delete 0 (bytes_of k) rep) (b @ [RDelete k])"
  using batch_ok_snoc [of rep b "RDelete k"] by (simp add: WriteBatchInternal_Delete_def poner_etiqueta_def)

lemmas etiquetas = etiqueta_def kTypeLogData_def kTypeColumnFamilyDeletion_def
  kTypeColumnFamilyValue_def kTypeColumnFamilyMerge_def

lemma ReadRecord_Put:
  "cabe (RPut k v) \<Longrightarrow> ReadRecordFromWriteBatch (registro_bytes (RPut k v) @ rest)
     = Some ((etiqueta kTypeValue, 0, bytes_of k, bytes_of v, []), rest)"
  by (simp add: ReadRecordFromWriteBatch_def leer_familia_def etiquetas)

lemma ReadRecord_Delete:
  "cabe (RDelete k) \<Longrightarrow> ReadRecordFromWriteBatch (registro_bytes (RDelete k) @ rest)
     = Some ((etiqueta kTypeDeletion, 0, bytes_of k, [], []), rest)"
  by (simp add: ReadRecordFromWriteBatch_def leer_familia_def etiquetas)

text \<open>One record of the batch, read and handed over; \<open>filtra\<close> says that the log is skipped.\<close>

definition filtra :: "nat \<Rightarrow> nat \<Rightarrow> bool" where
  "filtra log_number cf_log \<longleftrightarrow> log_number \<noteq> 0 \<and> log_number < cf_log"

definition poner :: "bool \<Rightarrow> registro \<Rightarrow> nat \<times> MemTable \<Rightarrow> nat \<times> MemTable" where
  "poner fi r i = (if fi then (fst i + 1, snd i) else Iterate [r] i)"

lemma registro_leido:
  assumes "cabe r"
  obtains x where "ReadRecordFromWriteBatch (registro_bytes r @ rest) = Some (x, rest)"
    and "\<And>ig ln cl i. despachar (MemTableInserter ig ln cl) x i = (OK, 1, poner (filtra ln cl) r i)"
proof (cases r)
  case (RPut k v)
  show thesis
    by (rule that [OF ReadRecord_Put [of k v rest, folded RPut, OF assms]])
      (simp add: despachar_def MemTableInserter_def Let_def SeekToColumnFamily_def etiquetas poner_def filtra_def RPut)
next
  case (RDelete k)
  show thesis
    by (rule that [OF ReadRecord_Delete [of k rest, folded RDelete, OF assms]])
      (simp add: despachar_def MemTableInserter_def Let_def SeekToColumnFamily_def etiquetas poner_def filtra_def RDelete)
qed

lemma Iterate_bucle_registros:
  "\<forall>r \<in> set b. cabe r \<Longrightarrow> Iterate_bucle (MemTableInserter ig ln cl) (registros_bytes b) found i
     = (OK, found + length b, fold (poner (filtra ln cl)) b i)"
proof (induction b arbitrary: found i)
  case Nil
  then show ?case by (simp add: Iterate_bucle.simps registros_bytes_def)
next
  case (Cons r b)
  have "cabe r" using Cons.prems by simp
  then obtain x where x: "ReadRecordFromWriteBatch (registro_bytes r @ registros_bytes b) = Some (x, registros_bytes b)"
    and d: "\<And>ig ln cl i. despachar (MemTableInserter ig ln cl) x i = (OK, 1, poner (filtra ln cl) r i)"
    by (rule registro_leido [where rest = "registros_bytes b"]) (rule that)
  have "registros_bytes (r # b) = registro_bytes r @ registros_bytes b" by (simp add: registros_bytes_def)
  moreover have "registro_bytes r \<noteq> []" by (cases r) simp_all
  moreover have "h_Continue (MemTableInserter ig ln cl) i" by (simp add: MemTableInserter_def Let_def)
  ultimately show ?case
    using Cons x d by (simp add: Iterate_bucle.simps [of _ "registro_bytes r @ registros_bytes b"])
qed

lemma fold_poner: "fold (poner False) b i = Iterate b i"
proof (induction b arbitrary: i)
  case (Cons r b)
  then show ?case by (cases r) (simp_all add: poner_def)
qed simp

text \<open>Inserting the bytes is inserting the records, from the sequence number in the header on.\<close>

lemma InsertInto_bytes:
  assumes "batch_ok rep b" and "\<forall>r \<in> set b. cabe r" and "\<not> filtra ln cl"
  shows "WriteBatchInternal_InsertInto ig ln cl rep m
    = (OK, InsertInto b (unat (WriteBatchInternal_Sequence rep)) m)"
proof -
  have "length rep \<ge> kHeader" "drop kHeader rep = registros_bytes b"
    using assms(1) by (auto simp: kHeader_def elim!: batch_okE)
  then show ?thesis
    using assms(2,3) batch_ok_Count [OF assms(1)]
    by (simp add: WriteBatchInternal_InsertInto_def WriteBatch_Iterate_def Iterate_bucle_registros fold_poner
        InsertInto_def split: prod.split)
qed

section \<open>A batch that lost its end\<close>

lemma GetVarint32_cortado:
  "EncodeVarint64 v = bs @ y \<Longrightarrow> y \<noteq> [] \<Longrightarrow> GetVarint32PtrFallback s res bs = None"
proof (induction v arbitrary: s res bs rule: EncodeVarint64.induct)
  case (1 v)
  show ?case
  proof (cases bs)
    case (Cons b bs')
    have v: "128 \<le> v"
      using "1.prems" Cons by (auto simp: EncodeVarint64.simps [of v] split: if_splits)
    then have e: "b = ucast ((v AND 127) OR 128)" "EncodeVarint64 (drop_bit 7 v) = bs' @ y"
      using "1.prems"(1) Cons by (simp_all add: EncodeVarint64.simps [of v])
    show ?thesis
      using "1.IH" [OF v e(2) "1.prems"(2)] grupo_sigue(3) [of v] by (simp add: Cons e(1) Let_def)
  qed simp
qed

lemma GetLengthPrefixedSlice_cortado:
  assumes "bs @ y = PutLengthPrefixedSlice x" and "y \<noteq> []" and "length x < 2 ^ 32"
  shows "GetLengthPrefixedSlice bs = None"
proof -
  let ?e = "EncodeVarint32 (of_nat (length x))"
  have all: "bs @ y = ?e @ x" using assms(1) by (simp add: PutLengthPrefixedSlice_def)
  show ?thesis
  proof (cases "length bs < length ?e")
    case True
    then have "?e = bs @ drop (length bs) ?e" "drop (length bs) ?e \<noteq> []"
      using arg_cong [OF all, of "take (length bs)"] by simp_all (metis append_take_drop_id)
    then have "GetVarint32 bs = None"
      using GetVarint32_cortado unfolding EncodeVarint32_loop GetVarint32_fallback by blast
    then show ?thesis by (simp add: GetLengthPrefixedSlice_def)
  next
    case False
    define z where "z = drop (length ?e) bs"
    have bs: "bs = ?e @ z" using arg_cong [OF all, of "take (length ?e)"] False
      by (simp add: z_def) (metis append_take_drop_id)
    then have "length z < length x" using all assms(2) by (auto dest!: arg_cong [of _ _ length])
    then show ?thesis using assms(3) by (simp add: GetLengthPrefixedSlice_def bs unat_of_nat)
  qed
qed

text \<open>A beginning of two texts: a beginning of the first, or the first and a beginning of the second.\<close>

lemma append_cortado:
  assumes "bs @ y = p @ q" and "y \<noteq> []"
  obtains z where "bs @ z = p" and "z \<noteq> []" | z where "bs = p @ z" and "z @ y = q"
proof (cases "length bs < length p")
  case True
  then have "bs @ drop (length bs) p = p" "drop (length bs) p \<noteq> []"
    using arg_cong [OF assms(1), of "take (length bs)"] by simp_all (metis append_take_drop_id)
  then show thesis using that(1) by blast
next
  case False
  then have "bs = p @ drop (length p) bs"
    using arg_cong [OF assms(1), of "take (length p)"] by simp (metis append_take_drop_id)
  then show thesis using that(2) assms(1) by (metis append.assoc same_append_eq)
qed

lemma ReadRecordFromWriteBatch_cortado:
  assumes "cabe r" and "bs @ y = registro_bytes r" and "y \<noteq> []" and "bs \<noteq> []"
  shows "ReadRecordFromWriteBatch bs = None"
proof (cases r)
  case (RPut k v)
  then obtain cs where bs: "bs = etiqueta kTypeValue # cs"
    and cs: "cs @ y = PutLengthPrefixedSlice (bytes_of k) @ PutLengthPrefixedSlice (bytes_of v)"
    using assms(2,4) by (cases bs) auto
  from cs assms(3) show ?thesis
  proof (cases rule: append_cortado)
    case (1 z)
    then have "GetLengthPrefixedSlice cs = None"
      using GetLengthPrefixedSlice_cortado [of cs z "bytes_of k"] assms(1) RPut by simp
    then show ?thesis by (simp add: ReadRecordFromWriteBatch_def bs leer_familia_def etiquetas)
  next
    case (2 z)
    then have "GetLengthPrefixedSlice z = None"
      using GetLengthPrefixedSlice_cortado [of z y "bytes_of v"] assms(1,3) RPut by simp
    then show ?thesis using assms(1) RPut 2
      by (simp add: ReadRecordFromWriteBatch_def bs leer_familia_def etiquetas)
  qed
next
  case (RDelete k)
  then obtain cs where bs: "bs = etiqueta kTypeDeletion # cs" and "cs @ y = PutLengthPrefixedSlice (bytes_of k)"
    using assms(2,4) by (cases bs) auto
  then have "GetLengthPrefixedSlice cs = None"
    using GetLengthPrefixedSlice_cortado [of cs y "bytes_of k"] assms(1,3) RDelete by simp
  then show ?thesis by (simp add: ReadRecordFromWriteBatch_def bs leer_familia_def etiquetas)
qed

lemma Iterate_bucle_cortado:
  assumes "\<forall>r \<in> set b. cabe r" and "bs @ y = registros_bytes b" and "y \<noteq> []"
    and "Iterate_bucle (MemTableInserter ig ln cl) bs found i = (s, found', i')"
  shows "s = Corruption \<or> s = OK \<and> found' < found + length b"
  using assms
proof (induction b arbitrary: bs found i)
  case Nil
  then show ?case by (simp add: registros_bytes_def)
next
  case (Cons r b)
  have sigue: "h_Continue (MemTableInserter ig ln cl) i" by (simp add: MemTableInserter_def Let_def)
  show ?case
  proof (cases "bs = []")
    case True
    then show ?thesis using Cons.prems(4) by (auto simp: Iterate_bucle.simps)
  next
    case False
    have all: "bs @ y = registro_bytes r @ registros_bytes b"
      using Cons.prems(2) by (simp add: registros_bytes_def)
    from all Cons.prems(3) show ?thesis
    proof (cases rule: append_cortado)
      case (1 z)
      then have "ReadRecordFromWriteBatch bs = None"
        using ReadRecordFromWriteBatch_cortado [of r bs z] Cons.prems(1) False by simp
      then show ?thesis using Cons.prems(4) False sigue by (simp add: Iterate_bucle.simps [of _ bs])
    next
      case (2 z)
      have "cabe r" using Cons.prems(1) by simp
      then obtain x where "ReadRecordFromWriteBatch bs = Some (x, z)"
        and "\<And>ig ln cl i. despachar (MemTableInserter ig ln cl) x i = (OK, 1, poner (filtra ln cl) r i)"
        by (rule registro_leido [where rest = z]) (simp add: 2(1))
      then have "Iterate_bucle (MemTableInserter ig ln cl) z (found + 1) (poner (filtra ln cl) r i) = (s, found', i')"
        using Cons.prems(4) False sigue by (simp add: Iterate_bucle.simps [of _ bs])
      from Cons.IH [OF _ 2(2) Cons.prems(3) this] show ?thesis using Cons.prems(1) by auto
    qed
  qed
qed

section \<open>Properties\<close>

text \<open>
  C16: a batch of puts and deletes that lost any part of its end is refused as corrupt when it
  is inserted: a header that is too short, a record cut in its length, its key or its value,
  or fewer records than the header counts.
\<close>
theorem batch_cut_refused:
  assumes "batch_ok (bs @ y) b" and "y \<noteq> []" and "\<forall>r \<in> set b. cabe r" and "length b < 2 ^ 32"
  shows "fst (WriteBatchInternal_InsertInto ig ln cl bs m) = Corruption"
proof (cases "length bs < kHeader")
  case True
  then show ?thesis by (simp add: WriteBatchInternal_InsertInto_def WriteBatch_Iterate_def)
next
  case False
  from assms(1) obtain h where h: "length h = 8" "bs @ y = h @ EncodeFixed32 (of_nat (length b)) @ registros_bytes b"
    by (rule batch_okE)
  have "drop kHeader bs @ y = registros_bytes b"
    using arg_cong [OF h(2), of "drop kHeader"] False h(1) by (simp add: kHeader_def)
  note it = Iterate_bucle_cortado [OF assms(3) this assms(2)]
  define h' where "h' = MemTableInserter ig ln cl"
  obtain s found i where r: "Iterate_bucle h' (drop kHeader bs) 0 (unat (WriteBatchInternal_Sequence bs), m) = (s, found, i)"
    by (rule prod_cases3)
  have sf: "s = Corruption \<or> s = OK \<and> found < length b" using it [OF r [unfolded h'_def]] by simp
  have "take 12 bs = h @ EncodeFixed32 (of_nat (length b))"
    using arg_cong [OF h(2), of "take 12"] False h(1) by (simp add: kHeader_def)
  then have "drop 8 (take 12 bs @ drop 12 bs) = EncodeFixed32 (of_nat (length b)) @ drop 12 bs"
    using h(1) by (simp only: drop_append) simp
  then have "WriteBatchInternal_Count bs = of_nat (length b)"
    unfolding append_take_drop_id WriteBatchInternal_Count_def by simp
  moreover have "of_nat found \<noteq> (of_nat (length b) :: 32 word)" if "found < length b"
    using that assms(4) by (simp add: word_of_nat_eq_iff take_bit_nat_eq_self)
  ultimately have "fst (WriteBatch_Iterate h' bs (unat (WriteBatchInternal_Sequence bs), m)) = Corruption"
    using False sf by (auto simp: WriteBatch_Iterate_def r)
  then show ?thesis by (auto simp: WriteBatchInternal_InsertInto_def h'_def split: prod.split)
qed

theorem batch_cut_refused_witness:
  "fst (WriteBatchInternal_InsertInto True 0 0
     (butlast (WriteBatchInternal_Put 0 (bytes_of ''k'') (bytes_of ''v'') WriteBatch_Clear)) MemTable_vacia) = Corruption"
proof -
  let ?rep = "WriteBatchInternal_Put 0 (bytes_of ''k'') (bytes_of ''v'') WriteBatch_Clear"
  have "?rep \<noteq> []" by (simp add: WriteBatchInternal_Put_def poner_etiqueta_def)
  then have "batch_ok (butlast ?rep @ [last ?rep]) [RPut ''k'' ''v'']"
    using batch_ok_Put [OF batch_ok_Clear, of "''k''" "''v''"] by simp
  then show ?thesis
    using batch_cut_refused [of "butlast ?rep" "[last ?rep]" "[RPut ''k'' ''v'']" True 0 0 MemTable_vacia] by simp
qed

end
