(* ===== verification/RocksDB_Recovery.thy ===== *)
theory RocksDB_Recovery
  imports RocksDB_LogSpec RocksDB_Batch
begin

text \<open>
  The database with its log: \<open>DBImpl::WriteImpl\<close> down to the bytes it appends, which refines
  the write of \<open>RocksDB\<close>, and the recovery of \<open>db/db_impl.cc\<close> that replays the log files into
  the memtable when the database is opened. What was acknowledged before the server stopped
  is there afterwards.
\<close>

section \<open>Writing\<close>

record DB_wal =
  nucleo :: DBImpl
  wal :: Writer

text \<open>The steps of the write that a single writer reaches, from the check of \<open>bg_error_\<close> on.\<close>

definition WriteImpl :: "procesador \<Rightarrow> uint1 list \<Rightarrow> DB_wal \<Rightarrow> Status \<times> DB_wal" where
  "WriteImpl cpu my_batch D =
     (let db = nucleo D
      in if bg_error db \<noteq> OK then (bg_error db, D)
         else
           let updates = WriteBatchInternal_SetSequence (of_nat (LastSequence db + 1)) my_batch;
               my_batch_count = unat (WriteBatchInternal_Count updates);
               (s, w) = AddRecord cpu updates (wal D)
           in if s \<noteq> OK then (s, D\<lparr>nucleo := db\<lparr>bg_error := s\<rparr>, wal := w\<rparr>)
              else (case WriteBatchInternal_InsertInto False 0 0 updates (mem db) of (s2, m) \<Rightarrow>
                      if s2 \<noteq> OK then (s2, D\<lparr>nucleo := db\<lparr>mem := m, bg_error := s2\<rparr>, wal := w\<rparr>)
                      else (OK, D\<lparr>nucleo := db\<lparr>mem := m, LastSequence := LastSequence db + my_batch_count\<rparr>,
                                  wal := w\<rparr>)))"

definition DB_Put_wal :: "procesador \<Rightarrow> string \<Rightarrow> string \<Rightarrow> DB_wal \<Rightarrow> Status \<times> DB_wal" where
  "DB_Put_wal cpu key val D =
     WriteImpl cpu (WriteBatchInternal_Put 0 (bytes_of key) (bytes_of val) WriteBatch_Clear) D"

definition DB_Delete_wal :: "procesador \<Rightarrow> string \<Rightarrow> DB_wal \<Rightarrow> Status \<times> DB_wal" where
  "DB_Delete_wal cpu key D = WriteImpl cpu (WriteBatchInternal_Delete 0 (bytes_of key) WriteBatch_Clear) D"

section \<open>Recovery\<close>

definition kMaxSequenceNumber :: nat where
  "kMaxSequenceNumber = 2 ^ 56 - 1"

text \<open>The state \<open>status\<close> that the reporter of \<open>RecoverLogFiles\<close> sets.\<close>

definition estado :: "bool \<Rightarrow> Reader \<Rightarrow> Status" where
  "estado paranoid r = (case informes r of [] \<Rightarrow> OK | x # _ \<Rightarrow> if paranoid then snd x else OK)"

definition MaybeIgnoreError :: "bool \<Rightarrow> Status \<Rightarrow> Status" where
  "MaybeIgnoreError paranoid s = (if s = OK \<or> paranoid then s else OK)"

text \<open>The memtable goes to a table file, or the disk fails.\<close>

definition WriteLevel0TableForRecovery :: "DBImpl \<Rightarrow> Status \<times> DBImpl" where
  "WriteLevel0TableForRecovery db =
     (let ok = env_ok db (env_n db); db1 = db\<lparr>env_n := env_n db + 1\<rparr>
      in if ok then (OK, db1\<lparr>archivos := (\<lambda>k. case nueva k (tabla (mem db)) of
                               None \<Rightarrow> archivos db k | Some e \<Rightarrow> valor_de e)\<rparr>)
         else (IOError, db1))"

text \<open>
  One record of the log. \<open>lleno\<close> is the test of \<open>CheckMemtableFull\<close>; a memtable only grows, so
  it is enough to test it behind the batch.
\<close>

definition aplicar_lote ::
  "(MemTable \<Rightarrow> bool) \<Rightarrow> bool \<Rightarrow> bool \<Rightarrow> nat \<Rightarrow> nat \<Rightarrow> uint1 list \<Rightarrow> DBImpl \<Rightarrow> nat \<Rightarrow> Status \<times> DBImpl \<times> nat" where
  "aplicar_lote lleno paranoid read_only log_number cf_log batch db max_sequence =
     (case WriteBatchInternal_InsertInto True log_number cf_log batch (mem db) of (s, m) \<Rightarrow>
        let db1 = db\<lparr>mem := m\<rparr>; s1 = MaybeIgnoreError paranoid s
        in if s1 \<noteq> OK then (s1, db1, max_sequence)
           else
             let last_seq = unat (WriteBatchInternal_Sequence batch
                   + scast (WriteBatchInternal_Count batch) - 1);
                 mx = (if max_sequence = kMaxSequenceNumber \<or> max_sequence < last_seq
                       then last_seq else max_sequence)
             in if \<not> read_only \<and> lleno m
                then (case WriteLevel0TableForRecovery db1 of (s2, db2) \<Rightarrow>
                        if s2 \<noteq> OK then (s2, db2, mx) else (OK, db2\<lparr>mem := MemTable_vacia\<rparr>, mx))
                else (OK, db1, mx))"

function recuperar_bucle ::
  "procesador \<Rightarrow> (uint1 list \<Rightarrow> DBImpl \<Rightarrow> nat \<Rightarrow> Status \<times> DBImpl \<times> nat) \<Rightarrow> bool \<Rightarrow> Reader \<Rightarrow> DBImpl \<Rightarrow> nat
     \<Rightarrow> Status \<times> DBImpl \<times> nat" where
  "recuperar_bucle cpu lote paranoid r db mx =
     (case ReadRecord cpu r of
        (None, r1) \<Rightarrow> (estado paranoid r1, db, mx)
      | (Some rec, r1) \<Rightarrow>
          if estado paranoid r1 \<noteq> OK then (estado paranoid r1, db, mx)
          else if length rec < kHeader
          then recuperar_bucle cpu lote paranoid (r1\<lparr>informes := informes r1 @ [(length rec, Corruption)]\<rparr>) db mx
          else (case lote rec db mx of (s, db1, mx1) \<Rightarrow>
                  if s \<noteq> OK then (s, db1, mx1) else recuperar_bucle cpu lote paranoid r1 db1 mx1))"
  by pat_completeness auto
termination
proof (relation "measure (\<lambda>(cpu, lote, paranoid, r, db, mx). pendientes r)", goal_cases)
  case (2 cpu lote paranoid r db mx p r1 rec)
  then show ?case using ReadRecord_pendientes [of cpu r rec r1] by (simp add: pendientes_def kHeaderSize_def)
next
  case (3 cpu lote paranoid r db mx p r1 rec)
  then show ?case using ReadRecord_pendientes [of cpu r rec r1] by (simp add: kHeaderSize_def)
qed simp

declare recuperar_bucle.simps [simp del]

text \<open>A log file is its number and what can be read of it, or \<open>None\<close> if it cannot be opened.\<close>

fun recuperar_archivos ::
  "procesador \<Rightarrow> (MemTable \<Rightarrow> bool) \<Rightarrow> bool \<Rightarrow> bool \<Rightarrow> nat \<Rightarrow> (nat \<times> PosixSequentialFile option) list
     \<Rightarrow> DBImpl \<Rightarrow> nat \<Rightarrow> Status \<times> DBImpl \<times> nat" where
  "recuperar_archivos cpu lleno paranoid read_only cf_log [] db mx = (OK, db, mx)"
| "recuperar_archivos cpu lleno paranoid read_only cf_log ((log_number, f) # logs) db mx =
     (case f of
        None \<Rightarrow>
          if MaybeIgnoreError paranoid IOError \<noteq> OK then (IOError, db, mx)
          else recuperar_archivos cpu lleno paranoid read_only cf_log logs db mx
      | Some file \<Rightarrow>
          (case recuperar_bucle cpu (aplicar_lote lleno paranoid read_only log_number cf_log) paranoid
                  (Reader_nuevo file True 0) db mx of (s, db1, mx1) \<Rightarrow>
             if s \<noteq> OK then (s, db1, mx1)
             else recuperar_archivos cpu lleno paranoid read_only cf_log logs
                    (if mx1 \<noteq> kMaxSequenceNumber \<and> LastSequence db1 < mx1
                     then db1\<lparr>LastSequence := mx1\<rparr> else db1) mx1))"

text \<open>Writing the new version to the manifest.\<close>

definition LogAndApply :: "DBImpl \<Rightarrow> Status \<times> DBImpl" where
  "LogAndApply db =
     (if env_ok db (env_n db) then OK else IOError, db\<lparr>env_n := env_n db + 1\<rparr>)"

definition RecoverLogFiles ::
  "procesador \<Rightarrow> (MemTable \<Rightarrow> bool) \<Rightarrow> bool \<Rightarrow> bool \<Rightarrow> nat \<Rightarrow> (nat \<times> PosixSequentialFile option) list
     \<Rightarrow> DBImpl \<Rightarrow> Status \<times> DBImpl" where
  "RecoverLogFiles cpu lleno paranoid read_only cf_log logs db =
     (case recuperar_archivos cpu lleno paranoid read_only cf_log logs db kMaxSequenceNumber of (s, db1, mx) \<Rightarrow>
        if s \<noteq> OK then (s, db1)
        else if read_only \<or> fst (last logs) < cf_log then (OK, db1)
        else if first_seqno (mem db1) \<noteq> 0
        then (case WriteLevel0TableForRecovery db1 of (s2, db2) \<Rightarrow>
                if s2 \<noteq> OK then (s2, db2) else LogAndApply (db2\<lparr>mem := MemTable_vacia\<rparr>))
        else LogAndApply db1)"

text \<open>The part of \<open>DBImpl::Recover\<close> behind the reading of the manifest and the directory.\<close>

definition DBImpl_Recover ::
  "procesador \<Rightarrow> (MemTable \<Rightarrow> bool) \<Rightarrow> bool \<Rightarrow> bool \<Rightarrow> nat \<Rightarrow> (nat \<times> PosixSequentialFile option) list
     \<Rightarrow> DBImpl \<Rightarrow> Status \<times> DBImpl" where
  "DBImpl_Recover cpu lleno paranoid read_only cf_log logs db =
     (if logs = [] then (OK, db)
      else (case RecoverLogFiles cpu lleno paranoid read_only cf_log (sort_key fst logs) db of (s, db1) \<Rightarrow>
              if s \<noteq> OK then (s, db1\<lparr>mem := MemTable_vacia\<rparr>) else (OK, db1)))"

section \<open>Writing refines the write of the contract\<close>

fun lote :: "registro \<Rightarrow> uint1 list" where
  "lote (RPut k v) = WriteBatchInternal_Put 0 (bytes_of k) (bytes_of v) WriteBatch_Clear"
| "lote (RDelete k) = WriteBatchInternal_Delete 0 (bytes_of k) WriteBatch_Clear"

definition lote_en :: "nat \<Rightarrow> registro \<Rightarrow> uint1 list" where
  "lote_en q r = WriteBatchInternal_SetSequence (of_nat q) (lote r)"

lemma batch_ok_lote: "batch_ok (lote r) [r]"
  using batch_ok_Put [OF batch_ok_Clear] batch_ok_Delete [OF batch_ok_Clear] by (cases r) simp_all

lemma AddRecord_status:
  assumes "writer_ok w" and "AddRecord cpu rec w = (s, w')"
  shows "s = OK \<or> s = IOError" and "s = OK \<Longrightarrow> writer_ok w'"
proof -
  obtain bs fin where "codifica cpu (block_offset w) True rec = (bs, fin)" by (rule prod.exhaust)
  from AddRecord_bucle_disco [OF assms(1) assms(2) [unfolded AddRecord_def] this]
  show "s = OK \<or> s = IOError" and "s = OK \<Longrightarrow> writer_ok w'" by auto
qed

lemma WriteImpl_pasos:
  assumes "batch_ok rep b" and "\<forall>r \<in> set b. cabe r" and "length b < 2 ^ 32"
    and "LastSequence (nucleo D) + 1 < 2 ^ 64" and "bg_error (nucleo D) = OK"
    and "AddRecord cpu (WriteBatchInternal_SetSequence (of_nat (LastSequence (nucleo D) + 1)) rep) (wal D) = (s, w)"
  shows "WriteImpl cpu rep D =
    (s, \<lparr>nucleo = (if s = OK then (nucleo D)\<lparr>mem := InsertInto b (LastSequence (nucleo D) + 1) (mem (nucleo D)),
                                       LastSequence := LastSequence (nucleo D) + length b\<rparr>
                 else (nucleo D)\<lparr>bg_error := s\<rparr>), wal = w\<rparr>)"
proof -
  let ?q = "LastSequence (nucleo D) + 1"
  let ?u = "WriteBatchInternal_SetSequence (of_nat ?q) rep"
  note u = batch_ok_SetSequence [OF assms(1), of "of_nat ?q"]
  have q: "unat (of_nat ?q :: 64 word) = ?q" using assms(4) by (simp only: unat_of_nat) simp
  have "WriteBatchInternal_InsertInto False 0 0 ?u (mem (nucleo D)) = (OK, InsertInto b ?q (mem (nucleo D)))"
    using InsertInto_bytes [OF u(1) assms(2), of 0 0] u(2) q by (simp add: filtra_def)
  moreover have "unat (WriteBatchInternal_Count ?u) = length b"
    using batch_ok_Count [OF u(1)] assms(3) by (simp add: unat_of_nat)
  ultimately show ?thesis
    using assms(5,6) by (cases D) (simp add: WriteImpl_def Let_def)
qed

text \<open>A sequence of writes, as the server makes them, and their statuses.\<close>

definition escribir_wal :: "procesador \<Rightarrow> registro \<Rightarrow> DB_wal \<Rightarrow> Status \<times> DB_wal" where
  "escribir_wal cpu r D = (case r of RPut k v \<Rightarrow> DB_Put_wal cpu k v D | RDelete k \<Rightarrow> DB_Delete_wal cpu k D)"

fun escribir_todos :: "procesador \<Rightarrow> registro list \<Rightarrow> DB_wal \<Rightarrow> Status list \<times> DB_wal" where
  "escribir_todos cpu [] D = ([], D)"
| "escribir_todos cpu (r # rs) D =
     (case escribir_wal cpu r D of (s, D1) \<Rightarrow>
        case escribir_todos cpu rs D1 of (ss, D2) \<Rightarrow> (s # ss, D2))"

lemma escribir_wal_lote: "escribir_wal cpu r D = WriteImpl cpu (lote r) D"
  by (cases r) (simp_all add: escribir_wal_def DB_Put_wal_def DB_Delete_wal_def)

fun lotes :: "nat \<Rightarrow> registro list \<Rightarrow> uint1 list list" where
  "lotes q [] = []"
| "lotes q (r # rs) = lote_en q r # lotes (q + 1) rs"

lemma take_lotes: "take m (lotes q rs) = lotes q (take m rs)"
  by (induction rs arbitrary: q m) (simp_all add: take_Cons' )

lemma escribir_todos_error:
  "bg_error (nucleo D) = IOError \<Longrightarrow> escribir_todos cpu rs D = (replicate (length rs) IOError, D)"
  by (induction rs) (simp_all add: escribir_wal_lote WriteImpl_def Let_def)

text \<open>
  The writes that succeed are the first ones; they are what the log accepted and what the
  contents show.
\<close>

lemma escribir_todos_spec:
  assumes "rocksdb_ok (nucleo D)" and "bg_error (nucleo D) = OK" and "writer_ok (wal D)"
    and "\<forall>r \<in> set rs. cabe r" and "LastSequence (nucleo D) + length rs < kMaxSequenceNumber"
    and "escribir_todos cpu rs D = (ss, D')"
  shows "\<exists>k. k \<le> length rs \<and> ss = replicate k OK @ replicate (length rs - k) IOError \<and>
    AddRecords cpu (lotes (LastSequence (nucleo D) + 1) rs) (wal D) = (k, wal D') \<and>
    rocksdb_ok (nucleo D') \<and> contenido (nucleo D') = fold aplicar (take k rs) (contenido (nucleo D))"
  using assms
proof (induction rs arbitrary: D ss)
  case (Cons r rs)
  let ?q = "LastSequence (nucleo D) + 1"
  obtain s w where a: "AddRecord cpu (lote_en ?q r) (wal D) = (s, w)" by (rule prod.exhaust)
  note st = AddRecord_status [OF Cons.prems(3) a]
  define b where "b = (if s = OK then (nucleo D)\<lparr>mem := InsertInto [r] ?q (mem (nucleo D)), LastSequence := ?q\<rparr>
    else (nucleo D)\<lparr>bg_error := s\<rparr>)"
  have e: "escribir_wal cpu r D = (s, \<lparr>nucleo = b, wal = w\<rparr>)"
    using WriteImpl_pasos [OF batch_ok_lote _ _ _ Cons.prems(2) a [unfolded lote_en_def]] Cons.prems(4,5)
    by (simp add: escribir_wal_lote b_def kMaxSequenceNumber_def)
  obtain ss' D2 where t: "escribir_todos cpu rs \<lparr>nucleo = b, wal = w\<rparr> = (ss', D2)" by (rule prod.exhaust)
  have ss: "ss = s # ss'" "D' = D2" using Cons.prems(6) e t by simp_all
  show ?case
  proof (cases "s = OK")
    case True
    have b: "rocksdb_ok b \<and> contenido b = aplicar r (contenido (nucleo D))"
      using InsertInto_spec [of "LastSequence (nucleo D)" "mem (nucleo D)" "[r]" "archivos (nucleo D)"] Cons.prems(1)
      by (simp add: b_def True rocksdb_ok_def contenido_def [abs_def] cong: option.case_cong)
    have bq: "LastSequence b = ?q" "bg_error b = OK" using Cons.prems(2) by (simp_all add: b_def True)
    obtain k where k: "k \<le> length rs" "ss' = replicate k OK @ replicate (length rs - k) IOError"
      "AddRecords cpu (lotes (?q + 1) rs) w = (k, wal D')" "rocksdb_ok (nucleo D')"
      "contenido (nucleo D') = fold aplicar (take k rs) (contenido b)"
      using Cons.IH [of "\<lparr>nucleo = b, wal = w\<rparr>" ss'] b bq st(2) True Cons.prems(4,5) t ss(2) by auto
    show ?thesis
      by (rule exI [of _ "Suc k"]) (use k a b True ss(1) in simp)
  next
    case False
    then have b: "b = (nucleo D)\<lparr>bg_error := IOError\<rparr>" using st(1) by (simp add: b_def)
    have "ss' = replicate (length rs) IOError \<and> D2 = \<lparr>nucleo = b, wal = w\<rparr>"
      using t escribir_todos_error [of "\<lparr>nucleo = b, wal = w\<rparr>"] by (simp add: b)
    then show ?thesis
      using False st(1) a ss b Cons.prems(1)
      by (intro exI [of _ 0]) (simp add: rocksdb_ok_def contenido_def [abs_def] cong: option.case_cong)
  qed
qed simp

section \<open>What the reader reports\<close>

definition calla :: "Reader \<Rightarrow> Reader \<Rightarrow> bool" where
  "calla r r' \<longleftrightarrow> (informes r' = [] \<longrightarrow> informes r = [])"

lemma calla_refl [simp]: "calla r r"
  by (simp add: calla_def)

lemma calla_trans: "calla r r1 \<Longrightarrow> calla r1 r2 \<Longrightarrow> calla r r2"
  by (simp add: calla_def)

lemma calla_ReportDrop: "calla r (ReportDrop n s r)"
  by (simp add: calla_def ReportDrop_def)

lemma calla_ReportCorruption: "calla r (ReportCorruption n r)"
  by (simp add: ReportCorruption_def calla_ReportDrop)

lemma calla_leer_fragmento: "leer_fragmento cpu r = (t, f, r') \<Longrightarrow> calla r r'"
  by (auto simp: leer_fragmento_def Let_def calla_def ReportCorruption_def ReportDrop_def split: if_splits)

lemma calla_leer_bloque: "leer_bloque r = (s, r') \<Longrightarrow> calla r r'"
  by (auto simp: leer_bloque_def Let_def calla_def ReportDrop_def split: prod.splits if_splits)

lemma calla_ReadPhysicalRecord: "ReadPhysicalRecord cpu r = (t, f, r') \<Longrightarrow> calla r r'"
proof (induction cpu r rule: ReadPhysicalRecord.induct)
  case (1 cpu r)
  obtain s r1 where b: "leer_bloque r = (s, r1)" by (rule prod.exhaust)
  show ?case
  proof (cases "length (buffer_ld r) < kHeaderSize \<and> \<not> eof r \<and> \<not> read_error r \<and> s = OK")
    case True
    then have "ReadPhysicalRecord cpu r1 = (t, f, r')"
      using "1.prems" b by (simp add: ReadPhysicalRecord.simps [of cpu r])
    then have "calla r1 r'" using "1.IH" True b by simp
    then show ?thesis using calla_trans calla_leer_bloque [OF b] by blast
  next
    case False
    then show ?thesis
      using "1.prems" b calla_leer_bloque [OF b] calla_leer_fragmento [of cpu r t f r']
      by (auto simp: ReadPhysicalRecord.simps [of cpu r] calla_def split: if_splits)
  qed
qed

lemma calla_ReadRecord_bucle: "ReadRecord_bucle cpu fr sc pr r = (o1, r') \<Longrightarrow> calla r r'"
proof (induction "pendientes r" arbitrary: fr sc pr r rule: less_induct)
  case less
  obtain t f r1 where p: "ReadPhysicalRecord cpu r = (t, f, r1)" by (rule prod_cases3)
  have IH: "calla r r'" if "t \<noteq> kEof" "ReadRecord_bucle cpu a b c r2 = (o1, r')" "pendientes r2 = pendientes r1" "calla r1 r2"
    for a b c r2
    using less.hyps [OF _ that(2)] ReadPhysicalRecord_pendientes [OF p that(1)] that(3,4)
      calla_ReadPhysicalRecord [OF p] by (auto simp: kHeaderSize_def intro: calla_trans)
  have fin: "calla r (r2\<lparr>last_record_offset := c\<rparr>)" if "calla r1 r2" for r2 c
    using that calla_ReadPhysicalRecord [OF p] by (simp add: calla_def)
  show ?case
    using less.prems p calla_ReadPhysicalRecord [OF p]
    by (auto simp: ReadRecord_bucle.simps [of cpu fr sc pr r] Let_def split: if_splits
        intro: IH fin calla_ReportCorruption)
qed

lemma calla_ReadRecord: "ReadRecord cpu r = (o1, r') \<Longrightarrow> calla r r'"
  by (auto simp: ReadRecord_def SkipToInitialBlock_def Let_def calla_def ReportDrop_def split: if_splits prod.splits
      dest!: calla_ReadRecord_bucle)

lemma calla_leer_registros: "leer_registros cpu r = (xs, r') \<Longrightarrow> calla r r'"
proof (induction cpu r arbitrary: xs rule: leer_registros.induct)
  case (1 cpu r)
  obtain o1 r1 where o1: "ReadRecord cpu r = (o1, r1)" by (rule prod.exhaust)
  show ?case
    using "1.IH" [OF o1 [symmetric]] "1.prems" o1 calla_ReadRecord [OF o1]
    by (cases o1) (auto simp: leer_registros.simps [of cpu r] split: prod.splits intro: calla_trans)
qed

section \<open>Replaying the log\<close>

definition disco_sano :: "DBImpl \<Rightarrow> bool" where
  "disco_sano db \<longleftrightarrow> (\<forall>n. env_ok db n)"

lemma lote_en_ok:
  assumes "q < 2 ^ 64"
  shows "batch_ok (lote_en q r) [r]" and "unat (WriteBatchInternal_Sequence (lote_en q r)) = q"
    and "WriteBatchInternal_Count (lote_en q r) = 1" and "\<not> length (lote_en q r) < kHeader"
proof -
  show b: "batch_ok (lote_en q r) [r]" unfolding lote_en_def by (rule batch_ok_SetSequence(1) [OF batch_ok_lote])
  show "unat (WriteBatchInternal_Sequence (lote_en q r)) = q"
    using assms unfolding lote_en_def batch_ok_SetSequence(2) [OF batch_ok_lote] by (simp only: unat_of_nat) simp
  show "WriteBatchInternal_Count (lote_en q r) = 1" using batch_ok_Count [OF b] by simp
  show "\<not> length (lote_en q r) < kHeader" using b by (auto simp: kHeader_def elim!: batch_okE)
qed

lemma WriteLevel0_contenido:
  assumes "disco_sano db"
  obtains db' where "WriteLevel0TableForRecovery db = (OK, db')" and "disco_sano db'"
    and "contenido (db'\<lparr>mem := MemTable_vacia\<rparr>) = contenido db" and "LastSequence db' = LastSequence db"
    and "bg_error db' = bg_error db"
proof
  let ?db = "db\<lparr>env_n := env_n db + 1, archivos := contenido db\<rparr>"
  show "WriteLevel0TableForRecovery db = (OK, ?db)"
    using assms by (simp add: WriteLevel0TableForRecovery_def disco_sano_def contenido_def [abs_def])
  show "contenido (?db\<lparr>mem := MemTable_vacia\<rparr>) = contenido db"
    by (simp add: contenido_def [of "_ \<lparr>mem := _\<rparr>"] fun_eq_iff nueva_def MemTable_vacia_def)
qed (use assms in \<open>simp_all add: disco_sano_def\<close>)

lemma mem_ok_vacia [simp]: "mem_ok n MemTable_vacia"
  by (simp add: mem_ok_def MemTable_vacia_def ordenada_def)

text \<open>One batch of the log, at sequence number \<open>q + 1\<close>.\<close>

lemma aplicar_lote_spec:
  assumes "cabe r" and "q + 1 < kMaxSequenceNumber" and "mem_ok q (mem db)" and "disco_sano db"
    and "\<not> filtra ln cl" and "mx = kMaxSequenceNumber \<or> mx \<le> q"
  obtains db' where "aplicar_lote lleno pa ro ln cl (lote_en (q + 1) r) db mx = (OK, db', q + 1)"
    and "contenido db' = aplicar r (contenido db)" and "mem_ok (q + 1) (mem db')" and "disco_sano db'"
    and "LastSequence db' = LastSequence db" and "bg_error db' = bg_error db"
proof -
  have q: "q + 1 < 2 ^ 64" using assms(2) by (simp add: kMaxSequenceNumber_def)
  note l = lote_en_ok [OF q, of r]
  define m where "m = InsertInto [r] (q + 1) (mem db)"
  have ins: "WriteBatchInternal_InsertInto True ln cl (lote_en (q + 1) r) (mem db) = (OK, m)"
    using InsertInto_bytes [OF l(1) _ assms(5)] assms(1) l(2) by (simp add: m_def)
  have m: "mem_ok (q + 1) m" "contenido (db\<lparr>mem := m\<rparr>) = aplicar r (contenido db)"
    using InsertInto_spec [OF assms(3), of "[r]" "archivos db"]
    by (simp_all add: m_def contenido_def [abs_def] cong: option.case_cong)
  have last: "unat (WriteBatchInternal_Sequence (lote_en (q + 1) r)
      + scast (WriteBatchInternal_Count (lote_en (q + 1) r)) - 1) = q + 1"
    using l(2,3) by simp
  have mx: "(if mx = kMaxSequenceNumber \<or> mx < q + 1 then q + 1 else mx) = q + 1"
    using assms(6) by auto
  have ap: "aplicar_lote lleno pa ro ln cl (lote_en (q + 1) r) db mx =
      (if \<not> ro \<and> lleno m
       then (case WriteLevel0TableForRecovery (db\<lparr>mem := m\<rparr>) of (s2, db2) \<Rightarrow>
               if s2 \<noteq> OK then (s2, db2, q + 1) else (OK, db2\<lparr>mem := MemTable_vacia\<rparr>, q + 1))
       else (OK, db\<lparr>mem := m\<rparr>, q + 1))"
    unfolding aplicar_lote_def ins prod.case Let_def last mx by (simp add: MaybeIgnoreError_def)
  obtain db2 where "WriteLevel0TableForRecovery (db\<lparr>mem := m\<rparr>) = (OK, db2)" "disco_sano db2"
    "contenido (db2\<lparr>mem := MemTable_vacia\<rparr>) = contenido (db\<lparr>mem := m\<rparr>)" "LastSequence db2 = LastSequence db"
    "bg_error db2 = bg_error db"
    by (rule WriteLevel0_contenido [of "db\<lparr>mem := m\<rparr>"]) (use assms(4) in \<open>auto simp: disco_sano_def\<close>)
  then show thesis
    using that [of "if \<not> ro \<and> lleno m then db2\<lparr>mem := MemTable_vacia\<rparr> else db\<lparr>mem := m\<rparr>"] ap m assms(4)
    by (auto simp: disco_sano_def)
qed

text \<open>A log that is read without reports is replayed batch by batch.\<close>

lemma recuperar_bucle_lotes:
  assumes "leer_registros cpu r = (lotes (q + 1) rs, r')" and "informes r' = []"
    and "\<forall>x \<in> set rs. cabe x" and "q + length rs < kMaxSequenceNumber" and "mem_ok q (mem db)" and "disco_sano db"
    and "\<not> filtra ln cl" and "mx = kMaxSequenceNumber \<or> mx \<le> q"
  shows "\<exists>db'. recuperar_bucle cpu (aplicar_lote lleno pa ro ln cl) pa r db mx
      = (OK, db', if rs = [] then mx else q + length rs) \<and>
    contenido db' = fold aplicar rs (contenido db) \<and> mem_ok (q + length rs) (mem db') \<and> disco_sano db' \<and>
    LastSequence db' = LastSequence db \<and> bg_error db' = bg_error db"
  using assms
proof (induction rs arbitrary: q r db mx)
  case Nil
  then obtain r1 where "ReadRecord cpu r = (None, r1)" "r' = r1"
    by (auto simp: leer_registros.simps [of cpu r] split: prod.splits option.splits)
  then show ?case using Nil by (simp add: recuperar_bucle.simps [of cpu _ pa r] estado_def)
next
  case (Cons x rs)
  obtain r1 where r1: "ReadRecord cpu r = (Some (lote_en (q + 1) x), r1)"
    and rest: "leer_registros cpu r1 = (lotes (q + 1 + 1) rs, r')"
    using Cons.prems(1) by (auto simp: leer_registros.simps [of cpu r] split: prod.splits option.splits)
  have i: "informes r1 = []" using calla_leer_registros [OF rest] Cons.prems(2) by (simp add: calla_def)
  obtain db1 where ap: "aplicar_lote lleno pa ro ln cl (lote_en (q + 1) x) db mx = (OK, db1, q + 1)"
    and db1: "contenido db1 = aplicar x (contenido db)" "mem_ok (q + 1) (mem db1)" "disco_sano db1"
    "LastSequence db1 = LastSequence db" "bg_error db1 = bg_error db"
    by (rule aplicar_lote_spec [where r = x and q = q and db = db and ln = ln and cl = cl and mx = mx
          and lleno = lleno and pa = pa and ro = ro])
      (use Cons.prems in auto)
  have "q + 1 < 2 ^ 64" using Cons.prems(4) by (simp add: kMaxSequenceNumber_def)
  then have "recuperar_bucle cpu (aplicar_lote lleno pa ro ln cl) pa r db mx
      = recuperar_bucle cpu (aplicar_lote lleno pa ro ln cl) pa r1 db1 (q + 1)"
    using r1 ap i lote_en_ok(4) by (simp add: recuperar_bucle.simps [of cpu _ pa r] estado_def)
  moreover have "q + 1 + length rs < kMaxSequenceNumber" "\<forall>x \<in> set rs. cabe x" using Cons.prems(3,4) by simp_all
  ultimately show ?case
    using Cons.IH [OF rest Cons.prems(2) _ _ db1(2,3) Cons.prems(7), of "q + 1"] db1 by (cases "rs = []") auto
qed

lemma LogAndApply_sano:
  "disco_sano db \<Longrightarrow> LogAndApply db = (OK, db\<lparr>env_n := env_n db + 1\<rparr>)"
  by (simp add: LogAndApply_def disco_sano_def)

text \<open>Opening the database on one log whose records are the batches of \<open>rs\<close>.\<close>

lemma DBImpl_Recover_lotes:
  assumes "leer_registros cpu (Reader_nuevo f True 0) = (lotes (LastSequence db + 1) rs, r')" and "informes r' = []"
    and "\<forall>x \<in> set rs. cabe x" and "LastSequence db + length rs < kMaxSequenceNumber"
    and "mem db = MemTable_vacia" and "disco_sano db" and "cl \<le> ln"
  shows "\<exists>db'. DBImpl_Recover cpu lleno pa False cl [(ln, Some f)] db = (OK, db') \<and>
    contenido db' = fold aplicar rs (contenido db) \<and> rocksdb_ok db' \<and> disco_sano db' \<and>
    LastSequence db' = LastSequence db + length rs \<and> bg_error db' = bg_error db"
proof -
  let ?q = "LastSequence db"
  have "\<not> filtra ln cl" using assms(7) by (simp add: filtra_def)
  from recuperar_bucle_lotes [OF assms(1-4) _ assms(6) this, of kMaxSequenceNumber lleno pa False] assms(5)
  obtain db1 where b: "recuperar_bucle cpu (aplicar_lote lleno pa False ln cl) pa (Reader_nuevo f True 0) db kMaxSequenceNumber
      = (OK, db1, if rs = [] then kMaxSequenceNumber else ?q + length rs)"
    and db1: "contenido db1 = fold aplicar rs (contenido db)" "mem_ok (?q + length rs) (mem db1)" "disco_sano db1"
      "LastSequence db1 = ?q" "bg_error db1 = bg_error db" by auto
  define db2 where "db2 = db1\<lparr>LastSequence := ?q + length rs\<rparr>"
  have db2: "contenido db2 = contenido db1" "disco_sano db2"
    using db1(3) by (simp_all add: db2_def contenido_def [abs_def] disco_sano_def cong: option.case_cong)
  have a: "\<exists>mx. recuperar_archivos cpu lleno pa False cl [(ln, Some f)] db kMaxSequenceNumber = (OK, db2, mx)"
  proof (cases "rs = []")
    case True
    then show ?thesis using b db1(4) by (simp add: db2_def)
  next
    case False
    then have "?q < ?q + length rs" by simp
    then show ?thesis using False b db1(4) assms(4) by (simp add: db2_def)
  qed
  obtain db3 where w: "WriteLevel0TableForRecovery db2 = (OK, db3)" "disco_sano db3"
    "contenido (db3\<lparr>mem := MemTable_vacia\<rparr>) = contenido db2" "LastSequence db3 = LastSequence db2"
    "bg_error db3 = bg_error db2"
    by (rule WriteLevel0_contenido [OF db2(2)])
  define db4 where "db4 = (if first_seqno (mem db2) \<noteq> 0 then db3\<lparr>mem := MemTable_vacia\<rparr> else db2)"
  have s4: "disco_sano db4" using w(2) db2(2) by (simp add: db4_def disco_sano_def)
  have "DBImpl_Recover cpu lleno pa False cl [(ln, Some f)] db = (OK, db4\<lparr>env_n := env_n db4 + 1\<rparr>)"
    using a w(1) assms(7) LogAndApply_sano [OF s4]
    by (auto simp: DBImpl_Recover_def RecoverLogFiles_def db4_def simp del: recuperar_archivos.simps)
  moreover have "contenido (db4\<lparr>env_n := env_n db4 + 1\<rparr>) = contenido db1"
    using w(3) db2(1) by (simp add: db4_def contenido_def [abs_def] cong: option.case_cong)
  moreover have "rocksdb_ok (db4\<lparr>env_n := env_n db4 + 1\<rparr>)"
    using db1(2) w(4) by (simp add: db4_def rocksdb_ok_def db2_def)
  moreover have "disco_sano (db4\<lparr>env_n := env_n db4 + 1\<rparr>)" using s4 by (simp add: disco_sano_def)
  ultimately show ?thesis using db1 w(4,5) by (auto simp: db4_def db2_def)
qed

section \<open>Properties\<close>

text \<open>
  C15: writing a batch down to its bytes, with the log on a file, does what the write of the
  contract does with an access to the disk that succeeds or fails as the log does; in either
  case the log stays usable as long as nothing failed.
\<close>
theorem wal_write_refines:
  assumes "batch_ok rep b" and "\<forall>r \<in> set b. cabe r" and "length b < 2 ^ 32"
    and "LastSequence (nucleo D) + 1 < 2 ^ 64" and "bg_error (nucleo D) = OK" and "writer_ok (wal D)"
    and "WriteImpl cpu rep D = (s, D')"
  shows "\<exists>ok. DBImpl_Write b ((nucleo D)\<lparr>env_ok := (\<lambda>n. ok)\<rparr>)
      = (s, (nucleo D')\<lparr>env_ok := (\<lambda>n. ok), env_n := env_n (nucleo D) + 1\<rparr>) \<and>
    (s = OK \<longleftrightarrow> ok) \<and> (ok \<longrightarrow> writer_ok (wal D'))"
proof -
  let ?u = "WriteBatchInternal_SetSequence (of_nat (LastSequence (nucleo D) + 1)) rep"
  obtain s1 w where a: "AddRecord cpu ?u (wal D) = (s1, w)" by (rule prod.exhaust)
  note st = AddRecord_status [OF assms(6) a]
  note e = WriteImpl_pasos [OF assms(1-5) a]
  show ?thesis
    by (rule exI [of _ "s = OK"]) (use e assms(5,7) st in \<open>auto simp: DBImpl_Write_def Let_def\<close>)
qed

theorem wal_write_refines_witness:
  "\<exists>ok. DBImpl_Write [RPut ''a'' ''1''] (DBImpl_nueva\<lparr>env_ok := (\<lambda>n. ok)\<rparr>)
     = (fst (WriteImpl None (lote (RPut ''a'' ''1''))
          \<lparr>nucleo = DBImpl_nueva, wal = Writer_nuevo (PosixWritableFile_nuevo 65536 [Hecho 2, Error])\<rparr>),
        (nucleo (snd (WriteImpl None (lote (RPut ''a'' ''1''))
          \<lparr>nucleo = DBImpl_nueva, wal = Writer_nuevo (PosixWritableFile_nuevo 65536 [Hecho 2, Error])\<rparr>)))
          \<lparr>env_ok := (\<lambda>n. ok), env_n := 1\<rparr>)"
proof -
  let ?D = "\<lparr>nucleo = DBImpl_nueva, wal = Writer_nuevo (PosixWritableFile_nuevo 65536 [Hecho 2, Error])\<rparr>"
  have "writer_ok (wal ?D)" "LastSequence (nucleo ?D) + 1 < 2 ^ 64" "bg_error (nucleo ?D) = OK" "env_n (nucleo ?D) = 0"
    by (simp_all add: writer_ok_def Writer_nuevo_def PosixWritableFile_nuevo_def DBImpl_nueva_def)
  then show ?thesis
    using wal_write_refines [OF batch_ok_lote [of "RPut ''a'' ''1''"], of ?D None "fst (WriteImpl None (lote (RPut ''a'' ''1'')) ?D)"
        "snd (WriteImpl None (lote (RPut ''a'' ''1'')) ?D)"]
    by (simp del: lote.simps) blast
qed

text \<open>
  C13: the server stops after any sequence of writes, some of which the disk may have refused,
  and the log loses any part of its end; opening the database on what is left succeeds, and its
  contents are those of the first writes that were acknowledged, of all of them when the log
  is complete. It does not matter when the recovery finds a memtable full and writes it out.
\<close>
theorem crash_recovery:
  assumes "procesador_ok cpu" and "mem db = MemTable_vacia" and "bg_error db = OK" and "\<forall>n. env_ok db n"
    and "\<forall>r \<in> set rs. cabe r" and "LastSequence db + length rs < kMaxSequenceNumber" and "cl \<le> ln"
    and "escribir_todos cpu rs \<lparr>nucleo = db, wal = Writer_nuevo (PosixWritableFile_nuevo 65536 resp)\<rparr> = (ss, D)"
  shows "\<exists>k m db'. ss = replicate k OK @ replicate (length rs - k) IOError \<and> m \<le> k \<and>
    DBImpl_Recover cpu lleno paranoid False cl
      [(ln, Some \<lparr>resto = take n (disco (dest (wal D))), errores = []\<rparr>)] db = (OK, db') \<and>
    sano db' \<and> contenido db' = fold aplicar (take m rs) (contenido db) \<and>
    (length (disco (dest (wal D))) \<le> n \<longrightarrow> m = k \<and> contenido db' = contenido (nucleo D))"
proof -
  let ?w = "Writer_nuevo (PosixWritableFile_nuevo 65536 resp)"
  let ?f = "\<lparr>resto = take n (disco (dest (wal D))), errores = []\<rparr>"
  have w: "writer_ok ?w" by (simp add: writer_ok_def Writer_nuevo_def PosixWritableFile_nuevo_def)
  have ok: "rocksdb_ok db" "disco_sano db" using assms(2,4) by (simp_all add: rocksdb_ok_def disco_sano_def)
  obtain k where k: "ss = replicate k OK @ replicate (length rs - k) IOError"
    "AddRecords cpu (lotes (LastSequence db + 1) rs) ?w = (k, wal D)"
    "contenido (nucleo D) = fold aplicar (take k rs) (contenido db)"
    using escribir_todos_spec [OF _ _ _ assms(5) _ assms(8)] ok(1) assms(3,6) w by auto
  obtain m r where m: "leer_registros cpu (Reader_nuevo ?f True 0) = (lotes (LastSequence db + 1) (take m rs), r)"
    "informes r = []" "m \<le> k" "length (disco (dest (wal D))) \<le> n \<longrightarrow> m = k"
    using log_cortado [OF assms(1) k(2), of n] unfolding take_lotes by blast
  have "\<forall>x \<in> set (take m rs). cabe x" "LastSequence db + length (take m rs) < kMaxSequenceNumber"
    using assms(5,6) by (auto dest: in_set_takeD)
  from DBImpl_Recover_lotes [OF m(1,2) this assms(2) ok(2) assms(7), of lleno paranoid]
  obtain db' where "DBImpl_Recover cpu lleno paranoid False cl [(ln, Some ?f)] db = (OK, db')"
    "contenido db' = fold aplicar (take m rs) (contenido db)" "rocksdb_ok db'"
    "disco_sano db'" "bg_error db' = bg_error db"
    by blast
  then show ?thesis
    using k m(3,4) assms(3) by (intro exI [of _ k] exI [of _ m] exI [of _ db']) (auto simp: sano_def disco_sano_def)
qed

theorem crash_recovery_witness:
  "\<exists>k m db'. fst (escribir_todos None [RPut ''a'' ''1'', RPut ''b'' ''2'', RDelete ''a'']
        \<lparr>nucleo = DBImpl_nueva, wal = Writer_nuevo (PosixWritableFile_nuevo 65536 [Hecho 4, Interrumpido])\<rparr>)
      = replicate k OK @ replicate (3 - k) IOError \<and> m \<le> k \<and>
    DBImpl_Recover None (\<lambda>m. True) True False 0
      [(7, Some \<lparr>resto = take 60 (disco (dest (wal (snd (escribir_todos None [RPut ''a'' ''1'', RPut ''b'' ''2'', RDelete ''a'']
        \<lparr>nucleo = DBImpl_nueva, wal = Writer_nuevo (PosixWritableFile_nuevo 65536 [Hecho 4, Interrumpido])\<rparr>))))), errores = []\<rparr>)]
      DBImpl_nueva = (OK, db') \<and> sano db'"
proof -
  let ?rs = "[RPut ''a'' ''1'', RPut ''b'' ''2'', RDelete ''a'']"
  let ?D = "\<lparr>nucleo = DBImpl_nueva, wal = Writer_nuevo (PosixWritableFile_nuevo 65536 [Hecho 4, Interrumpido])\<rparr>"
  have h: "mem DBImpl_nueva = MemTable_vacia" "bg_error DBImpl_nueva = OK" "\<forall>n. env_ok DBImpl_nueva n"
    "\<forall>r \<in> set ?rs. cabe r" "LastSequence DBImpl_nueva + length ?rs < kMaxSequenceNumber"
    by (simp_all add: DBImpl_nueva_def kMaxSequenceNumber_def)
  from crash_recovery [where cl = 0 and ln = 7 and lleno = "\<lambda>m. True" and paranoid = True and n = 60,
      OF procesador_ok_None h le0 prod.collapse [of "escribir_todos None ?rs ?D", symmetric]]
  obtain k m db' where "fst (escribir_todos None ?rs ?D) = replicate k OK @ replicate (length ?rs - k) IOError" "m \<le> k"
    "DBImpl_Recover None (\<lambda>m. True) True False 0
      [(7, Some \<lparr>resto = take 60 (disco (dest (wal (snd (escribir_todos None ?rs ?D))))), errores = []\<rparr>)] DBImpl_nueva = (OK, db')"
    "sano db'" by blast
  moreover have "length ?rs = 3" by simp
  ultimately show ?thesis by metis
qed

end
