(* ===== verification/Spec2Isabelle.thy ===== *)
theory Spec2Isabelle
  imports Defectos Rutas RocksDB_Recovery
begin

text \<open>
  Verification of the server of the \<open>mensajeroX\<close> messenger (\<open>src/Servidor\<close>).

  \<^bold>\<open>The program.\<close> The server keeps users and conversations in a RocksDB database and offers a REST
  interface over HTTP. \<open>main.cpp\<close> loads the known places and starts the web server \<open>mongoose\<close>, which
  reads a request and calls \<open>Servidor::ev_handler\<close>. \<open>Servidor::parsearURI\<close> chooses a service from the
  method and the URI; \<open>Servicio\<close> reads the parameters, works on the entities \<open>Usuario\<close>, \<open>Mensaje\<close> and
  \<open>Conversacion\<close>, and answers with a JSON text. The entities are stored through \<open>BaseDeDatos\<close> as texts
  that \<open>jsoncpp\<close> writes and reads; user identifiers, message identifiers and session tokens are MD5
  digests; \<open>Loger\<close> writes the log and \<open>Localizacion\<close> finds the place of a pair of coordinates.

  \<^bold>\<open>Style of the model.\<close> Every function of the code is a function of the same name. Exceptions and
  undefined behaviour are values (\<open>fallo\<close>), so a call returns \<open>fallo + 'a\<close>; code with effects is a
  function on the record \<open>mundo\<close> (database, singletons, log, clock, places, connection), composed with
  \<open>luego\<close>. Nothing is stubbed: all definitions are total and can be run. Bytes are characters, texts
  lists of them.

  \<^bold>\<open>Theories, and the code they model.\<close>
  \<^item> \<open>Prelude\<close>: results, operations and their composition, characters of the C library, lemma collections.
  \<^item> \<open>StringUtil\<close> (\<open>src/Utilidades/StringUtil.cpp\<close>): case conversion, \<open>split\<close>, conversions. Splitting
    undoes joining.
  \<^item> \<open>Md5\<close> (\<open>src/Utilidades/md5.cpp\<close>): the digest object on 32-bit words. However a message is cut into
    \<open>update\<close> calls, the result is the digest of the reference definition (C18); its shape (C25).
  \<^item> \<open>Json_Value\<close>, \<open>Json_Writer\<close>, \<open>Json_Reader\<close> (\<open>src/json/json.cpp\<close>): values, \<open>StyledWriter\<close> and
    \<open>Reader\<close>, with \<open>Doble\<close> for the doubles. \<open>Json_Lexico\<close>, \<open>Json_Gramatica\<close> and \<open>Json_RoundTrip\<close> lead
    to the round trip: the reader reads back what the writer wrote, up to the reader's nesting bound
    of 1000 (C20).
  \<^item> \<open>RocksDB\<close> (\<open>lib/rocksdb-master\<close>): write batches, the memtable with its skip list, internal keys,
    sequence numbers, and \<open>Put\<close>, \<open>Get\<close> and \<open>Delete\<close> of \<open>DBImpl\<close>, as an interpretation of the locale of a
    key-value store. A read gives the last write (C21). The tables below the memtable are given by
    what they hold (\<open>archivos\<close>), and whether an access to the disk succeeds by an oracle (\<open>env_ok\<close>).
  \<^item> \<open>RocksDB_Coding\<close> (\<open>util/coding.h\<close>, \<open>util/coding.cc\<close>), \<open>RocksDB_Crc\<close> (\<open>util/crc32c.cc\<close>), \<open>RocksDB_Env\<close>
    (\<open>util/env_posix.cc\<close>): the byte encodings, the checksum, which is CRC-32C whichever variant runs
    (C19), and the files with partial, interrupted and failed writes.
  \<^item> \<open>RocksDB_Log\<close>, \<open>RocksDB_LogSpec\<close> (\<open>db/log_writer.cc\<close>, \<open>db/log_reader.cc\<close>): the write-ahead log. What
    the writer accepted is read back, also from a file that lost its end (C14), and
    reading ends on any bytes (C17).
  \<^item> \<open>RocksDB_Batch\<close> (\<open>db/write_batch.cc\<close>), \<open>RocksDB_Recovery\<close> (\<open>db/db_impl.cc\<close>): the bytes of a batch, with
    every way of being corrupt (C16); the write down to its bytes, which refines the
    write of \<open>RocksDB\<close> (C15), so that the oracle there stands for what the log answers;
    and the recovery that replays the log, after which the acknowledged writes are there (C13).
  \<^item> \<open>Mundo\<close>, \<open>Loger\<close> (\<open>src/Log\<close>), \<open>Constantes\<close> (\<open>src/constantes.h\<close>): the state, the log and its levels,
    the constants.
  \<^item> \<open>Persistible\<close>, \<open>Mensaje\<close>, \<open>Usuario\<close>, \<open>Conversacion\<close> (\<open>src/Entidades\<close>) and \<open>BaseDeDatos\<close>
    (\<open>src/BaseDeDatos\<close>): the entities, their texts (an interface, the locale \<open>persistible\<close>, interpreted
    for messages and users) and their storage. What is stored is read back (C22, C23), and
    the index of conversations is kept (C24); a defect of the storage is C26.
  \<^item> \<open>Mongoose_Peticion\<close>, \<open>Mongoose_Respuesta\<close> (\<open>src/WebServer/mongoose.c\<close>): recognising and reading a
    request, URL coding, parameters, the cleaning of paths, and the chunked answer (C27 to C32).
  \<^item> \<open>Doble_Aritmetica\<close>, \<open>Localizacion\<close> (\<open>src/Utilidades/Localizacion.cpp\<close>): the IEEE operations the code
    uses, with their rounding, and the nearest place that covers a point (C33).
  \<^item> \<open>Servicio\<close>, \<open>Servidor\<close> (\<open>src/Servidor\<close>, \<open>main.cpp\<close>): every service, the routes, the handler, the start.
  \<^item> \<open>Rutas\<close>: every address of the interface reaches its service (C34), and the bound on identifiers (C40).
  \<^item> \<open>Atencion\<close>: \<open>sirve m w r f\<close>, "run on \<open>w\<close>, the service returns, answers \<open>r\<close> and changes the data by
    \<open>f\<close>", with the rules that compose it from the facts on the operations a service calls.
  \<^item> \<open>Coherencia\<close>: the invariant of the stored data, the lookups on it and the updates that keep it.
  \<^item> \<open>Servicio_Usuarios\<close>, \<open>Servicio_Conversaciones\<close>: each service on each of its branches. Storing a
    message refines \<open>recibe\<close>, the abstract operation on what two users have told each other (\<open>charla\<close>).
  \<^item> \<open>Sistema\<close>: requests the server can serve (\<open>admisible\<close>), the step relation \<open>paso\<close> of the poll loop,
    and that every step returns and keeps the invariant.
  \<^item> \<open>Defectos\<close>: what happens outside \<open>admisible\<close>, and answers that are not the intended ones (C35 to C39).
  \<^item> This theory: the properties of the whole server (C1 to C12).

  \<^bold>\<open>Bounds and fuel.\<close> The reader's recursion has the bound of 1000 levels the code has; other loops are
  structural or have a termination proof. A message digest is correct for messages of less than
  \<open>2 ^ 32\<close> bytes, the range of the code's counters. Keys and values of a batch are shorter than \<open>2 ^ 32\<close>
  bytes and sequence numbers below \<open>2 ^ 56 - 1\<close>, the widths of their fields; the log has no such bound. The decoder of a chunked body, part of the
  specification, is called with the number of chunks an answer has. \<open>admisible\<close> collects what a request
  must not contain: \<open>%\<close> in what is stored or answered, the separator \<open>#\<close> in a message, a URI of 255
  characters, and other values where arrays are read; each of them is shown to be needed by a
  property of \<open>Defectos\<close> or \<open>Rutas\<close>. The invariant assumes that disk accesses succeed (\<open>bd_sana\<close>); C26
  shows what happens when one fails.

  \<^bold>\<open>Not modelled.\<close> Sockets, the poll loop and its timers, and the parts of \<open>mongoose\<close> the server does not
  use (TLS, websockets, CGI, WebDAV, files and directories, access control); the thread of a request,
  which is joined before the handler returns; the port option of \<open>main\<close>; failures of memory allocation;
  of \<open>jsoncpp\<close>, comments, \<open>OurReader\<close>, \<open>FastWriter\<close>, the stream writers and \<open>Path\<close>, which the server does
  not call; of RocksDB, the format of the files below the memtable, compaction, the manifest, the
  grouping of concurrent writers, caches, statistics and bindings; the standard output, except for the two lines the dispatch prints; the unit tests and the
  Android client, whose calls arrive as requests.
\<close>

section \<open>The whole server\<close>

text \<open>
  C1: the invariant of the stored data holds in every state the server reaches. Started on data that
  satisfies it (in particular on an empty database, or on what an earlier run left), with a
  well-formed or a missing file of places, the server keeps it whatever admissible requests arrive,
  in whatever order: every stored user is stored under the digest of its telephone, every stored
  conversation is between two stored users and has a message, two users share at most one
  conversation, and the index of a user lists exactly its conversations.
\<close>
theorem server_invariant:
  assumes "coherente w0" and "lugares w0 = JArray []" and "archivo_ok archivo"
    and "main_inicio archivo w0 = Inr ((), w1)" and "paso\<^sup>*\<^sup>* w1 w"
  shows "coherente w"
  using main_inicio_coherente [OF assms(1-3)] assms(4) pasos_coherente [OF assms(5)] by auto

lemma pedido_registro_admisible:
  "admisible (pedido ''POST'' urlBaseUsuario [(keyTelefono, ''11''), (keyNombre, ''Ana'')])"
  by (rule admisible_pedido) code_simp

theorem server_invariant_witness:
  "\<exists>w1 w. main_inicio None (mundo_con Map.empty) = Inr ((), w1) \<and> paso w1 w \<and> coherente w"
proof -
  let ?r = "pedido ''POST'' urlBaseUsuario [(keyTelefono, ''11''), (keyNombre, ''Ana'')]"
  have ok: "archivo_ok None" by (simp add: archivo_ok_def)
  note c = coherente_mundo_con [OF datos_vacios]
  obtain w1 where w1: "main_inicio None (mundo_con Map.empty) = Inr ((), w1)" "coherente w1"
    using main_inicio_coherente [OF c _ ok] by auto
  obtain r w where "ev_handler ?r MG_REQUEST (w1\<lparr>salida := envio_nuevo\<rparr>) = Inr (r, w)"
    using ev_handler_atiende [OF w1(2) pedido_registro_admisible] by blast
  then have p: "paso w1 w" by (rule evento [OF pedido_registro_admisible])
  then have "coherente w"
    using server_invariant [OF c _ ok w1(1), of w] by (simp add: r_into_rtranclp)
  then show ?thesis using w1(1) p by blast
qed

text \<open>
  C2: no admissible request stops the server: in every state it reaches, the handler of every request
  returns \<open>MG_TRUE\<close>, whatever service the method and the URI choose and whatever the parameters are,
  and leaves a state from which it can go on.
\<close>
theorem server_serves:
  assumes "coherente w" and "paso\<^sup>*\<^sup>* w w'" and "admisible conn"
  shows "\<exists>w''. ev_handler conn MG_REQUEST (w'\<lparr>salida := envio_nuevo\<rparr>) = Inr (MG_TRUE, w'') \<and> paso w' w''"
proof -
  obtain r w'' where r: "ev_handler conn MG_REQUEST (w'\<lparr>salida := envio_nuevo\<rparr>) = Inr (r, w'')"
    using ev_handler_atiende [OF pasos_coherente [OF assms(2,1)] assms(3)] by blast
  then have "r = MG_TRUE"
    using administrarServicio_atiende [of "w'\<lparr>salida := envio_nuevo\<rparr>" conn] pasos_coherente [OF assms(2,1)] assms(3)
    by (auto simp: ev_handler_def luego_def atiende_def)
  then show ?thesis using r evento [OF assms(3) r] by blast
qed

theorem server_serves_witness:
  "\<exists>w. ev_handler (pedido ''POST'' urlBaseUsuario [(keyTelefono, ''11''), (keyNombre, ''Ana'')]) MG_REQUEST
     ((mundo_con Map.empty)\<lparr>salida := envio_nuevo\<rparr>) = Inr (MG_TRUE, w)"
  using server_serves [OF coherente_mundo_con [OF datos_vacios] rtranclp.rtrancl_refl pedido_registro_admisible] by blast

section \<open>Messages\<close>

text \<open>
  C3: sending a message refines the abstract operation on what two users have told each other. A
  request with the sender's session token is acknowledged with the identifier of the message; the
  message is added at the end of what the two users have told each other, whichever of them started
  the conversation; what any other pair of users have told each other, and every user, stay as they
  were; and the invariant is kept.
\<close>
theorem message_sent:
  assumes "coherente w" and "es_usuario (dato w) (md5 (getParametro conn keyIdUsuarioEmisor [])) ua"
    and "es_usuario (dato w) (md5 (getParametro conn keyIdUsuarioReceptor [])) ub"
    and "token ua = getParametro conn keyTokenSesion []" and "peticion_mensaje conn"
  shows "\<exists>w'. almacenarConversacion conn w = Inr ((), w') \<and>
    salida w' = contestado (Some (mensaje_id (mensaje_pedido conn ua), True)) (salida w) \<and>
    (\<exists>!ms. charla (dato w) (usuario_id ua) (usuario_id ub) ms) \<and>
    recibe (usuario_id ua) (usuario_id ub) (mensaje_pedido conn ua) (dato w) (dato w')"
proof -
  have ids: "md5 (getParametro conn keyIdUsuarioEmisor []) = usuario_id ua"
    "md5 (getParametro conn keyIdUsuarioReceptor []) = usuario_id ub" using assms(2,3) by (simp_all add: es_usuario_def)
  have s: "bd_sana w" and d: "datos_coherentes (dato w)" using assms(1) by (simp_all add: coherente_def)
  have u: "\<exists>!ms. charla (dato w) (usuario_id ua) (usuario_id ub) ms"
    by (rule charla_existe [OF d assms(2,3) [unfolded ids]])
  obtain f where f: "sirve (almacenarConversacion conn) w (Some (mensaje_id (mensaje_pedido conn ua), True)) f"
    "recibe (usuario_id ua) (usuario_id ub) (mensaje_pedido conn ua) (dato w) (f (dato w))"
    using conversacion_enviada [OF assms] by blast
  show ?thesis using sirve_resultado [OF f(1) s] f(2) u by metis
qed

lemma pedido_mensaje:
  defines "c \<equiv> pedido ''POST'' urlBaseConversacion
    [(keyIdUsuarioEmisor, ''11''), (keyIdUsuarioReceptor, ''22''), (keyTokenSesion, ''abc''), (keyCuerpo, ''hola''), (keyFecha, ''1'')]"
  shows "getParametro c keyIdUsuarioEmisor [] = ''11''" "getParametro c keyIdUsuarioReceptor [] = ''22''"
    "getParametro c keyTokenSesion [] = ''abc''" "getParametro c keyCuerpo [] = ''hola''" "getParametro c keyFecha [] = ''1''"
    "peticion_mensaje c"
proof -
  show "getParametro c keyIdUsuarioEmisor [] = ''11''" "getParametro c keyIdUsuarioReceptor [] = ''22''"
    "getParametro c keyTokenSesion [] = ''abc''" and p: "getParametro c keyCuerpo [] = ''hola''" "getParametro c keyFecha [] = ''1''"
    unfolding c_def by (rule parametro_pedido, code_simp)+
  have "peticion_limpia c" unfolding c_def by (rule limpia_pedido) code_simp
  then show "peticion_mensaje c" by (simp add: peticion_mensaje_def p)
qed

theorem message_sent_witness:
  "\<exists>w'. almacenarConversacion (pedido ''POST'' urlBaseConversacion
      [(keyIdUsuarioEmisor, ''11''), (keyIdUsuarioReceptor, ''22''), (keyTokenSesion, ''abc''), (keyCuerpo, ''hola''), (keyFecha, ''1'')])
      (mundo_con datos_ejemplo) = Inr ((), w') \<and>
     charla (dato w') (md5 ''11'') (md5 ''22'') [Mensaje_new ''hola'' (md5 ''11'') ''1'']"
proof -
  obtain ua where ua: "es_usuario datos_ejemplo (md5 ''11'') ua" "token ua = ''abc''"
    and ub: "es_usuario datos_ejemplo (md5 ''22'') (usuario_de_ejemplo ''22'')" by (rule usuarios_ejemplo)
  have ids: "usuario_id ua = md5 ''11''" using ua(1) by (simp add: es_usuario_def)
  have "charla datos_ejemplo (md5 ''11'') (md5 ''22'') []" by (simp add: charla_def datos_ejemplo_def)
  moreover obtain w' where "almacenarConversacion (pedido ''POST'' urlBaseConversacion
      [(keyIdUsuarioEmisor, ''11''), (keyIdUsuarioReceptor, ''22''), (keyTokenSesion, ''abc''), (keyCuerpo, ''hola''), (keyFecha, ''1'')])
      (mundo_con datos_ejemplo) = Inr ((), w')"
      "recibe (md5 ''11'') (md5 ''22'') (Mensaje_new ''hola'' (md5 ''11'') ''1'') datos_ejemplo (dato w')"
    using message_sent [OF coherente_ejemplo, unfolded mundo_con_dato, of _ ua "usuario_de_ejemplo ''22''", OF _ _ _ pedido_mensaje(6)]
      pedido_mensaje ua ub by (auto simp: mensaje_pedido_def ids)
  ultimately show ?thesis unfolding recibe_def by (metis append_Nil)
qed

text \<open>
  C4: what was sent can be read. After a message has been sent, the conversation of the two users,
  under the identifier of whoever started it, is answered to a client with all its messages in the
  order they were sent, the new one last; a client that names the last message it has gets only those
  after it. Reading changes nothing.
\<close>
theorem message_read:
  assumes "coherente w" and "es_usuario (dato w) (md5 (getParametro conn keyIdUsuarioEmisor [])) ua"
    and "es_usuario (dato w) (md5 (getParametro conn keyIdUsuarioReceptor [])) ub"
    and "token ua = getParametro conn keyTokenSesion []" and "peticion_mensaje conn"
    and "charla (dato w) (usuario_id ua) (usuario_id ub) ms"
  shows "\<exists>w1 k. almacenarConversacion conn w = Inr ((), w1) \<and>
    k \<in> {usuario_id ua @ ''-'' @ usuario_id ub, usuario_id ub @ ''-'' @ usuario_id ua} \<and>
    (\<forall>conn'. getParametroIdMetodoGET conn' urlBaseConversacion = Inr k \<longrightarrow>
       (let i = getParametro conn' keyIdUltimoMensaje []; todos = ms @ [mensaje_pedido conn ua]
        in \<exists>w2. obtenerConversacion conn' w1 = Inr ((), w2) \<and> dato w2 = dato w1 \<and>
          salida w2 = contestado (Some (mensajes_texto
            (if i = [] then todos else tl (dropWhile (\<lambda>x. mensaje_id x \<noteq> i) todos)), True)) (salida w1)))"
proof -
  let ?x = "mensaje_pedido conn ua" and ?a = "usuario_id ua" and ?b = "usuario_id ub"
  have s: "bd_sana w" using assms(1) by (simp add: coherente_def)
  obtain f where f: "sirve (almacenarConversacion conn) w (Some (mensaje_id ?x, True)) f" "recibe ?a ?b ?x (dato w) (f (dato w))"
    using conversacion_enviada [OF assms(1-5)] by blast
  have "atiende (almacenarConversacion conn) w" using f sirve_atiende [OF f(1) assms(1)] by (simp add: recibe_def)
  then obtain w1 where w1: "almacenarConversacion conn w = Inr ((), w1)" "coherente w1" "dato w1 = f (dato w)"
    using sirve_resultado [OF f(1) s] by (auto simp: atiende_def)
  have "charla (dato w1) ?a ?b (ms @ [?x])" using f(2) assms(6) by (simp add: recibe_def w1(3))
  then obtain k c d where k: "k \<in> {?a @ ''-'' @ ?b, ?b @ ''-'' @ ?a}" "es_conversacion (dato w1) k c d (ms @ [?x])"
    unfolding charla_def by blast
  have "bd_sana w1" using w1(2) by (simp add: coherente_def)
  then show ?thesis
    using w1(1) k(1) sirve_resultado [OF conversacion_leida [OF w1(2) _ k(2)]]
    by (intro exI [of _ w1] exI [of _ k]) (simp add: Let_def nada_def)
qed

theorem message_read_witness:
  "\<exists>w1 k. almacenarConversacion (pedido ''POST'' urlBaseConversacion
      [(keyIdUsuarioEmisor, ''11''), (keyIdUsuarioReceptor, ''22''), (keyTokenSesion, ''abc''), (keyCuerpo, ''hola''), (keyFecha, ''1'')])
      (mundo_con datos_ejemplo) = Inr ((), w1) \<and>
    k \<in> {md5 ''11'' @ ''-'' @ md5 ''22'', md5 ''22'' @ ''-'' @ md5 ''11''} \<and>
    (\<exists>w2. obtenerConversacion (pedido ''GET'' (urlBaseConversacion @ k) []) w1 = Inr ((), w2) \<and>
       salida w2 = contestado (Some (mensajes_texto [Mensaje_new ''hola'' (md5 ''11'') ''1''], True)) (salida w1))"
proof -
  obtain ua where ua: "es_usuario datos_ejemplo (md5 ''11'') ua" "token ua = ''abc''"
    and ub: "es_usuario datos_ejemplo (md5 ''22'') (usuario_de_ejemplo ''22'')" by (rule usuarios_ejemplo)
  have ids: "usuario_id ua = md5 ''11''" using ua(1) by (simp add: es_usuario_def)
  have ms: "charla datos_ejemplo (md5 ''11'') (md5 ''22'') []" by (simp add: charla_def datos_ejemplo_def)
  let ?c = "pedido ''POST'' urlBaseConversacion
      [(keyIdUsuarioEmisor, ''11''), (keyIdUsuarioReceptor, ''22''), (keyTokenSesion, ''abc''), (keyCuerpo, ''hola''), (keyFecha, ''1'')]"
  have hex: "list_all (\<lambda>c. \<not> isspace c) (md5 t)" for t
    using set_md5 [of t] by (auto simp: list_all_iff hex_digits_def isspace_def)
  have guion: "list_all (\<lambda>c. \<not> isspace c) (md5 s @ ''-'' @ md5 t)" "length (md5 s @ ''-'' @ md5 t) = 65" for s t
    using hex [of s] hex [of t] by (simp_all, simp add: isspace_def)
  obtain w1 k where 1: "almacenarConversacion ?c (mundo_con datos_ejemplo) = Inr ((), w1)"
      "k \<in> {md5 ''11'' @ ''-'' @ md5 ''22'', md5 ''22'' @ ''-'' @ md5 ''11''}"
    and 2: "\<forall>conn'. getParametroIdMetodoGET conn' urlBaseConversacion = Inr k \<longrightarrow>
       (let i = getParametro conn' keyIdUltimoMensaje []; todos = [] @ [mensaje_pedido ?c ua]
        in \<exists>w2. obtenerConversacion conn' w1 = Inr ((), w2) \<and> dato w2 = dato w1 \<and>
          salida w2 = contestado (Some (mensajes_texto
            (if i = [] then todos else tl (dropWhile (\<lambda>x. mensaje_id x \<noteq> i) todos)), True)) (salida w1))"
    using message_read [OF coherente_ejemplo, unfolded mundo_con_dato, of ?c ua "usuario_de_ejemplo ''22''" "[]",
      unfolded pedido_mensaje ids usuario_de_ejemplo_simps, OF ua(1) ub ua(2) pedido_mensaje(6) ms]
    by (elim exE conjE)
  have "length k = 65" "list_all (\<lambda>c. \<not> isspace c) k" using 1(2) guion by (metis insertE singletonD)+
  then have g: "getParametroIdMetodoGET (pedido ''GET'' (urlBaseConversacion @ k) []) urlBaseConversacion = Inr k"
    by (intro getParametroIdMetodoGET_id) (auto simp: pedido_def)
  have p: "getParametro (pedido ''GET'' (urlBaseConversacion @ k) []) keyIdUltimoMensaje [] = []"
    by (rule parametro_pedido) code_simp
  have m: "mensaje_pedido ?c ua = Mensaje_new ''hola'' (md5 ''11'') ''1''" by (simp add: mensaje_pedido_def ids pedido_mensaje)
  have "\<exists>w2. obtenerConversacion (pedido ''GET'' (urlBaseConversacion @ k) []) w1 = Inr ((), w2) \<and>
       salida w2 = contestado (Some (mensajes_texto [Mensaje_new ''hola'' (md5 ''11'') ''1''], True)) (salida w1)"
    using 2 [rule_format, OF g] unfolding Let_def p m by auto
  then show ?thesis using 1 by blast
qed

section \<open>Session tokens\<close>

text \<open>
  C6: nobody changes a profile without the user's session token: a request with another token is
  answered negatively and leaves the data as it was.
\<close>
theorem profile_needs_token:
  assumes "coherente w" and "es_usuario (dato w) (md5 (getParametro conn keyTelefono [])) u"
    and "token u \<noteq> getParametro conn keyTokenSesion []"
  shows "\<exists>w'. administrarPerfil conn w = Inr ((), w') \<and> dato w' = dato w \<and>
    salida w' = contestado (Some (''El usuario '' @ nombre u @ '' no posee un token de session correcto'', False)) (salida w)"
  using sirve_resultado [OF perfil_rechazado [OF assms]] assms(1) unfolding rechazo_token_def by (simp add: coherente_def nada_def)

theorem profile_needs_token_witness:
  "\<exists>w'. administrarPerfil (pedido ''PUT'' urlBaseUsuario [(keyTelefono, ''22''), (keyTokenSesion, ''xyz'')]) (mundo_con datos_ejemplo)
     = Inr ((), w') \<and> dato w' = datos_ejemplo"
proof -
  let ?c = "pedido ''PUT'' urlBaseUsuario [(keyTelefono, ''22''), (keyTokenSesion, ''xyz'')]"
  have "getParametro ?c keyTelefono [] = ''22''" "getParametro ?c keyTokenSesion [] = ''xyz''" by (rule parametro_pedido, code_simp)+
  moreover have "es_usuario datos_ejemplo (md5 ''22'') (usuario_de_ejemplo ''22'')" by (rule usuarios_ejemplo)
  ultimately show ?thesis
    using profile_needs_token [OF coherente_ejemplo, of ?c "usuario_de_ejemplo ''22''"] by auto
qed



section \<open>Users\<close>

text \<open>
  C7: a telephone is registered once. A request with a telephone nobody has registered stores a
  connected user with that name, telephone and password, under the digest of the telephone, and no
  other data changes; registering the same telephone again, with whatever data, is answered
  negatively and changes nothing.
\<close>
theorem register_once:
  assumes "coherente w" and "dato w (clave_usuario (md5 (getParametro conn keyTelefono []))) = None" and "peticion_limpia conn"
  shows "\<exists>w1 u. registrarUsuario conn w = Inr ((), w1) \<and>
    salida w1 = contestado (Some (''Usuario registrado correctamente'', True)) (salida w) \<and>
    es_usuario (dato w1) (md5 (getParametro conn keyTelefono [])) u \<and> nombre u = getParametro conn keyNombre [] \<and>
    telefono u = getParametro conn keyTelefono [] \<and> password u = getParametro conn keyPassword [] \<and> conectado u \<and>
    (\<forall>k. k \<noteq> clave_usuario (usuario_id u) \<longrightarrow> dato w1 k = dato w k) \<and>
    (\<forall>conn'. getParametro conn' keyTelefono [] = getParametro conn keyTelefono [] \<longrightarrow>
       (\<exists>w2. registrarUsuario conn' w1 = Inr ((), w2) \<and> dato w2 = dato w1 \<and>
          salida w2 = contestado (Some (''El usuario ya existe'', False)) (salida w1)))"
proof -
  let ?k = "md5 (getParametro conn keyTelefono [])"
  obtain t where t: "limpio t" "sirve (registrarUsuario conn) w (Some (''Usuario registrado correctamente'', True))
      (\<lambda>m. m(clave_usuario ?k \<mapsto> Usuario_texto (usuario_nuevo conn t)))" using registrar_nuevo [OF assms(1,2)] by blast
  let ?u = "usuario_nuevo conn t"
  have s: "bd_sana w" using assms(1) by (simp add: coherente_def)
  have u: "usuario_id ?u = ?k" "telefono ?u = getParametro conn keyTelefono []" "usuario_limpio ?u"
    using t(1) assms(3) by (simp_all add: usuario_nuevo_def usuario_limpio_def peticion_limpia_def parametros_def)
  obtain w1 where w1: "registrarUsuario conn w = Inr ((), w1)" "dato w1 = (dato w)(clave_usuario ?k \<mapsto> Usuario_texto ?u)"
      "salida w1 = contestado (Some (''Usuario registrado correctamente'', True)) (salida w)"
    using sirve_resultado [OF t(2) s] by blast
  have "atiende (registrarUsuario conn) w"
    using sirve_atiende [OF t(2) assms(1)] datos_usuario [of "dato w" ?u] assms(1) u by (simp add: coherente_def)
  then have c1: "coherente w1" using w1(1) by (auto simp: atiende_def)
  have e: "es_usuario (dato w1) ?k ?u" using u by (simp add: es_usuario_def w1(2))
  have otra: "\<exists>w2. registrarUsuario conn' w1 = Inr ((), w2) \<and> dato w2 = dato w1 \<and>
      salida w2 = contestado (Some (''El usuario ya existe'', False)) (salida w1)"
    if "getParametro conn' keyTelefono [] = getParametro conn keyTelefono []" for conn'
    using sirve_resultado [OF registrar_existente [OF c1, of conn' ?u]] e c1 by (simp add: that coherente_def nada_def)
  show ?thesis
    using w1(1,3) e otra u by (intro exI [of _ w1] exI [of _ ?u]) (simp add: w1(2), simp add: usuario_nuevo_def)
qed

theorem register_once_witness:
  "\<exists>w1 u. registrarUsuario (pedido ''POST'' urlBaseUsuario [(keyTelefono, ''33''), (keyPassword, ''x'')]) (mundo_con Map.empty)
     = Inr ((), w1) \<and> es_usuario (dato w1) (md5 ''33'') u \<and> password u = ''x''"
proof -
  let ?c = "pedido ''POST'' urlBaseUsuario [(keyTelefono, ''33''), (keyPassword, ''x'')]"
  have l: "peticion_limpia ?c" by (rule limpia_pedido) code_simp
  have t: "getParametro ?c keyTelefono [] = ''33''" "getParametro ?c keyPassword [] = ''x''" by (rule parametro_pedido, code_simp)+
  show ?thesis using register_once [OF coherente_mundo_con [OF datos_vacios] _ l] by (simp add: t) blast
qed



text \<open>
  C12: a check-in records in the user's profile, and answers, the nearest of the loaded places that
  covers the coordinates of the request, \<open>desconocida\<close> when none does, with the time; nothing else
  changes.
\<close>
theorem checkin_place:
  assumes "coherente w" and "es_usuario (dato w) (md5 (getParametro conn keyTelefono [])) u"
    and "lugares w = JArray (map lugar_json ps)"
  defines "lat \<equiv> atof (getParametro conn keyLatitud [])" and "lon \<equiv> atof (getParametro conn keyLongitud [])"
  shows "\<exists>w' l t. checkIn conn w = Inr ((), w') \<and>
    dato w' = (dato w)(clave_usuario (usuario_id u) \<mapsto> Usuario_texto (u\<lparr>localizacion := l @ '' '' @ t\<rparr>)) \<and>
    salida w' = contestado (Some (l @ '' '' @ t, True)) (salida w) \<and>
    (l = ''desconocida'' \<and> (\<forall>q \<in> set ps. \<not> cubre lat lon q) \<or>
     (\<exists>p \<in> set ps. l = lug_nombre p \<and> cubre lat lon p \<and>
        (\<forall>q \<in> set ps. cubre lat lon q \<longrightarrow> doble_le (distancia lat lon p) (distancia lat lon q))))"
proof -
  obtain l t where l: "lugar_de w lat lon l" "sirve (checkIn conn) w (Some (l @ '' '' @ t, True))
      (\<lambda>m. m(clave_usuario (usuario_id u) \<mapsto> Usuario_texto (u\<lparr>localizacion := l @ '' '' @ t\<rparr>)))"
    using checkIn_registrado [OF assms(1,2)] unfolding lat_def lon_def by blast
  obtain qs d where "map lugar_json ps = map lugar_json qs" and h: "hasta_ahora lat lon (set qs) (l, d)"
    using l(1) assms(3) by (auto simp: lugar_de_def)
  moreover have "inj lugar_json" by (rule injI) (simp add: lugar_json_def)
  ultimately have "set qs = set ps" by (simp add: inj_map_eq_map)
  then have "l = ''desconocida'' \<and> (\<forall>q \<in> set ps. \<not> cubre lat lon q) \<or>
     (\<exists>p \<in> set ps. l = lug_nombre p \<and> cubre lat lon p \<and>
        (\<forall>q \<in> set ps. cubre lat lon q \<longrightarrow> doble_le (distancia lat lon p) (distancia lat lon q)))"
    using h by (auto simp: hasta_ahora_def)
  then show ?thesis using sirve_resultado [OF l(2)] assms(1) by (auto simp: coherente_def)
qed

theorem checkin_place_witness:
  "\<exists>w' t. checkIn (pedido ''PUT'' urlCheckinUsuario [(keyTelefono, ''22'')]) (mundo_con datos_ejemplo) = Inr ((), w') \<and>
     salida w' = contestado (Some (''desconocida '' @ t, True)) (salida (mundo_con datos_ejemplo))"
proof -
  let ?c = "pedido ''PUT'' urlCheckinUsuario [(keyTelefono, ''22'')]"
  have "getParametro ?c keyTelefono [] = ''22''" by (rule parametro_pedido) code_simp
  moreover have "es_usuario datos_ejemplo (md5 ''22'') (usuario_de_ejemplo ''22'')" by (rule usuarios_ejemplo)
  ultimately show ?thesis
    using checkin_place [OF coherente_ejemplo, of ?c "usuario_de_ejemplo ''22''" "[]"] by auto
qed

section \<open>Lists\<close>

text \<open>
  C10: of the telephones of a request for contacts, the answer lists exactly the registered and
  connected users, in the order of the request; nothing changes.
\<close>
theorem contacts_listed:
  assumes "coherente w" and "bnd (getParametroArray conn keyContantosTelefono []) jsonValueToVector = Inr tels"
    and "\<forall>tel. encontrado (dato w) (md5 tel) (us tel)"
  shows "\<exists>w'. obtenerContactos conn w = Inr ((), w') \<and> dato w' = dato w \<and> salida w' = contestado (Some (contactos_texto
    (map us (filter (\<lambda>tel. dato w (clave_usuario (md5 tel)) \<noteq> None \<and> conectado (us tel)) tels)), True)) (salida w)"
proof -
  obtain us' where us': "\<forall>tel. encontrado (dato w) (md5 tel) (us' tel)"
      "sirve (obtenerContactos conn) w (Some (contactos_texto (conectados us' tels), True)) nada"
    using contactos_servicio [OF assms(1,2)] by blast
  have "us' tel = us tel" for tel
    using us'(1) assms(3) es_usuario_unico unfolding encontrado_def by metis
  then have "us' = us" by blast
  moreover have "conectados us tels = map us (filter (\<lambda>tel. dato w (clave_usuario (md5 tel)) \<noteq> None \<and> conectado (us tel)) tels)"
    unfolding conectados_def filter_map comp_def using encontrado_invalido [OF assms(3) [rule_format]] by simp
  ultimately show ?thesis using sirve_resultado [OF us'(2)] assms(1) by (simp add: coherente_def nada_def)
qed

theorem contacts_listed_witness:
  "\<exists>w' u. obtenerContactos (pedido ''GET'' urlBaseContactos [(keyContantosTelefono, ''['' @ [DQ] @ ''22'' @ [DQ] @ '']'')])
      (mundo_con datos_ejemplo) = Inr ((), w') \<and> telefono u = ''22'' \<and>
    salida w' = contestado (Some (contactos_texto [u], True)) (salida (mundo_con datos_ejemplo))"
proof -
  let ?t = "''['' @ [DQ] @ ''22'' @ [DQ] @ '']''"
  let ?c = "pedido ''GET'' urlBaseContactos [(keyContantosTelefono, ?t)]"
  have "getParametro ?c keyContantosTelefono [] = ?t" by (rule parametro_pedido) code_simp
  moreover have "bnd (bnd (parse ?t JNull) (\<lambda>(ok, v). Inr v)) jsonValueToVector = Inr [''22'']" by code_simp
  ultimately have tels: "bnd (getParametroArray ?c keyContantosTelefono []) jsonValueToVector = Inr [''22'']"
    by (simp add: getParametroArray_def)
  obtain us where us: "\<forall>tel. encontrado datos_ejemplo (md5 tel) (us tel)"
    by (rule buscador [OF coherente_ejemplo, unfolded mundo_con_dato])
  have e: "es_usuario datos_ejemplo (md5 ''22'') (usuario_de_ejemplo ''22'')" by (rule usuarios_ejemplo)
  have u: "us ''22'' = usuario_de_ejemplo ''22''" using es_usuario_encontrado [OF e us [rule_format]] .
  have n: "datos_ejemplo (clave_usuario (md5 ''22'')) \<noteq> None" using e by (simp add: es_usuario_def)
  have "map us (filter (\<lambda>tel. datos_ejemplo (clave_usuario (md5 tel)) \<noteq> None \<and> conectado (us tel)) [''22'']) = [usuario_de_ejemplo ''22'']"
    using u n by simp
  then obtain w' where "obtenerContactos ?c (mundo_con datos_ejemplo) = Inr ((), w')"
      "salida w' = contestado (Some (contactos_texto [usuario_de_ejemplo ''22''], True)) (salida (mundo_con datos_ejemplo))"
    using contacts_listed [OF coherente_ejemplo tels, unfolded mundo_con_dato, OF us] by (elim exE conjE) (simp only:)
  then show ?thesis by (intro exI [of _ w'] exI [of _ "usuario_de_ejemplo ''22''"]) simp
qed

text \<open>
  C9: a user that asks for its conversations gets exactly those it takes part in and does not name as
  known, each once and as it is stored, with its last message and the other user; nothing changes.
\<close>
theorem conversations_listed:
  assumes "coherente w" and "getParametroIdMetodoGET conn urlBaseUsuarioConversaciones = Inr tel"
    and "bnd (getParametroArray conn keyIdConversaciones []) jsonValueToVector = Inr ids"
    and "es_usuario (dato w) (md5 tel) u"
  shows "\<exists>w' ks cs. obtenerConversaciones conn w = Inr ((), w') \<and> dato w' = dato w \<and>
    salida w' = contestado (Some (conversaciones_texto u cs, True)) (salida w) \<and>
    list_all2 (hallada (dato w)) ks cs \<and> distinct ks \<and>
    set ks = {k. dato w (clave_conversacion k) \<noteq> None \<and> usuario_id u \<in> set (split k CHR ''-'')} - set ids"
proof -
  let ?ks = "filter (\<lambda>k. k \<notin> set ids \<and> dato w (clave_conversacion k) \<noteq> None) (indice (dato w) (usuario_id u))"
  obtain cs where cs: "\<forall>k. hallada (dato w) k (cs k)"
    "sirve (obtenerConversaciones conn) w (Some (conversaciones_texto u (map cs ?ks), True)) nada"
    using conversaciones_leidas [OF assms(1,3,2,4)] by blast
  have i: "distinct (indice (dato w) (usuario_id u))" "set (indice (dato w) (usuario_id u)) = insert keyDatoNoEncontrado
      {k. dato w (clave_conversacion k) \<noteq> None \<and> usuario_id u \<in> set (split k CHR ''-'')}"
    using assms(1) unfolding coherente_def datos_coherentes_def indices_coherentes_def by blast+
  have "dato w (clave_conversacion keyDatoNoEncontrado) = None"
  proof (rule ccontr)
    assume "dato w (clave_conversacion keyDatoNoEncontrado) \<noteq> None"
    then obtain a b ms where "es_conversacion (dato w) keyDatoNoEncontrado a b ms"
      using assms(1) unfolding coherente_def datos_coherentes_def conversaciones_coherentes_def by blast
    then show False using guion_id(3) [of a b] unfolding es_conversacion_def by metis
  qed
  then have "set ?ks = {k. dato w (clave_conversacion k) \<noteq> None \<and> usuario_id u \<in> set (split k CHR ''-'')} - set ids"
    using i(2) by auto
  moreover have "list_all2 (hallada (dato w)) ?ks (map cs ?ks)" using cs(1) by (simp add: list_all2_map2 list_all2_same)
  moreover have "distinct ?ks" using i(1) by simp
  moreover have "\<exists>w'. obtenerConversaciones conn w = Inr ((), w') \<and> dato w' = dato w \<and>
      salida w' = contestado (Some (conversaciones_texto u (map cs ?ks), True)) (salida w)"
    using sirve_resultado [OF cs(2)] assms(1) by (simp add: coherente_def nada_def)
  ultimately show ?thesis by blast
qed

theorem conversations_listed_witness:
  "\<exists>w' ks. obtenerConversaciones (pedido ''GET'' ''/usuarioConversacion/22'' []) (mundo_con datos_ejemplo) = Inr ((), w') \<and>
     salida w' = contestado (Some (conversaciones_texto (usuario_de_ejemplo ''22'') [], True)) (salida (mundo_con datos_ejemplo))"
proof -
  let ?c = "pedido ''GET'' ''/usuarioConversacion/22'' []"
  have g: "getParametroIdMetodoGET ?c urlBaseUsuarioConversaciones = Inr ''22''"
    by (simp add: getParametroIdMetodoGET_def sscanf_s_def pedido_def isspace_def Let_def)
  have "getParametro ?c keyIdConversaciones [] = []" by (rule parametro_pedido) code_simp
  moreover have "bnd (bnd (parse [] JNull) (\<lambda>(ok, v). Inr v)) jsonValueToVector = Inr []" by code_simp
  ultimately have ids: "bnd (getParametroArray ?c keyIdConversaciones []) jsonValueToVector = Inr []"
    by (simp add: getParametroArray_def)
  have e: "es_usuario datos_ejemplo (md5 ''22'') (usuario_de_ejemplo ''22'')" by (rule usuarios_ejemplo)
  have no: "datos_ejemplo (clave_conversacion k) = None" for k by (simp add: datos_ejemplo_def)
  show ?thesis
    using conversations_listed [OF coherente_ejemplo g ids, unfolded mundo_con_dato, OF e] by (auto simp: no)
qed

text \<open>
  C8: a broadcast with the sender's session token reaches the registered and connected users of the
  list, one after the other in its order: each of them receives the message in its conversation with
  the sender, and nothing else changes.
\<close>
theorem broadcast_sent:
  assumes "coherente w" and "bnd (getParametroArray conn keyContantosTelefono []) jsonValueToVector = Inr tels"
    and "es_usuario (dato w) (md5 (getParametro conn keyIdUsuarioEmisor [])) ua"
    and "token ua = getParametro conn keyTokenSesion []" and "peticion_mensaje conn"
  shows "\<exists>w' us. almacenarListaDifusion conn w = Inr ((), w') \<and>
    salida w' = contestado (Some (''Lista de difusion enviada correctamente'', True)) (salida w) \<and>
    (\<forall>tel. encontrado (dato w) (md5 tel) (us tel)) \<and>
    reciben (usuario_id ua) (map md5 (filter (\<lambda>tel. dato w (clave_usuario (md5 tel)) \<noteq> None \<and> conectado (us tel)) tels))
      (mensaje_pedido conn ua) (dato w) (dato w')"
proof -
  obtain us f where us: "\<forall>tel. encontrado (dato w) (md5 tel) (us tel)"
    and f: "sirve (almacenarListaDifusion conn) w (Some (''Lista de difusion enviada correctamente'', True)) f"
      "reciben (usuario_id ua) (map usuario_id (conectados us tels)) (mensaje_pedido conn ua) (dato w) (f (dato w))"
    using difusion_enviada [OF assms] by blast
  have "usuario_id (us tel) = md5 tel" if "dato w (clave_usuario (md5 tel)) \<noteq> None" for tel
  proof -
    have "es_usuario (dato w) (md5 tel) (us tel)" using us that unfolding encontrado_def by metis
    then show ?thesis unfolding es_usuario_def by blast
  qed
  then have "map usuario_id (conectados us tels) =
      map md5 (filter (\<lambda>tel. dato w (clave_usuario (md5 tel)) \<noteq> None \<and> conectado (us tel)) tels)"
    unfolding conectados_def filter_map comp_def encontrado_invalido [OF us [rule_format]] by simp
  then have r: "reciben (usuario_id ua) (map md5 (filter (\<lambda>tel. dato w (clave_usuario (md5 tel)) \<noteq> None \<and> conectado (us tel)) tels))
      (mensaje_pedido conn ua) (dato w) (f (dato w))" using f(2) by (simp only:)
  have "bd_sana w" using assms(1) by (simp add: coherente_def)
  from sirve_resultado [OF f(1) this] obtain w' where "almacenarListaDifusion conn w = Inr ((), w')"
    "dato w' = f (dato w)" "salida w' = contestado (Some (''Lista de difusion enviada correctamente'', True)) (salida w)" by blast
  then show ?thesis using r us by (intro exI [of _ w'] exI [of _ us]) (simp only:, blast)
qed

theorem broadcast_sent_witness:
  "\<exists>w'. almacenarListaDifusion (pedido ''POST'' urlBaseListaDifusion [(keyIdUsuarioEmisor, ''22''), (keyTokenSesion, ''abc''),
      (keyContantosTelefono, ''['' @ [DQ] @ ''22'' @ [DQ] @ '']''), (keyCuerpo, ''hola'')]) (mundo_con datos_ejemplo) = Inr ((), w') \<and>
    charla (dato w') (md5 ''22'') (md5 ''22'') [Mensaje_new ''hola'' (md5 ''22'') []]"
proof -
  let ?t = "''['' @ [DQ] @ ''22'' @ [DQ] @ '']''"
  let ?c = "pedido ''POST'' urlBaseListaDifusion [(keyIdUsuarioEmisor, ''22''), (keyTokenSesion, ''abc''),
      (keyContantosTelefono, ?t), (keyCuerpo, ''hola'')]"
  have p: "getParametro ?c keyContantosTelefono [] = ?t" "getParametro ?c keyIdUsuarioEmisor [] = ''22''"
    "getParametro ?c keyTokenSesion [] = ''abc''" "getParametro ?c keyCuerpo [] = ''hola''" "getParametro ?c keyFecha [] = []"
    by (rule parametro_pedido, code_simp)+
  have "peticion_limpia ?c" by (rule limpia_pedido) code_simp
  then have pm: "peticion_mensaje ?c" unfolding peticion_mensaje_def p by simp
  have "bnd (bnd (parse ?t JNull) (\<lambda>(ok, v). Inr v)) jsonValueToVector = Inr [''22'']" by code_simp
  then have tels: "bnd (getParametroArray ?c keyContantosTelefono []) jsonValueToVector = Inr [''22'']"
    unfolding getParametroArray_def p(1) .
  have e: "es_usuario datos_ejemplo (md5 ''22'') (usuario_de_ejemplo ''22'')" by (rule usuarios_ejemplo)
  have n: "datos_ejemplo (clave_usuario (md5 ''22'')) \<noteq> None" using e by (simp add: es_usuario_def)
  obtain w' us where w': "almacenarListaDifusion ?c (mundo_con datos_ejemplo) = Inr ((), w')"
    and us: "\<forall>tel. encontrado datos_ejemplo (md5 tel) (us tel)"
    and r: "reciben (md5 ''22'') (map md5 (filter (\<lambda>tel. datos_ejemplo (clave_usuario (md5 tel)) \<noteq> None \<and> conectado (us tel)) [''22'']))
      (mensaje_pedido ?c (usuario_de_ejemplo ''22'')) datos_ejemplo (dato w')"
    using broadcast_sent [OF coherente_ejemplo tels, unfolded mundo_con_dato p, OF e usuario_de_ejemplo_simps(3) pm,
      unfolded usuario_de_ejemplo_simps] by (elim exE conjE)
  have "us ''22'' = usuario_de_ejemplo ''22''" using es_usuario_encontrado [OF e us [rule_format]] .
  then have "recibe (md5 ''22'') (md5 ''22'') (mensaje_pedido ?c (usuario_de_ejemplo ''22'')) datos_ejemplo (dato w')"
    using r n unfolding filter.simps by simp
  moreover have "charla datos_ejemplo (md5 ''22'') (md5 ''22'') []" by (simp add: charla_def datos_ejemplo_def)
  moreover have "mensaje_pedido ?c (usuario_de_ejemplo ''22'') = Mensaje_new ''hola'' (md5 ''22'') []"
    unfolding mensaje_pedido_def p by simp
  ultimately show ?thesis using w' unfolding recibe_def by (metis append_Nil)
qed

end
